(* ===== verification/Prelude.thy ===== *)
theory Prelude
  imports Main "HOL-Library.Word" "HOL-Library.Monad_Syntax"
begin

text \<open>
  Shared vocabulary of the development: Go's \<open>[]byte\<close> and \<open>string\<close>, run-time
  panics (the \<open>None\<close> of \<open>option\<close>), error returns (the \<open>Inl\<close> of a sum), the
  fixed-width encodings of \<open>encoding/binary\<close>, and the generic list lemmas the
  component theories rest on.
\<close>

unbundle bit_operations_syntax

named_theorems go_access \<open>evaluation of guarded index and slice expressions\<close>

section \<open>Bytes, strings and error values\<close>

type_synonym byte = "8 word"
type_synonym bytes = "byte list"

text \<open>
  A Go \<open>string\<close> is a sequence of bytes, as an Isabelle \<open>string\<close> is a sequence of
  8-bit characters; \<open>[]byte(s)\<close> and \<open>string(b)\<close> are the two conversions.
\<close>

definition bytes_of_string :: "string \<Rightarrow> bytes" where
  "bytes_of_string s = map of_char s"

definition string_of_bytes :: "bytes \<Rightarrow> string" where
  "string_of_bytes b = map (\<lambda>w. char_of (unat w)) b"

text \<open>
  Every error a Go function of the program returns, one constructor per
  \<open>fmt.Errorf\<close> (with the values the message interpolates that a caller can
  observe), and the ones passed on from a library call.
\<close>

datatype advert_error =
    MissingManufacturerData
  | ManufacturerDataTooShort
  | UnsupportedSerialPrefix string

datatype config_error =
    NoDevices
  | UnsupportedProviderType string
  | DeviceNameRequired nat
  | DeviceMacRequired nat
  | ProviderAuthRequired

datatype login_error =
    CredentialsRequired
  | UnsupportedRegion string
  | RegionNeedsPhone
  | LoginStatus int
  | LoginRejected string
  | LoginEmptyUserID

datatype session_error =
    UnsupportedPublicKeySize nat
  | PublicKeyNotOnCurve
  | InvalidKeyInfo
  | KeyDataOutOfRange
  | InvalidPublicKeyResponse
  | PublicKeyResponseTooShort nat nat
  | InvalidKeyInfoResponse
  | KeyInfoTooShort
  | UnsupportedEncryptType nat
  | UnsupportedCurve nat
  | HandshakeTimeout
  | AuthenticationTimeout
  | AuthenticationFailed byte
  | NoHandler
  | IdleTimeout

datatype transport_error =
    ScanTimeout string
  | ScanEnded string
  | ConnectTimeout string
  | NoCharacteristics

datatype go_error =
    PacketPayloadTooLarge nat
  | InvalidPacketPrefix
  | V4PacketsNotSupported
  | InvalidHeaderCrc8
  | IncompletePacket
  | InvalidPacketCrc16
  | EncPayloadTooLarge nat
  | PlaintextTooLarge nat
  | InvalidAesKeySize nat
  | CiphertextNotAligned
  | BodyTooShort nat nat
  | InvalidPkcs7BlockSize int
  | InvalidPkcs7Length
  | InvalidPkcs7Padding
  | AdvertError advert_error
  | ConfigError config_error
  | LoginError login_error
  | SessionError session_error
  | TransportError transport_error
  | DecodeFailed string go_error   \<comment> \<open>\<open>fmt.Errorf("decode ...: %w", err)\<close>\<close>
  | EndOfInput                     \<comment> \<open>\<open>io.EOF\<close>\<close>
  | UnexpectedEndOfInput           \<comment> \<open>\<open>io.ErrUnexpectedEOF\<close>\<close>
  | Canceled                       \<comment> \<open>\<open>context.Canceled\<close>\<close>
  | JSONDirRequired
  | ProviderStopped
  | LibraryError string            \<comment> \<open>an error a library call returned\<close>

text \<open>
  An expression that may panic (an index or a slice out of range) is an \<open>option\<close>:
  \<open>None\<close> is the panic. An index expression is \<open>xs[i]\<close>, a slice expression
  \<open>xs[a:b]\<close>; Go lets \<open>b\<close> run up to the capacity, the model panics beyond the
  length already, so the absence of panics proved here is the stronger fact.
\<close>

definition go_index :: "'a list \<Rightarrow> nat \<Rightarrow> 'a option" where
  "go_index xs i = (if i < length xs then Some (xs ! i) else None)"

definition go_slice :: "'a list \<Rightarrow> nat \<Rightarrow> nat \<Rightarrow> 'a list option" where
  "go_slice xs a b = (if a \<le> b \<and> b \<le> length xs then Some (take (b - a) (drop a xs)) else None)"

lemma go_index_in [go_access]: "i < length xs \<Longrightarrow> go_index xs i = Some (xs ! i)"
  by (simp add: go_index_def)

lemma go_slice_in [go_access]:
  "a \<le> b \<Longrightarrow> b \<le> length xs \<Longrightarrow> go_slice xs a b = Some (take (b - a) (drop a xs))"
  by (simp add: go_slice_def)

lemma go_slice_length: "go_slice xs a b = Some ys \<Longrightarrow> length ys = b - a"
  by (auto simp: go_slice_def split: if_splits)

section \<open>Fixed-width encodings\<close>

text \<open>\<open>binary.LittleEndian.PutUint16\<close>, \<open>binary.LittleEndian.Uint16\<close> and their kin.\<close>

definition put_le16 :: "16 word \<Rightarrow> bytes" where
  "put_le16 w = [ucast w, ucast (drop_bit 8 w)]"

definition put_be16 :: "16 word \<Rightarrow> bytes" where
  "put_be16 w = [ucast (drop_bit 8 w), ucast w]"

definition le16 :: "byte \<Rightarrow> byte \<Rightarrow> 16 word" where
  "le16 lo hi = ucast lo OR push_bit 8 (ucast hi)"

definition get_le16 :: "bytes \<Rightarrow> 16 word option" where
  "get_le16 b = do { lo \<leftarrow> go_index b 0; hi \<leftarrow> go_index b 1; Some (le16 lo hi) }"

lemma bit_byte_less: "bit (x :: byte) n \<Longrightarrow> n < 8"
  using bit_imp_le_length [of x n] by simp

lemma bit_w16_less: "bit (x :: 16 word) n \<Longrightarrow> n < 16"
  using bit_imp_le_length [of x n] by simp

lemma bit_shift1: "bit (push_bit 1 (c :: byte)) n \<longleftrightarrow> 0 < n \<and> n < 8 \<and> bit c (n - 1)"
  by (simp only: bit_push_bit_iff possible_bit_word) auto

lemma xor_eq_0_iff_word: "(a XOR b :: 'a::len word) = 0 \<longleftrightarrow> a = b"
  by (auto simp: bit_eq_iff bit_xor_iff)

lemma xor_cancel_left [simp]: "(a XOR b :: 'a::len word) = a XOR c \<longleftrightarrow> b = c"
  by (auto simp: bit_eq_iff bit_xor_iff)

lemma xor_cancel_right [simp]: "(b XOR a :: 'a::len word) = c XOR a \<longleftrightarrow> b = c"
  by (auto simp: bit_eq_iff bit_xor_iff)

lemma ucast_byte16_inj [simp]: "(ucast (a :: byte) :: 16 word) = ucast b \<longleftrightarrow> a = b"
  by (auto simp: bit_eq_iff bit_ucast_iff dest: bit_byte_less)

lemma ucast_xor: "(ucast (a XOR b :: byte) :: 16 word) = ucast a XOR ucast b"
  by (rule bit_word_eqI) (auto simp: bit_xor_iff bit_ucast_iff)

lemma length_put_le16 [simp]: "length (put_le16 w) = 2"
  by (simp add: put_le16_def)

lemma length_put_be16 [simp]: "length (put_be16 w) = 2"
  by (simp add: put_be16_def)

lemma le16_split [simp]: "le16 (ucast w) (ucast (drop_bit 8 w)) = (w :: 16 word)"
  unfolding le16_def
  by (rule bit_word_eqI) (auto simp: bit_or_iff bit_push_bit_iff bit_ucast_iff bit_drop_bit_eq)

lemma le16_parts:
  "ucast (le16 lo hi) = lo" "ucast (drop_bit 8 (le16 lo hi)) = hi"
  unfolding le16_def
  by (rule bit_word_eqI; auto simp: bit_or_iff bit_push_bit_iff bit_ucast_iff bit_drop_bit_eq
        dest: bit_imp_le_length)+

lemma get_put_le16 [simp]: "get_le16 (put_le16 w @ xs) = Some w"
  by (simp add: get_le16_def put_le16_def go_index_def)

lemma get_put_le16_exact [simp]: "get_le16 (put_le16 w) = Some w"
  using get_put_le16 [of w "[]"] by simp

lemma get_le16_two [simp]: "get_le16 (a # b # xs) = Some (le16 a b)"
  by (simp add: get_le16_def go_index_def)

lemma put_le16_get: "length b = 2 \<Longrightarrow> get_le16 b = Some w \<Longrightarrow> put_le16 w = b"
  by (auto simp: length_Suc_conv numeral_2_eq_2 put_le16_def le16_parts)

lemma unat_of_nat16 [simp]: "n < 65536 \<Longrightarrow> unat (word_of_nat n :: 16 word) = n"
  by (simp add: unat_of_nat take_bit_eq_mod)

lemma unat16_less: "unat (w :: 16 word) < 65536"
  using unsigned_less [of w] by simp

lemma unat_le16: "unat (le16 lo hi) = unat lo + 256 * unat hi"
proof -
  define n where "n = unat lo + 256 * unat hi"
  have b: "unat lo < 256" "unat hi < 256"
    using unsigned_less [of lo, where 'a = nat] unsigned_less [of hi, where 'a = nat] by simp_all
  then have n: "n < 65536" "n mod 256 = unat lo" "n div 256 = unat hi"
    unfolding n_def by simp_all
  have "unat (ucast (word_of_nat n :: 16 word) :: byte) = unat lo"
    using n by (simp add: unsigned_ucast_eq unsigned_of_nat take_bit_eq_mod)
  then have lo: "ucast (word_of_nat n :: 16 word) = lo" by (simp add: unsigned_word_eqI)
  have "unat (drop_bit 8 (word_of_nat n :: 16 word)) = n div 256"
    unfolding unsigned_drop_bit_eq using n(1) by (simp add: drop_bit_eq_div unsigned_of_nat take_bit_eq_mod)
  then have "unat (ucast (drop_bit 8 (word_of_nat n :: 16 word)) :: byte) = unat hi"
    unfolding unsigned_ucast_eq using b n by (simp only: take_bit_eq_mod) simp
  then have hi: "ucast (drop_bit 8 (word_of_nat n :: 16 word)) = hi" by (simp add: unsigned_word_eqI)
  have "le16 lo hi = word_of_nat n" using le16_split [of "word_of_nat n"] unfolding lo hi .
  with n show ?thesis by (simp only: unat_of_nat16 n_def)
qed

end
