(* ===== verification/Crc.thy ===== *)
theory Crc
  imports Prelude
begin

text \<open>
  \<open>internal/ecoflow/crc.go\<close>: the CRC-8/CCITT of the packet header and the CRC-16/ARC
  of packets and outer frames, as the bitwise loops of the source, with the facts that
  make them useful: a message followed by its own checksum has residue 0, and
  corruptions of one byte (CRC-8) or two adjacent bytes (CRC-16) are always detected.
\<close>

section \<open>The loops\<close>

definition crc8_bit :: "byte \<Rightarrow> byte" where
  "crc8_bit crc = (if crc AND 0x80 \<noteq> 0 then push_bit 1 crc XOR 0x07 else push_bit 1 crc)"

definition crc8_byte :: "byte \<Rightarrow> byte \<Rightarrow> byte" where
  "crc8_byte crc b = (crc8_bit ^^ 8) (crc XOR b)"

definition crc8CCITT :: "bytes \<Rightarrow> byte" where
  "crc8CCITT data = foldl crc8_byte 0 data"

definition crc16_bit :: "16 word \<Rightarrow> 16 word" where
  "crc16_bit crc = (if crc AND 1 \<noteq> 0 then drop_bit 1 crc XOR 0xA001 else drop_bit 1 crc)"

definition crc16_byte :: "16 word \<Rightarrow> byte \<Rightarrow> 16 word" where
  "crc16_byte crc b = (crc16_bit ^^ 8) (crc XOR ucast b)"

definition crc16ARC :: "bytes \<Rightarrow> 16 word" where
  "crc16ARC data = foldl crc16_byte 0 data"

section \<open>One shift step, bit by bit\<close>

lemma and_1_iff_bit: "crc AND 1 \<noteq> 0 \<longleftrightarrow> bit (crc :: 16 word) 0"
  by (simp add: and_one_eq mod_2_eq_odd bit_0)

lemma and_0x80_iff_bit: "crc AND 0x80 \<noteq> 0 \<longleftrightarrow> bit (crc :: byte) 7"
  using bit_iff_and_push_bit_not_eq_0 [of crc 7] by simp

lemma bit_crc16_bit:
  "bit (crc16_bit c) n \<longleftrightarrow> bit c (Suc n) \<noteq> (bit c 0 \<and> bit (0xA001 :: 16 word) n)"
  by (simp add: crc16_bit_def and_1_iff_bit bit_xor_iff bit_drop_bit_eq)

lemma bit_crc8_bit:
  "bit (crc8_bit c) n \<longleftrightarrow>
     n < 8 \<and> (0 < n \<and> bit c (n - 1)) \<noteq> (bit c 7 \<and> bit (0x07 :: byte) n)"
  unfolding crc8_bit_def and_0x80_iff_bit
  using bit_byte_less [of "0x07" n]
  by (cases "bit c 7") (auto simp only: bit_shift1 bit_xor_iff if_True if_False)

lemma crc16_bit_xor: "crc16_bit (a XOR b) = crc16_bit a XOR crc16_bit b"
  by (rule bit_word_eqI) (auto simp: bit_crc16_bit bit_xor_iff)

lemma crc8_bit_xor: "crc8_bit (a XOR b) = crc8_bit a XOR crc8_bit b"
  by (rule bit_word_eqI) (auto simp: bit_crc8_bit bit_xor_iff)

lemma crc16_bit_eq_0: "crc16_bit x = 0 \<longleftrightarrow> x = 0"
proof
  assume z: "crc16_bit x = 0"
  then have "\<not> bit (crc16_bit x) 15" by simp
  then have b0: "\<not> bit x 0"
    using bit_w16_less [of x 16] by (auto simp: bit_crc16_bit)
  have "bit x n \<longleftrightarrow> bit (0 :: 16 word) n" for n
    using z b0 bit_crc16_bit [of x "n - 1"] by (cases n) auto
  then show "x = 0" by (simp add: bit_eq_iff)
qed (simp add: crc16_bit_def)

lemma crc8_bit_eq_0: "crc8_bit x = 0 \<longleftrightarrow> x = 0"
proof
  assume z: "crc8_bit x = 0"
  then have "\<not> bit (crc8_bit x) 0" by simp
  then have b7: "\<not> bit x 7" by (auto simp: bit_crc8_bit)
  have "\<not> bit x n" if n: "n < 8" for n
  proof (cases "n = 7")
    case False
    have "\<not> bit (crc8_bit x) (Suc n)" using z by simp
    with False n b7 show ?thesis by (auto simp: bit_crc8_bit)
  qed (use b7 in simp)
  then show "x = 0" using bit_byte_less [of x] by (auto simp: bit_eq_iff)
qed (simp add: crc8_bit_def)

lemma crc16_bits_xor: "(crc16_bit ^^ k) (a XOR b) = (crc16_bit ^^ k) a XOR (crc16_bit ^^ k) b"
  by (induction k) (simp_all add: crc16_bit_xor)

lemma crc8_bits_xor: "(crc8_bit ^^ k) (a XOR b) = (crc8_bit ^^ k) a XOR (crc8_bit ^^ k) b"
  by (induction k) (simp_all add: crc8_bit_xor)

lemma crc16_bits_eq_0: "(crc16_bit ^^ k) x = 0 \<longleftrightarrow> x = 0"
  by (induction k) (simp_all add: crc16_bit_eq_0)

lemma crc8_bits_eq_0: "(crc8_bit ^^ k) x = 0 \<longleftrightarrow> x = 0"
  by (induction k) (simp_all add: crc8_bit_eq_0)

lemma crc16_bits_inj: "(crc16_bit ^^ k) a = (crc16_bit ^^ k) b \<longleftrightarrow> a = b"
  by (metis crc16_bits_eq_0 crc16_bits_xor xor_eq_0_iff_word)

lemma crc8_bits_inj: "(crc8_bit ^^ k) a = (crc8_bit ^^ k) b \<longleftrightarrow> a = b"
  by (metis crc8_bits_eq_0 crc8_bits_xor xor_eq_0_iff_word)

section \<open>Residues\<close>

lemma crc8_residue: "crc8CCITT (data @ [crc8CCITT data]) = 0"
  by (simp add: crc8CCITT_def crc8_byte_def crc8_bits_eq_0)

text \<open>Eight steps on a value whose low byte is 0 are a plain shift by eight.\<close>

lemma crc16_bits_shift:
  "\<forall>i<k. \<not> bit x i \<Longrightarrow> (crc16_bit ^^ k) x = drop_bit k x"
proof (induction k arbitrary: x)
  case (Suc k)
  from Suc.prems have "crc16_bit x = drop_bit 1 x"
    by (auto simp: crc16_bit_def and_1_iff_bit)
  moreover from Suc.prems have "\<forall>i<k. \<not> bit (drop_bit 1 x) i"
    by (auto simp: bit_drop_bit_eq)
  ultimately show ?case
    using Suc.IH [of "drop_bit 1 x"] by (simp add: funpow_Suc_right del: funpow.simps)
qed simp

lemma crc16_residue: "crc16ARC (data @ put_le16 (crc16ARC data)) = 0"
proof -
  let ?c = "crc16ARC data"
  have "crc16_byte ?c (ucast ?c) = drop_bit 8 (?c XOR ucast (ucast ?c :: byte))"
    unfolding crc16_byte_def
    by (rule crc16_bits_shift) (auto simp: bit_xor_iff bit_ucast_iff)
  also have "\<dots> = ucast (ucast (drop_bit 8 ?c) :: byte)"
    by (rule bit_word_eqI)
      (auto simp: bit_drop_bit_eq bit_xor_iff bit_ucast_iff dest: bit_w16_less)
  finally show ?thesis
    by (simp add: crc16ARC_def put_le16_def crc16_byte_def crc16_bits_eq_0)
qed

section \<open>Detected corruptions\<close>

lemma crc16_foldl_inj: "foldl crc16_byte a xs = foldl crc16_byte b xs \<longleftrightarrow> a = b"
  by (induction xs arbitrary: a b) (auto simp: crc16_byte_def crc16_bits_inj)

lemma crc8_foldl_inj: "foldl crc8_byte a xs = foldl crc8_byte b xs \<longleftrightarrow> a = b"
  by (induction xs arbitrary: a b) (auto simp: crc8_byte_def crc8_bits_inj)

text \<open>A single changed byte always changes the CRC-8.\<close>

lemma crc8_detects_byte:
  "x \<noteq> y \<Longrightarrow> crc8CCITT (pre @ [x] @ post) \<noteq> crc8CCITT (pre @ [y] @ post)"
  by (auto simp: crc8CCITT_def crc8_foldl_inj crc8_byte_def crc8_bits_inj)

text \<open>
  Looking backwards through the CRC-16: if the top \<open>k\<close> bits after \<open>k\<close> steps are
  0, every step was a plain shift, so the low \<open>k\<close> bits it shifted out were 0.
\<close>

lemma crc16_bits_low_zero:
  "k \<le> 16 \<Longrightarrow> \<forall>i\<ge>16 - k. \<not> bit ((crc16_bit ^^ k) x) i \<Longrightarrow> \<forall>i<k. \<not> bit x i"
proof (induction k arbitrary: x)
  case (Suc k)
  have eq: "(crc16_bit ^^ Suc k) x = (crc16_bit ^^ k) (crc16_bit x)"
    by (simp add: funpow_Suc_right del: funpow.simps)
  from Suc.prems have top: "\<forall>i\<ge>15 - k. \<not> bit ((crc16_bit ^^ k) (crc16_bit x)) i"
    by (simp add: eq del: funpow.simps)
  then have low: "\<forall>i<k. \<not> bit (crc16_bit x) i"
    using Suc.prems(1) by (intro Suc.IH) auto
  then have "\<not> bit (drop_bit k (crc16_bit x)) (15 - k)"
    using top crc16_bits_shift [OF low] by simp
  then have "\<not> bit (crc16_bit x) 15"
    using Suc.prems(1) by (simp add: bit_drop_bit_eq)
  then have b0: "\<not> bit x 0"
    using bit_w16_less [of x 16] by (auto simp: bit_crc16_bit)
  show ?case
  proof (intro allI impI)
    fix i assume "i < Suc k"
    then show "\<not> bit x i"
      using b0 low by (cases i) (auto simp: bit_crc16_bit)
  qed
qed simp

lemma crc16_two_bytes_inj:
  assumes "crc16_byte (crc16_byte c a1) a2 = crc16_byte (crc16_byte c b1) b2"
  shows "a1 = b1 \<and> a2 = b2"
proof -
  let ?T = "crc16_bit ^^ 8" and ?x = "a1 XOR b1"
  from assms have "crc16_byte c a1 XOR ucast a2 = crc16_byte c b1 XOR ucast b2"
    by (simp add: crc16_byte_def [of "crc16_byte c a1"] crc16_byte_def [of "crc16_byte c b1"]
        crc16_bits_inj)
  then have eq: "?T (ucast ?x) = ucast (a2 XOR b2)"
    by (auto simp: crc16_byte_def crc16_bits_xor ucast_xor bit_eq_iff bit_xor_iff)
  have "\<forall>i\<ge>16 - 8. \<not> bit (?T (ucast ?x)) i"
    unfolding eq by (auto simp: bit_ucast_iff dest: bit_byte_less)
  from crc16_bits_low_zero [OF _ this] have "ucast ?x = (0 :: 16 word)"
    by (auto simp: bit_eq_iff bit_ucast_iff dest: bit_byte_less)
  with eq have "ucast (a2 XOR b2) = (0 :: 16 word)" by (metis crc16_bits_eq_0)
  with \<open>ucast ?x = (0 :: 16 word)\<close> show ?thesis
    by (metis ucast_byte16_inj xor_eq_0_iff_word ucast_0)
qed

text \<open>A corruption inside two adjacent bytes always changes the CRC-16.\<close>

lemma crc16_detects_two:
  assumes "(x1, x2) \<noteq> (y1, y2)"
  shows "crc16ARC (pre @ [x1, x2] @ post) \<noteq> crc16ARC (pre @ [y1, y2] @ post)"
proof
  assume "crc16ARC (pre @ [x1, x2] @ post) = crc16ARC (pre @ [y1, y2] @ post)"
  then have "crc16_byte (crc16_byte (crc16ARC pre) x1) x2 = crc16_byte (crc16_byte (crc16ARC pre) y1) y2"
    by (simp add: crc16ARC_def crc16_foldl_inj)
  with assms show False by (auto dest: crc16_two_bytes_inj)
qed

end
