(* ===== verification/Packet.thy ===== *)
theory Packet
  imports Crc
begin

text \<open>
  \<open>internal/ecoflow/packet.go\<close>: the inner packet (\<open>Packet\<close>, its
  \<open>MarshalBinary\<close> and \<open>ParsePacket\<close>) and the outer frame (\<open>EncPacket\<close>).
  The lemmas show that parsing never panics on any input, that it inverts marshalling
  (with the defaults marshalling fills in), and that it accepts only data whose
  checksums fit.
\<close>

section \<open>Constants and data\<close>

definition packetPrefix :: byte where "packetPrefix = 0xAA"
definition encPacketPrefix :: "16 word" where "encPacketPrefix = 0x5A5A"
definition maxPacketPayloadSize :: nat where "maxPacketPayloadSize = 2 ^ 16 - 1"
definition maxEncPayloadSize :: nat where "maxEncPayloadSize = maxPacketPayloadSize - 2"
definition maxPacketSize :: nat where "maxPacketSize = maxPacketPayloadSize + 20"

lemmas packet_consts = packetPrefix_def encPacketPrefix_def maxPacketPayloadSize_def
  maxEncPayloadSize_def maxPacketSize_def

record Packet =
  Src :: byte
  Dst :: byte
  CmdSet :: byte
  CmdID :: byte
  Payload :: bytes
  DSrc :: byte
  DDst :: byte
  Version :: byte
  Seq :: "byte \<times> byte \<times> byte \<times> byte"
  ProductID :: byte

text \<open>Go's zero value of \<open>Packet\<close>; the composite literals set some fields of it.\<close>

definition zero_packet :: Packet where
  "zero_packet = \<lparr>Src = 0, Dst = 0, CmdSet = 0, CmdID = 0, Payload = [], DSrc = 0, DDst = 0,
     Version = 0, Seq = (0, 0, 0, 0), ProductID = 0\<rparr>"

fun seq_bytes :: "byte \<times> byte \<times> byte \<times> byte \<Rightarrow> bytes" where
  "seq_bytes (a, b, c, d) = [a, b, c, d]"

definition default_to :: "byte \<Rightarrow> byte \<Rightarrow> byte" where
  "default_to d x = (if x = 0 then d else x)"

section \<open>Marshalling\<close>

definition packet_header :: "Packet \<Rightarrow> bytes" where
  "packet_header p =
     (let h = [packetPrefix, Version p] @ put_le16 (word_of_nat (length (Payload p)))
      in h @ [crc8CCITT h])"

definition packet_route :: "Packet \<Rightarrow> bytes" where
  "packet_route p =
     [Src p, Dst p] @
     (if Version p \<ge> 0x03 then [default_to 0x01 (DSrc p), default_to 0x01 (DDst p)] else []) @
     [CmdSet p, CmdID p]"

definition packet_content :: "Packet \<Rightarrow> bytes" where
  "packet_content p =
     packet_header p @ [default_to 0x0D (ProductID p)] @ seq_bytes (Seq p) @ [0x00, 0x00] @
     packet_route p @ Payload p"

definition MarshalBinary :: "Packet \<Rightarrow> go_error + bytes" where
  "MarshalBinary p =
     (if length (Payload p) > maxPacketPayloadSize
      then Inl (PacketPayloadTooLarge (length (Payload p)))
      else let buf = packet_content p in Inr (buf @ put_le16 (crc16ARC buf)))"

section \<open>Parsing\<close>

definition xor_bytes :: "byte \<Rightarrow> bytes \<Rightarrow> bytes" where
  "xor_bytes k bs = map (\<lambda>b. b XOR k) bs"

definition strip_sentinel :: "bytes \<Rightarrow> bytes" where
  "strip_sentinel b =
     (if length b \<ge> 2 \<and> drop (length b - 2) b = [0xBB, 0xBB] then take (length b - 2) b else b)"

text \<open>The trailing checksum test of a CRC-format packet.\<close>

definition packet_crc_ok :: "bytes \<Rightarrow> nat \<Rightarrow> bool option" where
  "packet_crc_ok data totalLen = do {
     tail \<leftarrow> go_slice data (totalLen - 2) totalLen;
     want \<leftarrow> get_le16 tail;
     body \<leftarrow> go_slice data 0 (totalLen - 2);
     Some (crc16ARC body = want) }"

text \<open>Lines 105 to 132: the fields, once every check has passed.\<close>

definition packet_payload :: "bytes \<Rightarrow> bool \<Rightarrow> bool \<Rightarrow> byte \<Rightarrow> nat \<Rightarrow> nat \<Rightarrow> bytes option" where
  "packet_payload data xorPayload sentinelFormat seq0 payloadStart payloadLen =
     (if payloadLen > 0 then do {
        raw \<leftarrow> go_slice data payloadStart (payloadStart + payloadLen);
        let payload = (if xorPayload \<and> seq0 \<noteq> 0 then xor_bytes seq0 raw else raw);
        Some (if sentinelFormat then strip_sentinel payload else payload) }
      else Some [])"

definition read_fields :: "bytes \<Rightarrow> bool \<Rightarrow> byte \<Rightarrow> nat \<Rightarrow> nat \<Rightarrow> Packet option" where
  "read_fields data xorPayload version payloadStart payloadLen = do {
     product \<leftarrow> go_index data 5;
     s0 \<leftarrow> go_index data 6; s1 \<leftarrow> go_index data 7; s2 \<leftarrow> go_index data 8; s3 \<leftarrow> go_index data 9;
     src \<leftarrow> go_index data 12; dst \<leftarrow> go_index data 13;
     f14 \<leftarrow> go_index data 14; f15 \<leftarrow> go_index data 15;
     (dsrc, ddst, cmdset, cmdid) \<leftarrow>
       (if version AND 0x0F \<ge> 0x03
        then do { f16 \<leftarrow> go_index data 16; f17 \<leftarrow> go_index data 17; Some (f14, f15, f16, f17) }
        else Some (0, 0, f14, f15));
     payload \<leftarrow> packet_payload data xorPayload (version AND 0x10 \<noteq> 0) s0 payloadStart payloadLen;
     Some \<lparr>Src = src, Dst = dst, CmdSet = cmdset, CmdID = cmdid, Payload = payload,
       DSrc = dsrc, DDst = ddst, Version = version, Seq = (s0, s1, s2, s3),
       ProductID = product\<rparr> }"

definition payload_start :: "byte \<Rightarrow> nat" where
  "payload_start version = (if version AND 0x0F \<ge> 0x03 then 18 else 16)"

definition total_len :: "byte \<Rightarrow> nat \<Rightarrow> nat" where
  "total_len version payloadLen =
     (if version AND 0x10 \<noteq> 0 then payload_start version + payloadLen
      else payload_start version + payloadLen + 2)"

text \<open>Lines 86 to 132: the body, once the header has been accepted.\<close>

definition parse_body :: "bytes \<Rightarrow> bool \<Rightarrow> byte \<Rightarrow> nat \<Rightarrow> (go_error + Packet) option" where
  "parse_body data xorPayload version payloadLen =
     (let totalLen = total_len version payloadLen in
      if length data < totalLen then Some (Inl IncompletePacket)
      else do {
        ok \<leftarrow> (if version AND 0x10 \<noteq> 0 then Some True else packet_crc_ok data totalLen);
        if \<not> ok then Some (Inl InvalidPacketCrc16)
        else do {
          pkt \<leftarrow> read_fields data xorPayload version (payload_start version) payloadLen;
          Some (Inr pkt) } })"

definition ParsePacket :: "bytes \<Rightarrow> bool \<Rightarrow> (go_error + Packet) option" where
  "ParsePacket data xorPayload =
     (if length data < 5 then Some (Inl InvalidPacketPrefix)
      else do {
        b0 \<leftarrow> go_index data 0;
        if b0 \<noteq> packetPrefix then Some (Inl InvalidPacketPrefix)
        else do {
          version \<leftarrow> go_index data 1;
          if version = 0x04 then Some (Inl V4PacketsNotSupported)
          else do {
            lenField \<leftarrow> go_slice data 2 4;
            payloadLen \<leftarrow> get_le16 lenField;
            hdr \<leftarrow> go_slice data 0 4;
            crc \<leftarrow> go_index data 4;
            if crc8CCITT hdr \<noteq> crc then Some (Inl InvalidHeaderCrc8)
            else parse_body data xorPayload version (unat payloadLen) } } })"

section \<open>The outer frame\<close>

record EncPacket =
  FrameType :: byte
  PayloadType :: byte
  enc_Payload :: bytes

definition enc_content :: "EncPacket \<Rightarrow> bytes" where
  "enc_content e =
     put_be16 encPacketPrefix @ [push_bit 4 (FrameType e), 0x01] @
     put_le16 (word_of_nat (length (enc_Payload e) + 2)) @ enc_Payload e"

definition enc_MarshalBinary :: "EncPacket \<Rightarrow> go_error + bytes" where
  "enc_MarshalBinary e =
     (if length (enc_Payload e) > maxEncPayloadSize
      then Inl (EncPayloadTooLarge (length (enc_Payload e)))
      else let buf = enc_content e in Inr (buf @ put_le16 (crc16ARC buf)))"

section \<open>Parsing is total\<close>

lemma payload_start_bounds: "16 \<le> payload_start v" "3 \<le> v AND 0x0F \<Longrightarrow> payload_start v = 18"
  by (auto simp: payload_start_def)

lemma packet_payload_total:
  "ps + n \<le> length data \<Longrightarrow> \<exists>b. packet_payload data x s k ps n = Some b"
  by (auto simp: packet_payload_def go_access Let_def)

lemma read_fields_total:
  assumes "payload_start v + n \<le> length data"
  shows "\<exists>pkt. read_fields data x v (payload_start v) n = Some pkt"
proof -
  from assms payload_start_bounds(1) [of v] have "16 \<le> length data" by linarith
  moreover have "18 \<le> length data" if "3 \<le> v AND 0x0F"
    using assms payload_start_bounds(2) [OF that] by linarith
  moreover obtain b where
    "packet_payload data x (v AND 0x10 \<noteq> 0) (data ! 6) (payload_start v) n = Some b"
    using packet_payload_total [OF assms] by blast
  ultimately show ?thesis
    by (auto simp: read_fields_def go_access)
qed

lemma packet_crc_ok_total: "2 \<le> n \<Longrightarrow> n \<le> length data \<Longrightarrow> \<exists>b. packet_crc_ok data n = Some b"
  by (auto simp: packet_crc_ok_def go_access get_le16_def)

lemma parse_body_total: "\<exists>r. parse_body data x v n = Some r"
proof (cases "length data < total_len v n")
  case False
  then have le: "payload_start v + n \<le> length data"
    by (auto simp: total_len_def split: if_splits)
  obtain pkt where "read_fields data x v (payload_start v) n = Some pkt"
    using read_fields_total [OF le] by blast
  moreover have "\<exists>b. packet_crc_ok data (total_len v n) = Some b" if "v AND 0x10 = 0"
    using that False by (intro packet_crc_ok_total) (auto simp: total_len_def)
  ultimately show ?thesis
    using False by (cases "v AND 0x10 = 0") (auto simp: parse_body_def Let_def)
qed (simp add: parse_body_def)

lemma ParsePacket_total: "\<exists>r. ParsePacket data x = Some r"
proof (cases "length data < 5")
  case False
  then have "data \<noteq> []" by auto
  with False show ?thesis
    using parse_body_total by (auto simp: ParsePacket_def go_access get_le16_def)
qed (simp add: ParsePacket_def)

section \<open>Parsing inverts marshalling\<close>

text \<open>
  Marshalling chooses the layout by \<open>Version \<ge> 3\<close>, parsing by the low nibble: the
  two agree on these versions.
\<close>

definition layout_consistent :: "byte \<Rightarrow> bool" where
  "layout_consistent v \<longleftrightarrow> (v \<ge> 0x03 \<longleftrightarrow> v AND 0x0F \<ge> 0x03)"

text \<open>What the receiver's \<open>ParsePacket\<close> makes of a packet that was sent.\<close>

definition received_payload :: "bool \<Rightarrow> Packet \<Rightarrow> bytes" where
  "received_payload xorPayload p =
     (let k = fst (Seq p);
          b = (if xorPayload \<and> k \<noteq> 0 then xor_bytes k (Payload p) else Payload p)
      in if Version p AND 0x10 \<noteq> 0 then strip_sentinel b else b)"

definition received :: "bool \<Rightarrow> Packet \<Rightarrow> Packet" where
  "received xorPayload p = p\<lparr>
     Payload := received_payload xorPayload p,
     DSrc := (if Version p \<ge> 0x03 then default_to 0x01 (DSrc p) else 0),
     DDst := (if Version p \<ge> 0x03 then default_to 0x01 (DDst p) else 0),
     ProductID := default_to 0x0D (ProductID p)\<rparr>"

lemma length_packet_content:
  "layout_consistent (Version p) \<Longrightarrow>
   length (packet_content p) = payload_start (Version p) + length (Payload p)"
  by (cases "Seq p") (auto simp: packet_content_def packet_header_def packet_route_def Let_def
      payload_start_def layout_consistent_def put_le16_def)

lemma go_slice_prefix [go_access]: "go_slice (xs @ ys) 0 (length xs) = Some xs"
  by (simp add: go_slice_def)

lemma go_slice_middle [go_access]:
  "go_slice (xs @ ys @ zs) (length xs) (length xs + length ys) = Some ys"
  by (simp add: go_slice_def)

lemma packet_crc_ok_marshalled:
  "packet_crc_ok (buf @ put_le16 (crc16ARC buf) @ rest) (Suc (Suc (length buf))) = Some True"
  using go_slice_middle [of buf "put_le16 (crc16ARC buf)" rest]
  by (simp add: packet_crc_ok_def go_slice_prefix)

lemma strip_sentinel_Nil [simp]: "strip_sentinel [] = []"
  by (simp add: strip_sentinel_def)

lemma xor_bytes_Nil [simp]: "xor_bytes k [] = []"
  by (simp add: xor_bytes_def)

lemma packet_payload_content:
  assumes "length pre = ps" "length b = n"
  shows "packet_payload (pre @ b @ rest) x s k ps n =
    Some (let c = (if x \<and> k \<noteq> 0 then xor_bytes k b else b) in if s then strip_sentinel c else c)"
proof (cases "b = []")
  case False
  then show ?thesis
    using assms go_slice_middle [of pre b rest] by (auto simp: packet_payload_def Let_def)
qed (use assms in \<open>simp add: packet_payload_def\<close>)

lemma read_fields_content:
  assumes "layout_consistent (Version p)"
  shows "read_fields (packet_content p @ rest) x (Version p) (payload_start (Version p))
           (length (Payload p)) = Some (received x p)"
proof -
  obtain s0 s1 s2 s3 where seq: "Seq p = (s0, s1, s2, s3)" by (cases "Seq p")
  define pre where "pre = packet_header p @ [default_to 0x0D (ProductID p)] @ seq_bytes (Seq p) @
    [0x00, 0x00] @ packet_route p"
  have content: "packet_content p @ rest = pre @ Payload p @ rest"
    by (simp add: packet_content_def pre_def)
  have "length pre = payload_start (Version p)"
    using length_packet_content [OF assms] content by (simp add: packet_content_def pre_def)
  then have pay: "packet_payload (pre @ Payload p @ rest) x s k (payload_start (Version p))
      (length (Payload p)) =
    Some (let c = (if x \<and> k \<noteq> 0 then xor_bytes k (Payload p) else Payload p)
          in if s then strip_sentinel c else c)" for s k
    by (rule packet_payload_content) simp
  show ?thesis
  proof (cases "Version p \<ge> 0x03")
    case True
    with assms have "Version p AND 0x0F \<ge> 0x03" by (simp add: layout_consistent_def)
    with True show ?thesis
      unfolding content read_fields_def pay
      by (simp add: pre_def seq packet_header_def packet_route_def put_le16_def Let_def go_index_def
          received_def received_payload_def)
  next
    case False
    with assms have "\<not> Version p AND 0x0F \<ge> 0x03" by (simp add: layout_consistent_def)
    with False show ?thesis
      unfolding content read_fields_def pay
      by (simp add: pre_def seq packet_header_def packet_route_def put_le16_def Let_def go_index_def
          received_def received_payload_def)
  qed
qed

lemma parse_body_marshalled:
  assumes "layout_consistent (Version p)" "buf = packet_content p"
  shows "parse_body (buf @ put_le16 (crc16ARC buf) @ rest) x (Version p) (length (Payload p)) =
    Some (Inr (received x p))"
proof -
  have tl: "total_len (Version p) (length (Payload p)) =
      (if Version p AND 0x10 \<noteq> 0 then length buf else length buf + 2)"
    using length_packet_content [OF assms(1)] assms(2) by (simp add: total_len_def)
  show ?thesis
    using read_fields_content [OF assms(1)] assms(2)
    by (simp add: parse_body_def tl packet_crc_ok_marshalled)
qed

lemma ParsePacket_header:
  assumes "data = packetPrefix # v # lo # hi # c # rest" "c = crc8CCITT [packetPrefix, v, lo, hi]"
    "v \<noteq> 0x04"
  shows "ParsePacket data x = parse_body data x v (unat (le16 lo hi))"
  using assms by (simp add: ParsePacket_def go_index_def go_slice_def)

lemma packet_content_header:
  obtains rest where "packet_content p = packetPrefix # Version p #
      ucast (word_of_nat (length (Payload p)) :: 16 word) #
      ucast (drop_bit 8 (word_of_nat (length (Payload p)) :: 16 word)) #
      crc8CCITT (packetPrefix # Version p # put_le16 (word_of_nat (length (Payload p)))) # rest"
  by (rule that) (simp add: packet_content_def packet_header_def Let_def put_le16_def)

lemma ParsePacket_MarshalBinary:
  assumes m: "MarshalBinary p = Inr w"
    and v: "Version p \<noteq> 0x04" "layout_consistent (Version p)"
  shows "ParsePacket (w @ rest) x = Some (Inr (received x p))"
proof -
  let ?n = "length (Payload p)"
  from m have n: "?n < 65536" and w: "w = packet_content p @ put_le16 (crc16ARC (packet_content p))"
    by (auto simp: MarshalBinary_def packet_consts Let_def split: if_splits)
  obtain tl where c: "packet_content p = packetPrefix # Version p #
      ucast (word_of_nat ?n :: 16 word) # ucast (drop_bit 8 (word_of_nat ?n :: 16 word)) #
      crc8CCITT (packetPrefix # Version p # put_le16 (word_of_nat ?n)) # tl"
    by (rule packet_content_header)
  have "ParsePacket (w @ rest) x = parse_body (w @ rest) x (Version p) ?n"
    using v(1) n by (subst ParsePacket_header) (auto simp: w c put_le16_def)
  then show ?thesis
    using parse_body_marshalled [OF v(2) refl] by (simp add: w)
qed

section \<open>What is accepted, what is rejected\<close>

lemma crc16_residue_iff:
  "crc16ARC (body @ [a, b]) = 0 \<longleftrightarrow> crc16ARC body = le16 a b"
proof
  assume "crc16ARC (body @ [a, b]) = 0"
  with crc16_residue [of body]
  have "crc16_byte (crc16_byte (crc16ARC body) a) b =
    crc16_byte (crc16_byte (crc16ARC body) (ucast (crc16ARC body)))
      (ucast (drop_bit 8 (crc16ARC body)))"
    by (simp add: crc16ARC_def put_le16_def)
  from crc16_two_bytes_inj [OF this] show "crc16ARC body = le16 a b" by simp
next
  assume "crc16ARC body = le16 a b"
  then have "put_le16 (crc16ARC body) = [a, b]" by (simp add: put_le16_def le16_parts)
  then show "crc16ARC (body @ [a, b]) = 0" using crc16_residue [of body] by simp
qed

lemma packet_crc_ok_residue:
  assumes "2 \<le> n" "n \<le> length data"
  shows "packet_crc_ok data n = Some (crc16ARC (take n data) = 0)"
proof -
  define t where "t = take 2 (drop (n - 2) data)"
  from assms have "length t = 2" by (simp add: t_def)
  then obtain a b where ab: "t = [a, b]" by (auto simp: numeral_2_eq_2 length_Suc_conv)
  have "take n data = take (n - 2) data @ t"
    using assms take_add [of "n - 2" 2 data] by (simp add: t_def del: add_2_eq_Suc')
  moreover have "packet_crc_ok data n = Some (crc16ARC (take (n - 2) data) = le16 a b)"
    using assms ab by (simp add: packet_crc_ok_def go_access t_def)
  ultimately show ?thesis by (simp add: ab crc16_residue_iff)
qed

text \<open>The exact acceptance condition of \<open>ParsePacket\<close>, on the bytes.\<close>

definition acceptable :: "bytes \<Rightarrow> bool" where
  "acceptable data \<longleftrightarrow>
     5 \<le> length data \<and> data ! 0 = packetPrefix \<and> data ! 1 \<noteq> 0x04 \<and>
     crc8CCITT (take 4 data) = data ! 4 \<and>
     (let n = total_len (data ! 1) (unat (le16 (data ! 2) (data ! 3)))
      in n \<le> length data \<and> (data ! 1 AND 0x10 \<noteq> 0 \<or> crc16ARC (take n data) = 0))"

lemma parse_body_accepts:
  "(\<exists>pkt. parse_body data x v n = Some (Inr pkt)) \<longleftrightarrow>
     total_len v n \<le> length data \<and>
     (v AND 0x10 \<noteq> 0 \<or> crc16ARC (take (total_len v n) data) = 0)"
proof (cases "length data < total_len v n")
  case False
  then have le: "payload_start v + n \<le> length data"
    by (auto simp: total_len_def split: if_splits)
  obtain pkt where r: "read_fields data x v (payload_start v) n = Some pkt"
    using read_fields_total [OF le] by blast
  show ?thesis
  proof (cases "v AND 0x10 = 0")
    case True
    then have "2 \<le> total_len v n" by (simp add: total_len_def)
    with True False r packet_crc_ok_residue [of "total_len v n" data] show ?thesis
      by (auto simp: parse_body_def Let_def)
  qed (use False r in \<open>auto simp: parse_body_def Let_def\<close>)
qed (simp add: parse_body_def)

lemma go_slice_2_4:
  "4 \<le> length data \<Longrightarrow> go_slice data 2 4 = Some [data ! 2, data ! 3]"
  by (cases data; cases "tl data"; cases "tl (tl data)"; cases "tl (tl (tl data))")
    (auto simp: go_slice_def)

lemma ParsePacket_accepts: "(\<exists>pkt. ParsePacket data x = Some (Inr pkt)) \<longleftrightarrow> acceptable data"
proof (cases "length data < 5")
  case False
  then have ne: "data \<noteq> []" "go_slice data 2 4 = Some [data ! 2, data ! 3]"
    by (auto simp: go_slice_2_4)
  have "ParsePacket data x =
    (if data ! 0 \<noteq> packetPrefix then Some (Inl InvalidPacketPrefix)
     else if data ! 1 = 0x04 then Some (Inl V4PacketsNotSupported)
     else if crc8CCITT (take 4 data) \<noteq> data ! 4 then Some (Inl InvalidHeaderCrc8)
     else parse_body data x (data ! 1) (unat (le16 (data ! 2) (data ! 3))))"
    using False ne by (simp add: ParsePacket_def go_access)
  then show ?thesis
    using False parse_body_accepts by (auto simp: acceptable_def Let_def)
qed (simp add: ParsePacket_def acceptable_def)

text \<open>Corrupting one or two adjacent bytes behind the header is always noticed.\<close>

lemma list_update_two:
  "Suc i < length w \<Longrightarrow> w[i := a, Suc i := b] = take i w @ [a, b] @ drop (i + 2) w"
proof -
  assume i: "Suc i < length w"
  have split: "w = take i w @ w ! i # w ! Suc i # drop (i + 2) w"
    using i by (simp add: Cons_nth_drop_Suc id_take_nth_drop [symmetric])
  have "(take i w @ w ! i # w ! Suc i # drop (i + 2) w)[i := a, Suc i := b] =
    take i w @ a # b # drop (i + 2) w"
    using i by (simp add: list_update_append)
  with split show ?thesis by simp
qed

lemma crc16_update_two:
  assumes i: "Suc i < length w" and ne: "w[i := a, Suc i := b] \<noteq> w"
  shows "crc16ARC (w[i := a, Suc i := b]) \<noteq> crc16ARC w"
proof -
  have w: "take i w @ [w ! i, w ! Suc i] @ drop (i + 2) w = w"
    using list_update_two [OF i, of "w ! i" "w ! Suc i"] by simp
  have "(a, b) \<noteq> (w ! i, w ! Suc i)" using ne by auto
  from crc16_detects_two [OF this, of "take i w" "drop (i + 2) w"] show ?thesis
    unfolding list_update_two [OF i] w .
qed

lemma ParsePacket_corrupted:
  assumes m: "MarshalBinary p = Inr w"
    and v: "Version p \<noteq> 0x04" "layout_consistent (Version p)" "Version p AND 0x10 = 0"
    and i: "5 \<le> i" "Suc i < length w" and ne: "w[i := a, Suc i := b] \<noteq> w"
  shows "ParsePacket (w[i := a, Suc i := b]) x = Some (Inl InvalidPacketCrc16)"
proof -
  let ?n = "length (Payload p)" and ?w = "w[i := a, Suc i := b]"
  from m have n: "?n < 65536" and w: "w = packet_content p @ put_le16 (crc16ARC (packet_content p))"
    by (auto simp: MarshalBinary_def packet_consts Let_def split: if_splits)
  obtain tl where c: "packet_content p = packetPrefix # Version p #
      ucast (word_of_nat ?n :: 16 word) # ucast (drop_bit 8 (word_of_nat ?n :: 16 word)) #
      crc8CCITT (packetPrefix # Version p # put_le16 (word_of_nat ?n)) # tl"
    by (rule packet_content_header)
  obtain j where j: "i = Suc (Suc (Suc (Suc (Suc j))))"
    using i(1) that [of "i - 5"] by simp
  have "ParsePacket ?w x = parse_body ?w x (Version p) ?n"
    using v(1) n by (subst ParsePacket_header) (auto simp: w c j put_le16_def)
  moreover have tl: "total_len (Version p) ?n = length w"
    using length_packet_content [OF v(2)] v(3) by (simp add: w total_len_def)
  moreover have "crc16ARC ?w \<noteq> 0"
    using crc16_update_two [OF i(2) ne] crc16_residue by (metis w)
  moreover have "2 \<le> length w" using i by simp
  ultimately show ?thesis
    using v(3) packet_crc_ok_residue [of "length w" ?w] by (simp add: parse_body_def)
qed

section \<open>The outer frame\<close>

lemma length_enc_content [simp]: "length (enc_content e) = 6 + length (enc_Payload e)"
  by (simp add: enc_content_def)

lemma enc_MarshalBinary_Inr:
  "enc_MarshalBinary e = Inr w \<longleftrightarrow> length (enc_Payload e) \<le> 65533 \<and>
     w = enc_content e @ put_le16 (crc16ARC (enc_content e))"
  by (auto simp: enc_MarshalBinary_def packet_consts Let_def)

section \<open>Properties\<close>

text \<open>A packet that a receiver gets back unchanged: no masking and no sentinel bit, and the fields
  that marshalling fills in or leaves out already have their values.\<close>

definition canonical :: "bool \<Rightarrow> Packet \<Rightarrow> bool" where
  "canonical xorPayload p \<longleftrightarrow> \<not> (xorPayload \<and> fst (Seq p) \<noteq> 0) \<and> Version p AND 0x10 = 0 \<and> ProductID p \<noteq> 0 \<and>
     (if Version p \<ge> 0x03 then DSrc p \<noteq> 0 \<and> DDst p \<noteq> 0 else DSrc p = 0 \<and> DDst p = 0)"

lemma received_canonical: "canonical x p \<Longrightarrow> received x p = p"
  by (cases p) (auto simp: canonical_def received_def received_payload_def default_to_def Let_def split: if_splits)

text \<open>C15: For every version except 4 and those where the two sides choose different layouts (a
  version of at least 3 whose low nibble is below 3), parsing what \<open>MarshalBinary\<close> wrote, with any bytes
  behind it, succeeds.  The result is the packet with the defaults marshalling filled in, the
  payload unmasked and its sentinel stripped as the receiver does (\<open>received\<close>); a canonical packet
  comes back as it was.\<close>

theorem packet_round_trip:
  assumes "MarshalBinary p = Inr w" "Version p \<noteq> 0x04" "layout_consistent (Version p)"
  shows "ParsePacket (w @ rest) x = Some (Inr (received x p)) \<and>
    (canonical x p \<longrightarrow> ParsePacket (w @ rest) x = Some (Inr p))"
  using ParsePacket_MarshalBinary [OF assms, of rest x] received_canonical [of x p] by simp

definition sample_packet :: Packet where
  "sample_packet = zero_packet\<lparr>Src := 0x21, Dst := 0x35, CmdSet := 0x35, CmdID := 0x86,
     Payload := [1, 2, 3], Version := 0x03, Seq := (0x10, 0, 0, 0)\<rparr>"

lemma sample_marshalled:
  "MarshalBinary sample_packet =
     Inr (packet_content sample_packet @ put_le16 (crc16ARC (packet_content sample_packet)))"
  by (simp add: MarshalBinary_def sample_packet_def zero_packet_def packet_consts Let_def)

theorem packet_round_trip_witness:
  "ParsePacket (packet_content sample_packet @ put_le16 (crc16ARC (packet_content sample_packet)) @
     [0xFF]) True =
   Some (Inr (sample_packet\<lparr>DSrc := 1, DDst := 1, ProductID := 0x0D, Payload := [0x11, 0x12, 0x13]\<rparr>))"
proof -
  have v: "Version sample_packet \<noteq> 0x04" "layout_consistent (Version sample_packet)"
    by (simp_all add: sample_packet_def zero_packet_def layout_consistent_def)
  have "received True sample_packet =
      sample_packet\<lparr>DSrc := 1, DDst := 1, ProductID := 0x0D, Payload := [0x11, 0x12, 0x13]\<rparr>"
    by (simp add: received_def received_payload_def sample_packet_def zero_packet_def
        default_to_def xor_bytes_def)
  with packet_round_trip [OF sample_marshalled v, of "[0xFF]" True] show ?thesis by simp
qed

text \<open>C6: \<open>ParsePacket\<close> returns on every input (no index or slice is out of range) and accepts
  exactly the data whose prefix, version, length and checksums fit.\<close>

theorem ParsePacket_exact:
  "(\<exists>r. ParsePacket data x = Some r) \<and>
   ((\<exists>pkt. ParsePacket data x = Some (Inr pkt)) = acceptable data)"
  using ParsePacket_total ParsePacket_accepts by blast

text \<open>C27: Whatever one or two adjacent bytes behind the header of a CRC-format packet are
  changed to, the packet is rejected with the checksum error.\<close>

theorem corruption_detected:
  assumes "MarshalBinary p = Inr w" "Version p \<noteq> 0x04" "layout_consistent (Version p)"
    "Version p AND 0x10 = 0" "5 \<le> i" "Suc i < length w" "w[i := a, Suc i := b] \<noteq> w"
  shows "ParsePacket (w[i := a, Suc i := b]) x = Some (Inl InvalidPacketCrc16)"
  using assms by (rule ParsePacket_corrupted)

theorem corruption_detected_witness:
  "ParsePacket ((packet_content sample_packet @ put_le16 (crc16ARC (packet_content sample_packet)))
     [18 := 9, 19 := 9]) False = Some (Inl InvalidPacketCrc16)"
  using corruption_detected [OF sample_marshalled, of 18 9 9 False]
  by (simp add: sample_packet_def zero_packet_def layout_consistent_def packet_content_def
      packet_header_def packet_route_def put_le16_def Let_def)

end
