(* ===== verification/Aes.thy ===== *)
theory Aes
  imports Prelude
begin

text \<open>
  The AES block cipher and CBC mode of Go's \<open>crypto/aes\<close> and \<open>crypto/cipher\<close>, as
  far as \<open>internal/ecoflow/frame.go\<close> uses them: \<open>aes.NewCipher\<close> on a key of 16, 24 or
  32 bytes, and \<open>CryptBlocks\<close> in CBC mode.  The state is the list of its 16 bytes in
  the order of the input (byte \<open>r + 4 * c\<close> is row \<open>r\<close> of column \<open>c\<close>).
\<close>

section \<open>Substitution tables\<close>

definition sbox :: bytes where
  "sbox = [
     0x63, 0x7c, 0x77, 0x7b, 0xf2, 0x6b, 0x6f, 0xc5, 0x30, 0x01, 0x67, 0x2b, 0xfe, 0xd7, 0xab, 0x76,
     0xca, 0x82, 0xc9, 0x7d, 0xfa, 0x59, 0x47, 0xf0, 0xad, 0xd4, 0xa2, 0xaf, 0x9c, 0xa4, 0x72, 0xc0,
     0xb7, 0xfd, 0x93, 0x26, 0x36, 0x3f, 0xf7, 0xcc, 0x34, 0xa5, 0xe5, 0xf1, 0x71, 0xd8, 0x31, 0x15,
     0x04, 0xc7, 0x23, 0xc3, 0x18, 0x96, 0x05, 0x9a, 0x07, 0x12, 0x80, 0xe2, 0xeb, 0x27, 0xb2, 0x75,
     0x09, 0x83, 0x2c, 0x1a, 0x1b, 0x6e, 0x5a, 0xa0, 0x52, 0x3b, 0xd6, 0xb3, 0x29, 0xe3, 0x2f, 0x84,
     0x53, 0xd1, 0x00, 0xed, 0x20, 0xfc, 0xb1, 0x5b, 0x6a, 0xcb, 0xbe, 0x39, 0x4a, 0x4c, 0x58, 0xcf,
     0xd0, 0xef, 0xaa, 0xfb, 0x43, 0x4d, 0x33, 0x85, 0x45, 0xf9, 0x02, 0x7f, 0x50, 0x3c, 0x9f, 0xa8,
     0x51, 0xa3, 0x40, 0x8f, 0x92, 0x9d, 0x38, 0xf5, 0xbc, 0xb6, 0xda, 0x21, 0x10, 0xff, 0xf3, 0xd2,
     0xcd, 0x0c, 0x13, 0xec, 0x5f, 0x97, 0x44, 0x17, 0xc4, 0xa7, 0x7e, 0x3d, 0x64, 0x5d, 0x19, 0x73,
     0x60, 0x81, 0x4f, 0xdc, 0x22, 0x2a, 0x90, 0x88, 0x46, 0xee, 0xb8, 0x14, 0xde, 0x5e, 0x0b, 0xdb,
     0xe0, 0x32, 0x3a, 0x0a, 0x49, 0x06, 0x24, 0x5c, 0xc2, 0xd3, 0xac, 0x62, 0x91, 0x95, 0xe4, 0x79,
     0xe7, 0xc8, 0x37, 0x6d, 0x8d, 0xd5, 0x4e, 0xa9, 0x6c, 0x56, 0xf4, 0xea, 0x65, 0x7a, 0xae, 0x08,
     0xba, 0x78, 0x25, 0x2e, 0x1c, 0xa6, 0xb4, 0xc6, 0xe8, 0xdd, 0x74, 0x1f, 0x4b, 0xbd, 0x8b, 0x8a,
     0x70, 0x3e, 0xb5, 0x66, 0x48, 0x03, 0xf6, 0x0e, 0x61, 0x35, 0x57, 0xb9, 0x86, 0xc1, 0x1d, 0x9e,
     0xe1, 0xf8, 0x98, 0x11, 0x69, 0xd9, 0x8e, 0x94, 0x9b, 0x1e, 0x87, 0xe9, 0xce, 0x55, 0x28, 0xdf,
     0x8c, 0xa1, 0x89, 0x0d, 0xbf, 0xe6, 0x42, 0x68, 0x41, 0x99, 0x2d, 0x0f, 0xb0, 0x54, 0xbb, 0x16]"

definition inv_sbox :: bytes where
  "inv_sbox = [
     0x52, 0x09, 0x6a, 0xd5, 0x30, 0x36, 0xa5, 0x38, 0xbf, 0x40, 0xa3, 0x9e, 0x81, 0xf3, 0xd7, 0xfb,
     0x7c, 0xe3, 0x39, 0x82, 0x9b, 0x2f, 0xff, 0x87, 0x34, 0x8e, 0x43, 0x44, 0xc4, 0xde, 0xe9, 0xcb,
     0x54, 0x7b, 0x94, 0x32, 0xa6, 0xc2, 0x23, 0x3d, 0xee, 0x4c, 0x95, 0x0b, 0x42, 0xfa, 0xc3, 0x4e,
     0x08, 0x2e, 0xa1, 0x66, 0x28, 0xd9, 0x24, 0xb2, 0x76, 0x5b, 0xa2, 0x49, 0x6d, 0x8b, 0xd1, 0x25,
     0x72, 0xf8, 0xf6, 0x64, 0x86, 0x68, 0x98, 0x16, 0xd4, 0xa4, 0x5c, 0xcc, 0x5d, 0x65, 0xb6, 0x92,
     0x6c, 0x70, 0x48, 0x50, 0xfd, 0xed, 0xb9, 0xda, 0x5e, 0x15, 0x46, 0x57, 0xa7, 0x8d, 0x9d, 0x84,
     0x90, 0xd8, 0xab, 0x00, 0x8c, 0xbc, 0xd3, 0x0a, 0xf7, 0xe4, 0x58, 0x05, 0xb8, 0xb3, 0x45, 0x06,
     0xd0, 0x2c, 0x1e, 0x8f, 0xca, 0x3f, 0x0f, 0x02, 0xc1, 0xaf, 0xbd, 0x03, 0x01, 0x13, 0x8a, 0x6b,
     0x3a, 0x91, 0x11, 0x41, 0x4f, 0x67, 0xdc, 0xea, 0x97, 0xf2, 0xcf, 0xce, 0xf0, 0xb4, 0xe6, 0x73,
     0x96, 0xac, 0x74, 0x22, 0xe7, 0xad, 0x35, 0x85, 0xe2, 0xf9, 0x37, 0xe8, 0x1c, 0x75, 0xdf, 0x6e,
     0x47, 0xf1, 0x1a, 0x71, 0x1d, 0x29, 0xc5, 0x89, 0x6f, 0xb7, 0x62, 0x0e, 0xaa, 0x18, 0xbe, 0x1b,
     0xfc, 0x56, 0x3e, 0x4b, 0xc6, 0xd2, 0x79, 0x20, 0x9a, 0xdb, 0xc0, 0xfe, 0x78, 0xcd, 0x5a, 0xf4,
     0x1f, 0xdd, 0xa8, 0x33, 0x88, 0x07, 0xc7, 0x31, 0xb1, 0x12, 0x10, 0x59, 0x27, 0x80, 0xec, 0x5f,
     0x60, 0x51, 0x7f, 0xa9, 0x19, 0xb5, 0x4a, 0x0d, 0x2d, 0xe5, 0x7a, 0x9f, 0x93, 0xc9, 0x9c, 0xef,
     0xa0, 0xe0, 0x3b, 0x4d, 0xae, 0x2a, 0xf5, 0xb0, 0xc8, 0xeb, 0xbb, 0x3c, 0x83, 0x53, 0x99, 0x61,
     0x17, 0x2b, 0x04, 0x7e, 0xba, 0x77, 0xd6, 0x26, 0xe1, 0x69, 0x14, 0x63, 0x55, 0x21, 0x0c, 0x7d]"

definition sub_byte :: "byte \<Rightarrow> byte" where
  "sub_byte b = sbox ! unat b"

definition inv_sub_byte :: "byte \<Rightarrow> byte" where
  "inv_sub_byte b = inv_sbox ! unat b"

section \<open>The four round transformations\<close>

definition sub_bytes :: "bytes \<Rightarrow> bytes" where
  "sub_bytes s = map sub_byte s"

definition inv_sub_bytes :: "bytes \<Rightarrow> bytes" where
  "inv_sub_bytes s = map inv_sub_byte s"

definition shift_rows :: "bytes \<Rightarrow> bytes" where
  "shift_rows s = map ((!) s) [0, 5, 10, 15, 4, 9, 14, 3, 8, 13, 2, 7, 12, 1, 6, 11]"

definition inv_shift_rows :: "bytes \<Rightarrow> bytes" where
  "inv_shift_rows s = map ((!) s) [0, 13, 10, 7, 4, 1, 14, 11, 8, 5, 2, 15, 12, 9, 6, 3]"

text \<open>Multiplication by \<open>x\<close> in GF(256), and the multiples the column matrices need.\<close>

definition xtime :: "byte \<Rightarrow> byte" where
  "xtime b = push_bit 1 b XOR (if bit b 7 then 0x1B else 0)"

definition mul3 :: "byte \<Rightarrow> byte" where "mul3 b = xtime b XOR b"
definition mul9 :: "byte \<Rightarrow> byte" where "mul9 b = xtime (xtime (xtime b)) XOR b"
definition mul11 :: "byte \<Rightarrow> byte" where "mul11 b = xtime (xtime (xtime b)) XOR xtime b XOR b"
definition mul13 :: "byte \<Rightarrow> byte" where
  "mul13 b = xtime (xtime (xtime b)) XOR xtime (xtime b) XOR b"
definition mul14 :: "byte \<Rightarrow> byte" where
  "mul14 b = xtime (xtime (xtime b)) XOR xtime (xtime b) XOR xtime b"

fun mix_columns :: "bytes \<Rightarrow> bytes" where
  "mix_columns (a # b # c # d # rest) =
     (xtime a XOR mul3 b XOR c XOR d) # (a XOR xtime b XOR mul3 c XOR d) #
     (a XOR b XOR xtime c XOR mul3 d) # (mul3 a XOR b XOR c XOR xtime d) # mix_columns rest"
| "mix_columns _ = []"

fun inv_mix_columns :: "bytes \<Rightarrow> bytes" where
  "inv_mix_columns (a # b # c # d # rest) =
     (mul14 a XOR mul11 b XOR mul13 c XOR mul9 d) # (mul9 a XOR mul14 b XOR mul11 c XOR mul13 d) #
     (mul13 a XOR mul9 b XOR mul14 c XOR mul11 d) # (mul11 a XOR mul13 b XOR mul9 c XOR mul14 d) #
     inv_mix_columns rest"
| "inv_mix_columns _ = []"

definition xor_block :: "bytes \<Rightarrow> bytes \<Rightarrow> bytes" where
  "xor_block xs ys = map2 (XOR) xs ys"

section \<open>Key expansion\<close>

text \<open>\<open>expand nk rcon i ws\<close> appends word \<open>i\<close> and its successors (a word is its 4 bytes).\<close>

definition next_word :: "nat \<Rightarrow> byte \<Rightarrow> nat \<Rightarrow> bytes list \<Rightarrow> bytes" where
  "next_word nk rcon i ws =
     (let temp = last ws;
          t = (if i mod nk = 0
               then xor_block (map sub_byte (rotate1 temp)) [rcon, 0, 0, 0]
               else if 6 < nk \<and> i mod nk = 4 then map sub_byte temp
               else temp)
      in xor_block (ws ! (i - nk)) t)"

primrec expand :: "nat \<Rightarrow> nat \<Rightarrow> byte \<Rightarrow> bytes list \<Rightarrow> bytes list" where
  "expand 0 nk rcon ws = ws"
| "expand (Suc k) nk rcon ws =
     (let i = length ws
      in expand k nk (if i mod nk = 0 then xtime rcon else rcon) (ws @ [next_word nk rcon i ws]))"

function chunks :: "nat \<Rightarrow> 'a list \<Rightarrow> 'a list list" where
  "chunks n xs = (if n = 0 \<or> xs = [] then [] else take n xs # chunks n (drop n xs))"
  by pat_completeness auto
termination by (relation "measure (\<lambda>(n, xs). length xs)") auto

declare chunks.simps [simp del]

definition round_keys :: "bytes \<Rightarrow> bytes list" where
  "round_keys key =
     (let nk = length key div 4; total = 4 * (nk + 7)
      in chunks 16 (concat (expand (total - nk) nk 1 (chunks 4 key))))"

section \<open>The cipher\<close>

definition enc_round :: "bytes \<Rightarrow> bytes \<Rightarrow> bytes" where
  "enc_round s k = xor_block (mix_columns (shift_rows (sub_bytes s))) k"

definition dec_round :: "bytes \<Rightarrow> bytes \<Rightarrow> bytes" where
  "dec_round k s = inv_sub_bytes (inv_shift_rows (inv_mix_columns (xor_block s k)))"

definition encrypt_rounds :: "bytes list \<Rightarrow> bytes \<Rightarrow> bytes" where
  "encrypt_rounds rks block =
     (let s = foldl enc_round (xor_block block (hd rks)) (butlast (tl rks))
      in xor_block (shift_rows (sub_bytes s)) (last rks))"

definition decrypt_rounds :: "bytes list \<Rightarrow> bytes \<Rightarrow> bytes" where
  "decrypt_rounds rks block =
     (let s = inv_sub_bytes (inv_shift_rows (xor_block block (last rks)))
      in xor_block (foldr dec_round (butlast (tl rks)) s) (hd rks))"

definition aes_encrypt :: "bytes \<Rightarrow> bytes \<Rightarrow> bytes" where
  "aes_encrypt key block = encrypt_rounds (round_keys key) block"

definition aes_decrypt :: "bytes \<Rightarrow> bytes \<Rightarrow> bytes" where
  "aes_decrypt key block = decrypt_rounds (round_keys key) block"

section \<open>Decryption inverts encryption\<close>

lemma length_sbox: "length sbox = 256" "length inv_sbox = 256"
  by (simp_all add: sbox_def inv_sbox_def)

lemma inv_sub_table: "map inv_sub_byte sbox = map word_of_nat [0..<256]"
  by code_simp

lemma unat_byte_less: "unat (b :: byte) < 256"
  using unsigned_less [of b] by simp

lemma inv_sub_sub_byte [simp]: "inv_sub_byte (sub_byte b) = b"
proof -
  have "map inv_sub_byte sbox ! unat b = map word_of_nat [0..<256] ! unat b"
    by (simp only: inv_sub_table)
  then show ?thesis
    using unat_byte_less [of b] by (simp add: sub_byte_def length_sbox)
qed

lemma inv_sub_sub_bytes [simp]: "inv_sub_bytes (sub_bytes s) = s"
  by (simp add: inv_sub_bytes_def sub_bytes_def comp_def)

lemma list16_cases:
  assumes "length s = 16"
  obtains a b c d e f g h i j k l m n p q where "s = [a, b, c, d, e, f, g, h, i, j, k, l, m, n, p, q]"
  using assms by (auto simp: numeral_eq_Suc length_Suc_conv)

lemma inv_shift_shift_rows [simp]: "length s = 16 \<Longrightarrow> inv_shift_rows (shift_rows s) = s"
  by (erule list16_cases) (simp add: inv_shift_rows_def shift_rows_def)

lemma bit_xtime:
  "bit (xtime b) n \<longleftrightarrow> (0 < n \<and> n < 8 \<and> bit b (n - 1)) \<noteq> (bit b 7 \<and> bit (0x1B :: byte) n)"
  by (cases "bit b 7") (simp_all only: xtime_def if_True if_False xor.right_neutral bit_shift1 bit_xor_iff
      simp_thms)

lemma xtime_xor [simp]: "xtime (a XOR b) = xtime a XOR xtime b"
  by (rule bit_word_eqI) (auto simp: bit_xtime bit_xor_iff)

lemma xor_cancel_twice [simp]: "a XOR (a XOR b) = (b :: byte)"
  by (simp flip: xor.assoc)

lemmas xor_ac = xor.assoc xor.commute xor.left_commute

lemma inv_mix_mix_columns [simp]:
  "length s mod 4 = 0 \<Longrightarrow> inv_mix_columns (mix_columns s) = s"
proof (induction s rule: mix_columns.induct)
  case (1 a b c d rest)
  then have "inv_mix_columns (mix_columns rest) = rest" by simp
  then show ?case
    by (simp add: mul3_def mul9_def mul11_def mul13_def mul14_def xor_ac)
qed auto

lemma xor_block_cancel [simp]: "length s \<le> length k \<Longrightarrow> xor_block (xor_block s k) k = s"
  by (simp add: xor_block_def list_eq_iff_nth_eq xor.assoc)

lemma length_xor_block [simp]: "length (xor_block s k) = min (length s) (length k)"
  by (simp add: xor_block_def)

lemma length_transforms [simp]:
  "length (sub_bytes s) = length s" "length (shift_rows s) = 16"
  by (simp_all add: sub_bytes_def shift_rows_def)

lemma length_mix_columns [simp]: "length (mix_columns s) = 4 * (length s div 4)"
  by (induction s rule: mix_columns.induct) (auto simp: div_add_self1)

lemma length_enc_round [simp]: "length k = 16 \<Longrightarrow> length (enc_round s k) = 16"
  by (simp add: enc_round_def)

lemma dec_enc_round [simp]:
  "length s = 16 \<Longrightarrow> length k = 16 \<Longrightarrow> dec_round k (enc_round s k) = s"
  by (simp add: dec_round_def enc_round_def)

lemma dec_enc_rounds:
  "length s = 16 \<Longrightarrow> \<forall>k \<in> set ks. length k = 16 \<Longrightarrow>
   length (foldl enc_round s ks) = 16 \<and> foldr dec_round ks (foldl enc_round s ks) = s"
  by (induction ks arbitrary: s) auto

lemma decrypt_encrypt_rounds:
  assumes "length block = 16" "\<forall>k \<in> set rks. length k = 16" "rks \<noteq> []"
  shows "decrypt_rounds rks (encrypt_rounds rks block) = block"
    and "length (encrypt_rounds rks block) = 16"
proof -
  have k: "length (hd rks) = 16" "length (last rks) = 16"
    "\<forall>k \<in> set (butlast (tl rks)). length k = 16"
    using assms by (auto dest: in_set_butlastD list.set_sel(2))
  let ?s0 = "xor_block block (hd rks)"
  have "length ?s0 = 16" using k assms by simp
  from dec_enc_rounds [OF this k(3)] k assms(1)
  show "decrypt_rounds rks (encrypt_rounds rks block) = block"
    and "length (encrypt_rounds rks block) = 16"
    by (simp_all add: decrypt_rounds_def encrypt_rounds_def Let_def)
qed

lemma chunks_Nil [simp]: "chunks n [] = []"
  by (simp add: chunks.simps)

lemma chunks_step: "0 < n \<Longrightarrow> xs \<noteq> [] \<Longrightarrow> chunks n xs = take n xs # chunks n (drop n xs)"
  by (subst chunks.simps) simp

lemma length_chunks_in:
  "n dvd length xs \<Longrightarrow> c \<in> set (chunks n xs) \<Longrightarrow> length c = n"
proof (induction n xs rule: chunks.induct)
  case (1 n xs)
  show ?case
  proof (cases "n = 0 \<or> xs = []")
    case False
    with "1.prems" have "n \<le> length xs" by (auto dest: dvd_imp_le)
    moreover have "n dvd length (drop n xs)" using "1.prems"(1) by (simp add: dvd_diff_nat)
    ultimately show ?thesis
      using "1.IH" [OF False] "1.prems"(2) False by (auto simp: chunks_step)
  qed (use "1.prems" chunks.simps [of 0 xs] in auto)
qed


lemma length_chunks: "0 < n \<Longrightarrow> n dvd length xs \<Longrightarrow> length (chunks n xs) = length xs div n"
proof (induction n xs rule: chunks.induct)
  case (1 n xs)
  show ?case
  proof (cases "xs = []")
    case False
    with "1.prems" have le: "n \<le> length xs" by (auto dest: dvd_imp_le)
    moreover have "n dvd length (drop n xs)" using "1.prems"(2) by (simp add: dvd_diff_nat)
    ultimately have "length (chunks n xs) = Suc ((length xs - n) div n)"
      using "1.IH" "1.prems" False by (simp add: chunks_step)
    also have "\<dots> = length xs div n" using le "1.prems"(1) by (simp add: le_div_geq)
    finally show ?thesis .
  qed simp
qed

lemma length_next_word:
  assumes "\<forall>w \<in> set ws. length w = 4" "0 < nk" "ws \<noteq> []" "nk \<le> length ws"
  shows "length (next_word nk rcon (length ws) ws) = 4"
  using assms by (simp add: next_word_def Let_def)

lemma expand_words:
  "\<forall>w \<in> set ws. length w = 4 \<Longrightarrow> 0 < nk \<Longrightarrow> nk \<le> length ws \<Longrightarrow>
   (\<forall>w \<in> set (expand k nk rcon ws). length w = 4) \<and>
   length (expand k nk rcon ws) = length ws + k"
proof (induction k arbitrary: rcon ws)
  case (Suc k)
  let ?ws = "ws @ [next_word nk rcon (length ws) ws]"
  from Suc.prems have "length (next_word nk rcon (length ws) ws) = 4"
    by (intro length_next_word) auto
  with Suc.prems have "\<forall>w \<in> set ?ws. length w = 4" "nk \<le> length ?ws" by auto
  from Suc.IH [OF this(1) Suc.prems(2) this(2)] show ?case by (simp add: Let_def)
qed simp

lemma round_keys_shape:
  assumes "4 dvd length key" "key \<noteq> []"
  shows "round_keys key \<noteq> [] \<and> (\<forall>k \<in> set (round_keys key). length k = 16)"
proof -
  define nk where "nk = length key div 4"
  define ws where "ws = expand (4 * (nk + 7) - nk) nk 1 (chunks 4 key)"
  from assms have nk: "0 < nk" unfolding nk_def by (auto dest: dvd_imp_le simp: div_greater_zero_iff)
  have c: "length (chunks 4 key) = nk" "\<forall>w \<in> set (chunks 4 key). length w = 4"
    using assms by (auto simp: length_chunks length_chunks_in nk_def)
  then have w: "\<forall>w \<in> set ws. length w = 4" "length ws = 4 * (nk + 7)"
    using nk expand_words [of "chunks 4 key" nk "4 * (nk + 7) - nk" 1] by (auto simp: ws_def)
  have "length (concat ws) = (\<Sum>w\<leftarrow>ws. 4)"
    using w(1) by (auto simp: length_concat intro!: arg_cong [of _ _ sum_list] map_cong)
  then have len: "length (concat ws) = 16 * (nk + 7)"
    using w(2) by (simp add: sum_list_triv)
  then have "16 dvd length (concat ws)" by (simp only: dvd_triv_left)
  have ne: "concat ws \<noteq> []"
  proof
    assume e: "concat ws = []"
    from len [unfolded e] show False by simp
  qed
  have rk: "round_keys key = chunks 16 (concat ws)"
    by (simp only: round_keys_def Let_def nk_def ws_def)
  have "chunks 16 (concat ws) \<noteq> []" using chunks_step [OF _ ne, of 16] by simp
  with length_chunks_in [OF \<open>16 dvd length (concat ws)\<close>] show ?thesis
    unfolding rk by blast
qed

lemma aes_decrypt_encrypt:
  assumes "length key \<in> {16, 24, 32}" "length block = 16"
  shows "aes_decrypt key (aes_encrypt key block) = block"
    and "length (aes_encrypt key block) = 16"
proof -
  have "4 dvd length key" "key \<noteq> []" using assms(1) by auto
  from round_keys_shape [OF this] decrypt_encrypt_rounds [OF assms(2)]
  show "aes_decrypt key (aes_encrypt key block) = block"
    and "length (aes_encrypt key block) = 16"
    by (simp_all add: aes_decrypt_def aes_encrypt_def)
qed

section \<open>CBC mode\<close>

function cbc_encrypt :: "(bytes \<Rightarrow> bytes) \<Rightarrow> bytes \<Rightarrow> bytes \<Rightarrow> bytes" where
  "cbc_encrypt E iv src =
     (if length src < 16 then []
      else let c = E (xor_block (take 16 src) iv) in c @ cbc_encrypt E c (drop 16 src))"
  by pat_completeness auto
termination by (relation "measure (\<lambda>(E, iv, src). length src)") auto

function cbc_decrypt :: "(bytes \<Rightarrow> bytes) \<Rightarrow> bytes \<Rightarrow> bytes \<Rightarrow> bytes" where
  "cbc_decrypt D iv src =
     (if length src < 16 then []
      else xor_block (D (take 16 src)) iv @ cbc_decrypt D (take 16 src) (drop 16 src))"
  by pat_completeness auto
termination by (relation "measure (\<lambda>(D, iv, src). length src)") auto

declare cbc_encrypt.simps [simp del] cbc_decrypt.simps [simp del]

text \<open>
  What CBC needs of a block cipher: on a valid key, encryption permutes the 16-byte
  blocks and decryption is its inverse.
\<close>

locale block_cipher =
  fixes valid_key :: "bytes \<Rightarrow> bool"
    and enc :: "bytes \<Rightarrow> bytes \<Rightarrow> bytes"
    and dec :: "bytes \<Rightarrow> bytes \<Rightarrow> bytes"
  assumes enc_length: "valid_key k \<Longrightarrow> length b = 16 \<Longrightarrow> length (enc k b) = 16"
    and dec_enc: "valid_key k \<Longrightarrow> length b = 16 \<Longrightarrow> dec k (enc k b) = b"
begin

lemma cbc_encrypt_length:
  "valid_key k \<Longrightarrow> length iv = 16 \<Longrightarrow> 16 dvd length src \<Longrightarrow>
   length (cbc_encrypt (enc k) iv src) = length src"
proof (induction "enc k" iv src rule: cbc_encrypt.induct)
  case (1 iv src)
  show ?case
  proof (cases "length src < 16")
    case False
    with 1 show ?thesis
      by (subst cbc_encrypt.simps) (simp add: Let_def enc_length dvd_diff_nat)
  qed (use 1 in \<open>auto simp: cbc_encrypt.simps [of _ iv src] dest: dvd_imp_le\<close>)
qed

lemma cbc_decrypt_encrypt:
  "valid_key k \<Longrightarrow> length iv = 16 \<Longrightarrow> 16 dvd length src \<Longrightarrow>
   cbc_decrypt (dec k) iv (cbc_encrypt (enc k) iv src) = src"
proof (induction "enc k" iv src rule: cbc_encrypt.induct)
  case (1 iv src)
  show ?case
  proof (cases "length src < 16")
    case False
    define x where "x = xor_block (take 16 src) iv"
    have x: "length x = 16" using False 1 by (simp add: x_def)
    then have c: "length (enc k x) = 16" using 1 by (simp add: enc_length)
    have rest: "cbc_decrypt (dec k) (enc k x) (cbc_encrypt (enc k) (enc k x) (drop 16 src)) = drop 16 src"
      using 1 False c by (intro "1.hyps") (simp_all add: x_def dvd_diff_nat)
    have "cbc_encrypt (enc k) iv src = enc k x @ cbc_encrypt (enc k) (enc k x) (drop 16 src)"
      using False by (simp add: cbc_encrypt.simps [of _ iv src] Let_def x_def)
    then show ?thesis
      using c x 1 False rest
      by (subst cbc_decrypt.simps) (simp add: dec_enc, simp add: x_def)
  qed (use 1 in \<open>auto simp: cbc_encrypt.simps [of _ iv src] cbc_decrypt.simps dest: dvd_imp_le\<close>)
qed

end

definition valid_aes_key :: "bytes \<Rightarrow> bool" where
  "valid_aes_key key \<longleftrightarrow> length key \<in> {16, 24, 32}"

interpretation aes: block_cipher valid_aes_key aes_encrypt aes_decrypt
  by unfold_locales (simp_all add: valid_aes_key_def aes_decrypt_encrypt)

end
