(* ===== verification/Encryption.thy ===== *)
theory Encryption
  imports Aes Packet
begin

text \<open>
  The encryption half of \<open>internal/ecoflow/frame.go\<close>: PKCS#7 padding, the two
  \<open>EncryptionStrategy\<close> implementations (\<open>Type7Encryption\<close> with PKCS#7 padding,
  \<open>Type1Encryption\<close> with zero padding) over AES-CBC, and the contract the frame
  assemblers rely on: decrypting what was encrypted returns the plaintext followed by
  known padding.
\<close>

section \<open>PKCS#7 padding\<close>

definition pkcs7Pad :: "bytes \<Rightarrow> int \<Rightarrow> go_error + bytes" where
  "pkcs7Pad src blockSize =
     (if blockSize < 1 \<or> blockSize > 255 then Inl (InvalidPkcs7BlockSize blockSize)
      else if length src > maxPacketSize then Inl (PlaintextTooLarge (length src))
      else let pad = nat blockSize - length src mod nat blockSize
           in Inr (src @ replicate pad (word_of_nat pad)))"

definition pkcs7Unpad :: "bytes \<Rightarrow> int \<Rightarrow> (go_error + bytes) option" where
  "pkcs7Unpad src blockSize =
     (if src = [] then Some (Inl InvalidPkcs7Length)
      else if blockSize = 0 then None
      else if int (length src) mod blockSize \<noteq> 0 then Some (Inl InvalidPkcs7Length)
      else let pad = unat (last src) in
        if pad = 0 \<or> int pad > blockSize \<or> pad > length src then Some (Inl InvalidPkcs7Padding)
        else if \<not> list_all (\<lambda>b. unat b = pad) (drop (length src - pad) src)
             then Some (Inl InvalidPkcs7Padding)
        else Some (Inr (take (length src - pad) src)))"

section \<open>The two strategies\<close>

datatype EncryptionStrategy =
    Type7Encryption (SessionKey: bytes) (IV: bytes)
  | Type1Encryption (SessionKey: bytes) (IV: bytes)

text \<open>
  \<open>aes.NewCipher\<close> rejects other key sizes; \<open>cipher.NewCBCEncrypter\<close> and
  \<open>NewCBCDecrypter\<close> panic unless the IV is one block, \<open>CryptBlocks\<close> panics unless
  the input is whole blocks.
\<close>

definition NewCipher :: "bytes \<Rightarrow> go_error + bytes" where
  "NewCipher key = (if valid_aes_key key then Inr key else Inl (InvalidAesKeySize (length key)))"

definition EncryptBlocks :: "bytes \<Rightarrow> bytes \<Rightarrow> bytes \<Rightarrow> bytes option" where
  "EncryptBlocks key iv src =
     (if length iv = 16 \<and> length src mod 16 = 0
      then Some (cbc_encrypt (aes_encrypt key) iv src) else None)"

definition DecryptBlocks :: "bytes \<Rightarrow> bytes \<Rightarrow> bytes \<Rightarrow> bytes option" where
  "DecryptBlocks key iv src =
     (if length iv = 16 \<and> length src mod 16 = 0
      then Some (cbc_decrypt (aes_decrypt key) iv src) else None)"

definition type7_Encrypt :: "bytes \<Rightarrow> bytes \<Rightarrow> bytes \<Rightarrow> (go_error + bytes) option" where
  "type7_Encrypt key iv plaintext =
     (case NewCipher key of
        Inl e \<Rightarrow> Some (Inl e)
      | Inr block \<Rightarrow>
          (case pkcs7Pad plaintext 16 of
             Inl e \<Rightarrow> Some (Inl e)
           | Inr padded \<Rightarrow> map_option Inr (EncryptBlocks block iv padded)))"

definition type7_Decrypt :: "bytes \<Rightarrow> bytes \<Rightarrow> bytes \<Rightarrow> (go_error + bytes) option" where
  "type7_Decrypt key iv ciphertext =
     (case NewCipher key of
        Inl e \<Rightarrow> Some (Inl e)
      | Inr block \<Rightarrow>
          (let aligned = length ciphertext - length ciphertext mod 16 in
           if aligned = 0 then Some (Inr ciphertext)
           else do {
             out \<leftarrow> DecryptBlocks block iv (take aligned ciphertext);
             unpadded \<leftarrow> pkcs7Unpad out 16;
             Some (case unpadded of Inr u \<Rightarrow> Inr u | Inl _ \<Rightarrow> Inr out) }))"

definition type1_Encrypt :: "bytes \<Rightarrow> bytes \<Rightarrow> bytes \<Rightarrow> (go_error + bytes) option" where
  "type1_Encrypt key iv plaintext =
     (if length plaintext > maxPacketSize then Some (Inl (PlaintextTooLarge (length plaintext)))
      else case NewCipher key of
        Inl e \<Rightarrow> Some (Inl e)
      | Inr block \<Rightarrow>
          (let paddedLen = (length plaintext + 16 - 1) div 16 * 16;
               padded = plaintext @ replicate (paddedLen - length plaintext) 0
           in map_option Inr (EncryptBlocks block iv padded)))"

definition type1_Decrypt :: "bytes \<Rightarrow> bytes \<Rightarrow> bytes \<Rightarrow> (go_error + bytes) option" where
  "type1_Decrypt key iv ciphertext =
     (case NewCipher key of
        Inl e \<Rightarrow> Some (Inl e)
      | Inr block \<Rightarrow>
          (if length ciphertext mod 16 \<noteq> 0 then Some (Inl CiphertextNotAligned)
           else map_option Inr (DecryptBlocks block iv ciphertext)))"

text \<open>The interface's dynamic dispatch.\<close>

fun Encrypt :: "EncryptionStrategy \<Rightarrow> bytes \<Rightarrow> (go_error + bytes) option" where
  "Encrypt (Type7Encryption key iv) m = type7_Encrypt key iv m"
| "Encrypt (Type1Encryption key iv) m = type1_Encrypt key iv m"

fun Decrypt :: "EncryptionStrategy \<Rightarrow> bytes \<Rightarrow> (go_error + bytes) option" where
  "Decrypt (Type7Encryption key iv) c = type7_Decrypt key iv c"
| "Decrypt (Type1Encryption key iv) c = type1_Decrypt key iv c"

text \<open>The sizes every strategy of the program is built with.\<close>

definition wf_strategy :: "EncryptionStrategy \<Rightarrow> bool" where
  "wf_strategy s \<longleftrightarrow> valid_aes_key (SessionKey s) \<and> length (IV s) = 16"

section \<open>Padding round trip\<close>

lemma pkcs7Pad_Inr:
  assumes "pkcs7Pad src bs = Inr out"
  obtains pad where "1 \<le> pad" "int pad \<le> bs" "bs \<le> 255" "out = src @ replicate pad (word_of_nat pad)"
    "length out mod nat bs = 0" "nat bs - length src mod nat bs = pad"
proof (rule that)
  let ?pad = "nat bs - length src mod nat bs"
  from assms have bs: "1 \<le> bs" "bs \<le> 255" and out: "out = src @ replicate ?pad (word_of_nat ?pad)"
    by (auto simp: pkcs7Pad_def Let_def split: if_splits)
  have lt: "length src mod nat bs < nat bs" using bs by simp
  then show "1 \<le> ?pad" "int ?pad \<le> bs" "bs \<le> 255" using bs by linarith+
  show "out = src @ replicate ?pad (word_of_nat ?pad)" by (rule out)
  have "length out = length src + ?pad" by (simp add: out)
  then have "length out = length src div nat bs * nat bs + nat bs"
    using lt div_mult_mod_eq [of "length src" "nat bs"] by linarith
  then show "length out mod nat bs = 0" by simp
qed simp

lemma pkcs7Pad_aligned: "pkcs7Pad src 16 = Inr out \<Longrightarrow> length out mod 16 = 0"
  by (erule pkcs7Pad_Inr) simp

lemma unat_of_nat8: "n < 256 \<Longrightarrow> unat (word_of_nat n :: byte) = n"
  by (simp add: unat_of_nat take_bit_eq_mod)

lemma pkcs7Unpad_Pad:
  assumes "pkcs7Pad src bs = Inr out"
  shows "pkcs7Unpad out bs = Some (Inr src)"
  using assms
proof (rule pkcs7Pad_Inr)
  fix pad assume pad: "1 \<le> pad" "int pad \<le> bs" "bs \<le> 255"
    and out: "out = src @ replicate pad (word_of_nat pad)" and len: "length out mod nat bs = 0"
  let ?b = "word_of_nat pad :: byte"
  from pad have b: "unat ?b = pad" by (intro unat_of_nat8) linarith
  from pad(1) have ne: "out \<noteq> []" "last out = ?b" by (auto simp: out)
  have parts: "length out = length src + pad" "drop (length src) out = replicate pad ?b"
    "take (length src) out = src" by (simp_all add: out)
  have "list_all (\<lambda>c. unat c = pad) (replicate pad ?b)" using b by (simp add: list_all_iff)
  moreover have "bs \<noteq> 0" "int (length out) mod bs = 0"
    using pad len by (simp_all add: mod_eq_0_iff_dvd flip: int_dvd_int_iff)
  ultimately show "pkcs7Unpad out bs = Some (Inr src)"
    unfolding pkcs7Unpad_def Let_def ne(2) b using ne(1) pad(1,2) parts by auto
qed

text \<open>Unpadding never panics on the block size of AES, and only shortens its input.\<close>

lemma pkcs7Unpad_total: "bs \<noteq> 0 \<Longrightarrow> \<exists>r. pkcs7Unpad src bs = Some r"
  by (cases "pkcs7Unpad src bs") (auto simp: pkcs7Unpad_def Let_def split: if_splits)

lemma pkcs7Unpad_prefix:
  "pkcs7Unpad src bs = Some (Inr u) \<Longrightarrow>
   src = u @ replicate (length src - length u) (last src) \<and> length u < length src"
proof -
  assume u: "pkcs7Unpad src bs = Some (Inr u)"
  define pad where "pad = unat (last src)"
  from u [unfolded pkcs7Unpad_def Let_def, folded pad_def]
  have pad: "0 < pad" "pad \<le> length src" "list_all (\<lambda>b. unat b = pad) (drop (length src - pad) src)"
    "u = take (length src - pad) src"
    by (simp_all only: split: if_splits) simp_all
  have "b = last src" if "b \<in> set (drop (length src - pad) src)" for b
  proof (rule word_unat_eq_iff [THEN iffD2])
    from pad(3) that show "unat b = unat (last src)" unfolding list_all_iff pad_def by blast
  qed
  then have "drop (length src - pad) src = replicate pad (last src)"
    using pad(2) by (intro replicate_eqI) simp_all
  then have "src = u @ replicate pad (last src)" using pad(4) by (metis append_take_drop_id)
  with pad show ?thesis by simp
qed

section \<open>The contract of a strategy\<close>

text \<open>
  What the assemblers use of an \<open>EncryptionStrategy\<close>: it never panics, and decryption
  returns the plaintext followed by the padding the strategy added.
\<close>

locale encryption_strategy =
  fixes wf :: "'s \<Rightarrow> bool"
    and encrypt :: "'s \<Rightarrow> bytes \<Rightarrow> (go_error + bytes) option"
    and decrypt :: "'s \<Rightarrow> bytes \<Rightarrow> (go_error + bytes) option"
    and padding :: "bytes \<Rightarrow> bytes"
    and csize :: "bytes \<Rightarrow> nat"
  assumes encrypt_total: "wf s \<Longrightarrow> \<exists>r. encrypt s m = Some r"
    and decrypt_total: "wf s \<Longrightarrow> \<exists>r. decrypt s c = Some r"
    and decrypt_encrypt:
      "wf s \<Longrightarrow> encrypt s m = Some (Inr c) \<Longrightarrow> decrypt s c = Some (Inr (m @ padding m))"
    and encrypt_size: "wf s \<Longrightarrow> encrypt s m = Some (Inr c) \<Longrightarrow> length c = csize m"
    and encrypt_bounded: "wf s \<Longrightarrow> encrypt s m = Some (Inr c) \<Longrightarrow> length m \<le> maxPacketSize"
begin

lemma decrypt_prefix:
  "wf s \<Longrightarrow> encrypt s m = Some (Inr c) \<Longrightarrow>
   \<exists>body. decrypt s c = Some (Inr body) \<and> length m \<le> length body \<and> take (length m) body = m"
  by (simp add: decrypt_encrypt)

end

definition zero_padding :: "bytes \<Rightarrow> bytes" where
  "zero_padding m = replicate ((length m + 15) div 16 * 16 - length m) 0"

definition wf_type7 :: "EncryptionStrategy \<Rightarrow> bool" where
  "wf_type7 s \<longleftrightarrow> wf_strategy s \<and> is_Type7Encryption s"

definition wf_type1 :: "EncryptionStrategy \<Rightarrow> bool" where
  "wf_type1 s \<longleftrightarrow> wf_strategy s \<and> \<not> is_Type7Encryption s"

lemma type7_round:
  assumes wf: "valid_aes_key key" "length iv = 16" and e: "type7_Encrypt key iv m = Some (Inr c)"
  shows "type7_Decrypt key iv c = Some (Inr m)" "length c = (length m div 16 + 1) * 16"
    "length m \<le> maxPacketSize"
proof -
  from e wf obtain p where p: "pkcs7Pad m 16 = Inr p" and c: "c = cbc_encrypt (aes_encrypt key) iv p"
    by (auto simp: type7_Encrypt_def NewCipher_def EncryptBlocks_def split: sum.splits if_splits)
  from p obtain pad where pad: "1 \<le> pad" "length p = length m + pad" "length p mod 16 = 0"
    "16 - length m mod 16 = pad" by (rule pkcs7Pad_Inr) (rule that, simp_all)
  have len: "length c = length p" using wf pad by (simp add: c aes.cbc_encrypt_length dvd_eq_mod_eq_0)
  have "cbc_decrypt (aes_decrypt key) iv c = p"
    using wf pad by (simp add: c aes.cbc_decrypt_encrypt dvd_eq_mod_eq_0)
  then show "type7_Decrypt key iv c = Some (Inr m)"
    using wf pad len pkcs7Unpad_Pad [OF p]
    by (simp add: type7_Decrypt_def NewCipher_def DecryptBlocks_def Let_def)
  have "length m mod 16 < 16" by simp
  then show "length c = (length m div 16 + 1) * 16"
    using pad(2,4) len by presburger
  show "length m \<le> maxPacketSize" using p by (auto simp: pkcs7Pad_def split: if_splits)
qed

lemma type1_round:
  assumes wf: "valid_aes_key key" "length iv = 16" and e: "type1_Encrypt key iv m = Some (Inr c)"
  shows "type1_Decrypt key iv c = Some (Inr (m @ zero_padding m))"
    "length c = (length m + 15) div 16 * 16" "length m \<le> maxPacketSize"
proof -
  let ?p = "m @ zero_padding m"
  have le: "length m \<le> (length m + 15) div 16 * 16" by linarith
  then have p: "length ?p = (length m + 15) div 16 * 16" by (simp add: zero_padding_def)
  then have dvd: "16 dvd length ?p" by simp
  have c: "c = cbc_encrypt (aes_encrypt key) iv ?p"
    using e wf p by (auto simp: type1_Encrypt_def NewCipher_def EncryptBlocks_def Let_def
        zero_padding_def add.commute split: if_splits)
  have len: "length c = length ?p" unfolding c using wf dvd by (rule aes.cbc_encrypt_length)
  have "cbc_decrypt (aes_decrypt key) iv c = ?p"
    unfolding c using wf dvd by (rule aes.cbc_decrypt_encrypt)
  then show "type1_Decrypt key iv c = Some (Inr ?p)"
    using wf len p by (simp add: type1_Decrypt_def NewCipher_def DecryptBlocks_def)
  show "length c = (length m + 15) div 16 * 16" using len p by simp
  show "length m \<le> maxPacketSize" using e by (auto simp: type1_Encrypt_def split: if_splits)
qed

interpretation type7: encryption_strategy wf_type7 Encrypt Decrypt "\<lambda>m. []"
  "\<lambda>m. (length m div 16 + 1) * 16"
proof
  fix s :: EncryptionStrategy and m c :: bytes
  assume "wf_type7 s"
  then obtain key iv where s: "s = Type7Encryption key iv" "valid_aes_key key" "length iv = 16"
    by (cases s) (auto simp: wf_type7_def wf_strategy_def)
  show "\<exists>r. Encrypt s m = Some r"
    using s by (cases "pkcs7Pad m 16")
      (auto simp: type7_Encrypt_def NewCipher_def EncryptBlocks_def pkcs7Pad_aligned)
  have "(length c - length c mod 16) mod 16 = 0" by (simp add: minus_mod_eq_mult_div)
  then show "\<exists>r. Decrypt s c = Some r"
    using s pkcs7Unpad_total
      [of 16 "cbc_decrypt (aes_decrypt key) iv (take (length c - length c mod 16) c)"]
    by (auto simp: type7_Decrypt_def NewCipher_def DecryptBlocks_def Let_def)
  assume "Encrypt s m = Some (Inr c)"
  with s have "type7_Encrypt key iv m = Some (Inr c)" by simp
  from type7_round [OF s(2,3) this] s(1)
  show "Decrypt s c = Some (Inr (m @ []))" "length c = (length m div 16 + 1) * 16"
    "length m \<le> maxPacketSize" by simp_all
qed

interpretation type1: encryption_strategy wf_type1 Encrypt Decrypt zero_padding
  "\<lambda>m. (length m + 15) div 16 * 16"
proof
  fix s :: EncryptionStrategy and m c :: bytes
  assume "wf_type1 s"
  then obtain key iv where s: "s = Type1Encryption key iv" "valid_aes_key key" "length iv = 16"
    by (cases s) (auto simp: wf_type1_def wf_strategy_def)
  show "\<exists>r. Encrypt s m = Some r"
    using s by (auto simp: type1_Encrypt_def NewCipher_def EncryptBlocks_def Let_def)
  show "\<exists>r. Decrypt s c = Some r"
    using s by (auto simp: type1_Decrypt_def NewCipher_def DecryptBlocks_def)
  assume "Encrypt s m = Some (Inr c)"
  with s have "type1_Encrypt key iv m = Some (Inr c)" by simp
  from type1_round [OF s(2,3) this] s(1)
  show "Decrypt s c = Some (Inr (m @ zero_padding m))" "length c = (length m + 15) div 16 * 16"
    "length m \<le> maxPacketSize" by simp_all
qed

section \<open>Properties\<close>

lemma pad_to_block: "(l + p) mod 16 = 0 \<Longrightarrow> 0 < p \<Longrightarrow> p \<le> 16 \<Longrightarrow> 16 - l mod 16 = (p :: nat)"
proof -
  assume p: "0 < p" "p \<le> 16" and "(l + p) mod 16 = 0"
  then have "(l mod 16 + p) mod 16 = 0" by (simp add: mod_simps)
  then obtain k where k: "l mod 16 + p = 16 * k" by (auto simp: mod_eq_0_iff_dvd dvd_def)
  have "l mod 16 < 16" by simp
  with k p have "k = 1" by linarith
  with k show ?thesis by linarith
qed

lemma pkcs7Pad_Unpad:
  assumes u: "pkcs7Unpad out 16 = Some (Inr src)" and le: "length src \<le> maxPacketSize"
  shows "pkcs7Pad src 16 = Inr out"
proof -
  define pad where "pad = unat (last out)"
  from u [unfolded pkcs7Unpad_def Let_def, folded pad_def]
  have pad: "0 < pad" "int pad \<le> 16" "pad \<le> length out" "int (length out) mod 16 = 0"
    "src = take (length out - pad) out"
    by (simp_all only: split: if_splits) simp_all
  have diff: "length out - length src = pad" using pad(3,5) by simp
  have out: "out = src @ replicate pad (last out)"
    using conjunct1 [OF pkcs7Unpad_prefix [OF u]] unfolding diff .
  have "length out = length src + pad" using pad(3,5) by simp
  moreover have "length out mod 16 = 0" using pad(4) by presburger
  ultimately have "16 - length src mod 16 = pad" using pad(1,2) by (intro pad_to_block) simp_all
  moreover have "word_of_nat pad = last out" by (simp add: pad_def)
  ultimately show ?thesis using out le by (simp add: pkcs7Pad_def Let_def)
qed

lemma type7_round_total:
  assumes "wf_type7 s" "length m \<le> maxPacketSize"
  shows "\<exists>c. Encrypt s m = Some (Inr c) \<and> length c = (length m div 16 + 1) * 16 \<and>
    Decrypt s c = Some (Inr m)"
proof -
  from assms(1) obtain key iv where s: "s = Type7Encryption key iv" "valid_aes_key key" "length iv = 16"
    by (cases s) (auto simp: wf_type7_def wf_strategy_def)
  obtain p where p: "pkcs7Pad m 16 = Inr p" using assms(2) by (auto simp: pkcs7Pad_def Let_def)
  with s pkcs7Pad_aligned [OF p]
  have "Encrypt s m = Some (Inr (cbc_encrypt (aes_encrypt key) iv p))"
    by (simp add: type7_Encrypt_def NewCipher_def EncryptBlocks_def)
  then show ?thesis
    using type7.encrypt_size [OF assms(1)] type7.decrypt_encrypt [OF assms(1)] by auto
qed

lemma type1_round_total:
  assumes "wf_type1 s" "length m \<le> maxPacketSize"
  shows "\<exists>c. Encrypt s m = Some (Inr c) \<and> length c = (length m + 15) div 16 * 16 \<and>
    Decrypt s c = Some (Inr (m @ replicate (length c - length m) 0))"
proof -
  from assms(1) obtain key iv where s: "s = Type1Encryption key iv" "valid_aes_key key" "length iv = 16"
    by (cases s) (auto simp: wf_type1_def wf_strategy_def)
  obtain c where c: "Encrypt s m = Some (Inr c)"
    using s assms(2) by (auto simp: type1_Encrypt_def NewCipher_def EncryptBlocks_def Let_def)
  with type1.encrypt_size [OF assms(1) c] type1.decrypt_encrypt [OF assms(1) c] show ?thesis
    by (intro exI [of _ c]) (simp add: zero_padding_def)
qed

text \<open>Unpadding with the block size of AES accepts exactly the outputs of padding, and
  returns what was padded; it never panics.\<close>

theorem pkcs7_inverse:
  "(\<exists>r. pkcs7Unpad out 16 = Some r) \<and>
   (pkcs7Unpad out 16 = Some (Inr src) \<and> length src \<le> maxPacketSize) = (pkcs7Pad src 16 = Inr out)"
proof -
  have "length src \<le> maxPacketSize" if "pkcs7Pad src 16 = Inr out"
    using that by (auto simp: pkcs7Pad_def split: if_splits)
  then show ?thesis
    using pkcs7Unpad_total [of 16 out] pkcs7Unpad_Pad [of src 16 out] pkcs7Pad_Unpad [of out src]
    by (auto simp del: split_paired_Ex)
qed

text \<open>Under a well-formed type 7 strategy every message up to the packet bound encrypts, to
  whole blocks with at least one byte of padding, and decrypts to itself.\<close>

theorem type7_round_trip:
  assumes "wf_type7 s" "length m \<le> maxPacketSize"
  shows "\<exists>c. Encrypt s m = Some (Inr c) \<and> length c = (length m div 16 + 1) * 16 \<and>
    Decrypt s c = Some (Inr m)"
  using assms by (rule type7_round_total)

theorem type7_round_trip_witness:
  "\<exists>c. Encrypt (Type7Encryption (replicate 16 7) (replicate 16 9)) [1, 2, 3] = Some (Inr c) \<and>
     length c = 16 \<and> Decrypt (Type7Encryption (replicate 16 7) (replicate 16 9)) c = Some (Inr [1, 2, 3])"
  using type7_round_trip [of "Type7Encryption (replicate 16 7) (replicate 16 9)" "[1, 2, 3]"]
  by (simp add: wf_type7_def wf_strategy_def valid_aes_key_def maxPacketSize_def
      maxPacketPayloadSize_def)

text \<open>Under a well-formed type 1 strategy every message up to the packet bound encrypts to
  whole blocks and decrypts to itself followed by zeros up to the block boundary.\<close>

theorem type1_round_trip:
  assumes "wf_type1 s" "length m \<le> maxPacketSize"
  shows "\<exists>c. Encrypt s m = Some (Inr c) \<and> length c = (length m + 15) div 16 * 16 \<and>
    Decrypt s c = Some (Inr (m @ replicate (length c - length m) 0))"
  using assms by (rule type1_round_total)

theorem type1_round_trip_witness:
  "\<exists>c. Encrypt (Type1Encryption (replicate 32 7) (replicate 16 9)) [1, 2, 3] = Some (Inr c) \<and>
     length c = 16 \<and> Decrypt (Type1Encryption (replicate 32 7) (replicate 16 9)) c =
       Some (Inr ([1, 2, 3] @ replicate (length c - 3) 0))"
  using type1_round_trip [of "Type1Encryption (replicate 32 7) (replicate 16 9)" "[1, 2, 3]"]
  by (simp add: wf_type1_def wf_strategy_def valid_aes_key_def maxPacketSize_def
      maxPacketPayloadSize_def numeral_3_eq_3)

end
