(* ===== verification/Scanner.thy ===== *)
theory Scanner
  imports Prelude
begin

text \<open>
  The shape shared by the reassembly loops of \<open>internal/ecoflow/frame.go\<close>: a loop
  \<open>for len(data) > 0\<close> whose body either breaks (keeping a partial frame for the next
  notification), continues behind skipped bytes, emits a frame and goes on behind it, or
  returns an error.  The locales state what such a body must satisfy and prove, once for
  all assemblers, that the frames a byte stream yields do not depend on how the stream is
  cut into notifications.
\<close>

section \<open>Outcomes of one iteration, results of the loop\<close>

datatype 'p outcome =
    Break bytes          \<comment> \<open>\<open>a.buffer = \<dots>; break\<close>\<close>
  | Continue bytes       \<comment> \<open>\<open>data = \<dots>; continue\<close>\<close>
  | Emit 'p bytes        \<comment> \<open>\<open>payloads = append(payloads, \<dots>); data = \<dots>\<close>\<close>
  | Return go_error      \<comment> \<open>\<open>return nil, err\<close>\<close>
  | Panic

datatype 'p scan =
    Scanned "'p list" bytes   \<comment> \<open>the payloads and the buffer left behind\<close>
  | ScanError go_error
  | ScanPanic

fun prepend :: "'p list \<Rightarrow> 'p scan \<Rightarrow> 'p scan" where
  "prepend ps (Scanned qs b) = Scanned (ps @ qs) b"
| "prepend ps (ScanError e) = ScanError e"
| "prepend ps ScanPanic = ScanPanic"

lemma prepend_Nil [simp]: "prepend [] r = r"
  by (cases r) simp_all

lemma prepend_prepend [simp]: "prepend ps (prepend qs r) = prepend (ps @ qs) r"
  by (cases r) simp_all

text \<open>Sequencing: scan on with what the first scan left.\<close>

fun scan_then :: "'p scan \<Rightarrow> (bytes \<Rightarrow> 'p scan) \<Rightarrow> 'p scan" where
  "scan_then (Scanned ps b) f = prepend ps (f b)"
| "scan_then (ScanError e) f = ScanError e"
| "scan_then ScanPanic f = ScanPanic"

lemma scan_then_prepend [simp]: "scan_then (prepend ps r) f = prepend ps (scan_then r f)"
  by (cases r) simp_all

section \<open>Scanners\<close>

locale frame_scanner =
  fixes body :: "bytes \<Rightarrow> 'p outcome"
    and loop :: "bytes \<Rightarrow> 'p scan"
  assumes loop_eq: "loop d =
      (if d = [] then Scanned [] []
       else case body d of
         Break b \<Rightarrow> Scanned [] b
       | Continue d' \<Rightarrow> loop d'
       | Emit p d' \<Rightarrow> prepend [p] (loop d')
       | Return e \<Rightarrow> ScanError e
       | Panic \<Rightarrow> ScanPanic)"
    and continue_shorter: "d \<noteq> [] \<Longrightarrow> body d = Continue d' \<Longrightarrow> length d' < length d"
    and emit_shorter: "d \<noteq> [] \<Longrightarrow> body d = Emit p d' \<Longrightarrow> length d' < length d"
    and continue_append: "d \<noteq> [] \<Longrightarrow> body d = Continue d' \<Longrightarrow> body (d @ y) = Continue (d' @ y)"
    and emit_append: "d \<noteq> [] \<Longrightarrow> body d = Emit p d' \<Longrightarrow> body (d @ y) = Emit p (d' @ y)"
    and return_append: "d \<noteq> [] \<Longrightarrow> body d = Return e \<Longrightarrow> body (d @ y) = Return e"
    and panic_append: "d \<noteq> [] \<Longrightarrow> body d = Panic \<Longrightarrow> body (d @ y) = Panic"
    and break_append: "d \<noteq> [] \<Longrightarrow> y \<noteq> [] \<Longrightarrow> body d = Break b \<Longrightarrow> body (d @ y) = body (b @ y)"
    and break_again: "d \<noteq> [] \<Longrightarrow> body d = Break b \<Longrightarrow> b \<noteq> [] \<Longrightarrow> body b = Break b"
begin

lemma loop_Nil [simp]: "loop [] = Scanned [] []"
  by (subst loop_eq) simp

lemma loop_buffer: "d \<noteq> [] \<Longrightarrow> body d = Break b \<Longrightarrow> loop b = Scanned [] b"
  using break_again [of d b] by (cases "b = []") (auto simp: loop_eq [of b])

text \<open>Scanning a stream is scanning its first part, then the rest behind what that left.\<close>

lemma loop_append: "loop (d @ y) = scan_then (loop d) (\<lambda>b. loop (b @ y))"
proof (induction d rule: length_induct)
  case (1 d)
  show ?case
  proof (cases "d = []")
    case False
    note unfold = loop_eq [of d] loop_eq [of "d @ y"]
    show ?thesis
    proof (cases "body d")
      case (Break b)
      show ?thesis
      proof (cases "y = []")
        case True
        then show ?thesis using Break False loop_buffer by (simp add: unfold)
      next
        case y: False
        with Break False have "body (d @ y) = body (b @ y)" by (intro break_append)
        then show ?thesis
          using Break False y by (simp add: unfold loop_eq [of "b @ y"])
      qed
    next
      case (Continue d')
      with 1 False have "loop (d' @ y) = scan_then (loop d') (\<lambda>b. loop (b @ y))"
        by (auto dest: continue_shorter)
      then show ?thesis using Continue False continue_append by (simp add: unfold)
    next
      case (Emit p d')
      with 1 False have "loop (d' @ y) = scan_then (loop d') (\<lambda>b. loop (b @ y))"
        by (auto dest: emit_shorter)
      then show ?thesis using Emit False emit_append by (simp add: unfold)
    next
      case (Return e)
      then show ?thesis using False return_append by (simp add: unfold)
    next
      case Panic
      then show ?thesis using False panic_append by (simp add: unfold)
    qed
  qed simp
qed

lemma loop_left_over: "loop d = Scanned ps b \<Longrightarrow> loop b = Scanned [] b"
proof (induction d arbitrary: ps rule: length_induct)
  case (1 d)
  show ?case
  proof (cases "d = []")
    case False
    show ?thesis
    proof (cases "body d")
      case (Break b')
      then show ?thesis using "1.prems" False loop_buffer by (simp add: loop_eq [of d])
    next
      case (Continue d')
      then have "loop d' = Scanned ps b" using "1.prems" False by (simp add: loop_eq [of d])
      then show ?thesis using "1.IH" Continue False continue_shorter by blast
    next
      case (Emit p d')
      then have "prepend [p] (loop d') = Scanned ps b"
        using "1.prems" False by (simp add: loop_eq [of d])
      then obtain qs where "loop d' = Scanned qs b" by (cases "loop d'") auto
      then show ?thesis using 1 Emit False emit_shorter by blast
    qed (use "1.prems" False in \<open>simp_all add: loop_eq [of d]\<close>)
  qed (use "1.prems" in simp)
qed

text \<open>A property of every buffer an iteration keeps is one of the buffer the loop leaves.\<close>

lemma loop_keeps:
  assumes "\<And>d b. d \<noteq> [] \<Longrightarrow> body d = Break b \<Longrightarrow> P b" "P []"
  shows "loop d = Scanned ps b \<Longrightarrow> P b"
proof (induction d arbitrary: ps rule: length_induct)
  case (1 d)
  show ?case
  proof (cases "d = []")
    case False
    show ?thesis
    proof (cases "body d")
      case (Break b')
      then show ?thesis using "1.prems" False assms(1) by (simp add: loop_eq [of d])
    next
      case (Continue d')
      then have "loop d' = Scanned ps b" using "1.prems" False by (simp add: loop_eq [of d])
      then show ?thesis using "1.IH" Continue False continue_shorter by blast
    next
      case (Emit p d')
      then have "prepend [p] (loop d') = Scanned ps b"
        using "1.prems" False by (simp add: loop_eq [of d])
      then obtain qs where "loop d' = Scanned qs b" by (cases "loop d'") auto
      then show ?thesis using 1 Emit False emit_shorter by blast
    qed (use "1.prems" False in \<open>simp_all add: loop_eq [of d]\<close>)
  qed (use "1.prems" assms(2) in simp)
qed

lemma loop_no_panic:
  assumes "\<And>d. body d \<noteq> Panic"
  shows "loop d \<noteq> ScanPanic"
proof (induction d rule: length_induct)
  case (1 d)
  show ?case
  proof (cases "d = []")
    case False
    show ?thesis
    proof (cases "body d")
      case (Continue d')
      then show ?thesis using 1 False continue_shorter by (simp add: loop_eq [of d])
    next
      case (Emit p d')
      with 1 False have "loop d' \<noteq> ScanPanic" by (blast dest: emit_shorter)
      then show ?thesis using Emit False by (cases "loop d'") (simp_all add: loop_eq [of d])
    qed (use assms [of d] False in \<open>simp_all add: loop_eq [of d]\<close>)
  qed simp
qed

end

text \<open>
  Feeding notifications one by one: each is appended to the buffer the previous one left.
\<close>

fun feed :: "(bytes \<Rightarrow> 'p scan) \<Rightarrow> bytes \<Rightarrow> bytes list \<Rightarrow> 'p scan" where
  "feed loop b [] = Scanned [] b"
| "feed loop b (c # cs) = scan_then (loop (b @ c)) (\<lambda>b'. feed loop b' cs)"

context frame_scanner begin

lemma feed_concat: "loop b = Scanned [] b \<Longrightarrow> feed loop b cs = loop (b @ concat cs)"
proof (induction cs arbitrary: b)
  case (Cons c cs)
  have "loop (b @ concat (c # cs)) = scan_then (loop (b @ c)) (\<lambda>b'. loop (b' @ concat cs))"
    using loop_append [of "b @ c" "concat cs"] by simp
  then show ?case
  proof (cases "loop (b @ c)")
    case (Scanned ps b')
    from Cons.IH [OF loop_left_over [OF this]] have "feed loop b' cs = loop (b' @ concat cs)" .
    then show ?thesis using Scanned \<open>loop (b @ concat (c # cs)) = _\<close> by simp
  qed simp_all
qed simp

text \<open>Two ways of cutting the same stream give the same frames and the same buffer.\<close>

lemma feed_cut_invariant:
  "concat cs = concat ds \<Longrightarrow> feed loop [] cs = feed loop [] ds"
  by (simp add: feed_concat)

end

section \<open>Scanners with an encoder\<close>

text \<open>
  The other half of a codec: the wire form of a message is recognised at the head of any
  stream and yields \<open>decoded m\<close>.
\<close>

locale frame_codec = frame_scanner +
  fixes frame :: "'m \<Rightarrow> bytes"
    and decoded :: "'m \<Rightarrow> 'p"
    and sendable :: "'m \<Rightarrow> bool"
  assumes frame_recognised: "sendable m \<Longrightarrow> body (frame m @ y) = Emit (decoded m) y"
    and frame_nonempty: "sendable m \<Longrightarrow> frame m \<noteq> []"
begin

lemma loop_frame: "sendable m \<Longrightarrow> loop (frame m @ y) = prepend [decoded m] (loop y)"
  using frame_nonempty by (subst loop_eq) (simp add: frame_recognised)

lemma loop_frames:
  "\<forall>m \<in> set ms. sendable m \<Longrightarrow>
   loop (concat (map frame ms) @ y) = prepend (map decoded ms) (loop y)"
  by (induction ms) (simp_all add: loop_frame)

text \<open>However a sequence of frames is cut, exactly its messages arrive, in order.\<close>

lemma feed_frames:
  assumes "\<forall>m \<in> set ms. sendable m" "concat cs = concat (map frame ms)"
  shows "feed loop [] cs = Scanned (map decoded ms) []"
  using loop_frames [OF assms(1), of "[]"] assms(2) by (simp add: feed_concat)

text \<open>A stream cut off inside a frame: the frames before it have arrived already.\<close>

lemma feed_frames_partial:
  assumes "\<forall>m \<in> set ms. sendable m" "concat cs = concat (map frame ms) @ y"
  shows "feed loop [] cs = prepend (map decoded ms) (loop y)"
  using loop_frames [OF assms(1), of y] assms(2) by (simp add: feed_concat)

end

section \<open>Bodies that first look for a prefix\<close>

text \<open>
  All the loops begin by searching the next frame prefix: \<open>find d\<close> is \<open>d\<close> from its
  first prefix on, \<open>keep d\<close> what is buffered when there is none, \<open>at_prefix\<close> the rest
  of the body, which sees data that starts with a prefix.
\<close>

definition advances :: "bytes \<Rightarrow> 'p outcome \<Rightarrow> bool" where
  "advances d r =
     (case r of
        Break b \<Rightarrow> b = d
      | Continue d' \<Rightarrow> length d' < length d
      | Emit p d' \<Rightarrow> length d' < length d
      | _ \<Rightarrow> True)"

text \<open>More data behind an iteration that did not run out of data does not change it.\<close>

fun with_more :: "bytes \<Rightarrow> 'p outcome \<Rightarrow> 'p outcome" where
  "with_more y (Continue d) = Continue (d @ y)"
| "with_more y (Emit p d) = Emit p (d @ y)"
| "with_more y r = r"

locale prefix_scanner =
  fixes find :: "bytes \<Rightarrow> bytes option"
    and keep :: "bytes \<Rightarrow> bytes"
    and at_prefix :: "bytes \<Rightarrow> 'p outcome"
    and loop :: "bytes \<Rightarrow> 'p scan"
  assumes prefix_loop: "loop d =
      (if d = [] then Scanned [] []
       else case (case find d of None \<Rightarrow> Break (keep d) | Some d0 \<Rightarrow> at_prefix d0) of
         Break b \<Rightarrow> Scanned [] b
       | Continue d' \<Rightarrow> loop d'
       | Emit p d' \<Rightarrow> prepend [p] (loop d')
       | Return e \<Rightarrow> ScanError e
       | Panic \<Rightarrow> ScanPanic)"
    and find_suffix: "find d = Some d0 \<Longrightarrow> length d0 \<le> length d \<and> d0 \<noteq> [] \<and> find d0 = Some d0"
    and find_append: "find d = Some d0 \<Longrightarrow> find (d @ y) = Some (d0 @ y)"
    and find_none: "d \<noteq> [] \<Longrightarrow> find d = None \<Longrightarrow> find (d @ y) = find (keep d @ y)"
    and keep_append: "d \<noteq> [] \<Longrightarrow> find d = None \<Longrightarrow> y \<noteq> [] \<Longrightarrow> keep (d @ y) = keep (keep d @ y)"
    and keep_again: "d \<noteq> [] \<Longrightarrow> find d = None \<Longrightarrow> keep d \<noteq> [] \<Longrightarrow>
      find (keep d) = None \<and> keep (keep d) = keep d"
    and at_prefix_advances: "advances d (at_prefix d)"
    and at_prefix_extend: "at_prefix d = Break d \<or> at_prefix (d @ y) = with_more y (at_prefix d)"
begin

lemma prefix_break: "at_prefix d = Break b \<Longrightarrow> b = d"
  using at_prefix_advances [of d] by (simp add: advances_def)

lemma prefix_continue:
  "at_prefix d = Continue d' \<Longrightarrow> length d' < length d \<and> at_prefix (d @ y) = Continue (d' @ y)"
  using at_prefix_advances [of d] at_prefix_extend [of d y] by (simp add: advances_def)

lemma prefix_emit:
  "at_prefix d = Emit p d' \<Longrightarrow> length d' < length d \<and> at_prefix (d @ y) = Emit p (d' @ y)"
  using at_prefix_advances [of d] at_prefix_extend [of d y] by (simp add: advances_def)

lemma prefix_return: "at_prefix d = Return e \<Longrightarrow> at_prefix (d @ y) = Return e"
  using at_prefix_extend [of d y] by simp

lemma prefix_panic: "at_prefix d = Panic \<Longrightarrow> at_prefix (d @ y) = Panic"
  using at_prefix_extend [of d y] by simp

end

sublocale prefix_scanner \<subseteq> frame_scanner
  "\<lambda>d. case find d of None \<Rightarrow> Break (keep d) | Some d0 \<Rightarrow> at_prefix d0" loop
proof (unfold_locales, goal_cases)
  case (1 d)
  show ?case by (rule prefix_loop)
next
  case (2 d d')
  then obtain d0 where d0: "find d = Some d0" "at_prefix d0 = Continue d'"
    by (auto split: option.splits)
  from conjunct1 [OF find_suffix [OF d0(1)]] conjunct1 [OF prefix_continue [OF d0(2)]]
  show ?case by linarith
next
  case (3 d p d')
  then obtain d0 where d0: "find d = Some d0" "at_prefix d0 = Emit p d'"
    by (auto split: option.splits)
  from conjunct1 [OF find_suffix [OF d0(1)]] conjunct1 [OF prefix_emit [OF d0(2)]]
  show ?case by linarith
next
  case (4 d d' y)
  then show ?case
    using prefix_continue [of _ d' y] by (auto simp: find_append split: option.splits)
next
  case (5 d p d' y)
  then show ?case
    using prefix_emit [of _ p d' y] by (auto simp: find_append split: option.splits)
next
  case (6 d e y)
  then show ?case
    using prefix_return [of _ e y] by (auto simp: find_append split: option.splits)
next
  case (7 d y)
  then show ?case
    using prefix_panic [of _ y] by (auto simp: find_append split: option.splits)
next
  case (8 d y b)
  show ?case
  proof (cases "find d")
    case None
    with 8(3) have b: "b = keep d" by simp
    show ?thesis
      unfolding b find_none [OF 8(1) None] keep_append [OF 8(1) None 8(2)] by (rule refl)
  next
    case (Some d0)
    with 8 have "b = d0" by (auto dest: prefix_break)
    with Some show ?thesis using find_suffix [OF Some] by (simp add: find_append)
  qed
next
  case (9 d b)
  show ?case
  proof (cases "find d")
    case None
    with 9 show ?thesis using keep_again [of d] by auto
  next
    case (Some d0)
    with 9 have "b = d0" by (auto dest: prefix_break)
    with Some 9 show ?thesis using find_suffix [OF Some] by simp
  qed
qed

locale prefix_codec = prefix_scanner +
  fixes frame :: "'m \<Rightarrow> bytes"
    and decoded :: "'m \<Rightarrow> 'p"
    and sendable :: "'m \<Rightarrow> bool"
  assumes frame_found: "sendable m \<Longrightarrow> find (frame m @ y) = Some (frame m @ y)"
    and frame_accepted: "sendable m \<Longrightarrow> at_prefix (frame m @ y) = Emit (decoded m) y"

sublocale prefix_codec \<subseteq> frame_codec
  "\<lambda>d. case find d of None \<Rightarrow> Break (keep d) | Some d0 \<Rightarrow> at_prefix d0" loop frame decoded sendable
proof
  fix m y assume m: "sendable m"
  then show "(case find (frame m @ y) of None \<Rightarrow> Break (keep (frame m @ y)) | Some d0 \<Rightarrow> at_prefix d0) =
      Emit (decoded m) y"
    by (simp add: frame_found frame_accepted)
  from find_suffix [OF frame_found [OF m, of "[]"]] show "frame m \<noteq> []" by simp
qed

end
