(* ===== verification/Frame.thy ===== *)
theory Frame
  imports Encryption Scanner
begin

text \<open>
  The frame assemblers of \<open>internal/ecoflow/frame.go\<close>: \<open>EncPacketAssembler\<close> (type 7),
  \<open>PassthroughAssembler\<close> (type 0), \<open>RawHeaderAssembler\<close> (type 1) and the handshake's
  \<open>SimplePacketAssembler\<close>.  Each loop body is one definition, each loop a recursive
  function over it; the interpretations of \<open>frame_codec\<close> give the fragmentation and
  round-trip theorems of every assembler.
\<close>

section \<open>Searching for a prefix\<close>

text \<open>\<open>bytes.Index\<close> and \<open>bytes.IndexByte\<close>; \<open>None\<close> is the result \<open>-1\<close>.\<close>

fun Index :: "bytes \<Rightarrow> bytes \<Rightarrow> nat option" where
  "Index data sep =
     (if take (length sep) data = sep then Some 0
      else case data of [] \<Rightarrow> None | _ # t \<Rightarrow> map_option Suc (Index t sep))"

fun IndexByte :: "bytes \<Rightarrow> byte \<Rightarrow> nat option" where
  "IndexByte [] c = None"
| "IndexByte (x # xs) c = (if x = c then Some 0 else map_option Suc (IndexByte xs c))"

declare Index.simps [simp del]

section \<open>The outer frame: handshake and type 7\<close>

text \<open>
  The iteration that \<open>SimplePacketAssembler.Parse\<close> and \<open>EncPacketAssembler.Reassemble\<close>
  share (an emitted payload is still encrypted): \<open>outer_frame\<close> is the part that sees data
  starting with the prefix.
\<close>

definition outer_frame :: "bytes \<Rightarrow> bytes outcome" where
  "outer_frame d =
     (if length d < 8 then Break d
      else
        let payloadLen = unat (le16 (d ! 4) (d ! 5)) in
        if payloadLen < 2 \<or> payloadLen > 10000 then Continue (drop 2 d)
        else
          let frameLen = 6 + payloadLen in
          if length d < frameLen then Break d
          else
            let payload = take (payloadLen - 2) (drop 6 d);
                want = le16 (d ! (frameLen - 2)) (d ! (frameLen - 1)) in
            if crc16ARC (take (frameLen - 2) d) \<noteq> want then Continue (drop 2 d)
            else Emit payload (drop frameLen d))"

definition keep_outer :: "bytes \<Rightarrow> bytes" where
  "keep_outer data = (if last data = 0x5A then [0x5A] else [])"

definition outer_body :: "bytes \<Rightarrow> bytes outcome" where
  "outer_body data =
     (case Index data [0x5A, 0x5A] of
        None \<Rightarrow> Break (keep_outer data)
      | Some start \<Rightarrow> outer_frame (drop start data))"

record SimplePacketAssembler =
  simple_buffer :: bytes

definition simple_Encode :: "bytes \<Rightarrow> go_error + bytes" where
  "simple_Encode payload =
     enc_MarshalBinary \<lparr>FrameType = 0x00, PayloadType = 0x00, enc_Payload = payload\<rparr>"

text \<open>The progress of an iteration, for the termination of the loops.\<close>

lemma outer_body_shorter:
  "outer_body d = Continue d' \<Longrightarrow> length d' < length d"
  "outer_body d = Emit p d' \<Longrightarrow> length d' < length d"
  by (auto simp: outer_body_def outer_frame_def Let_def split: option.splits if_splits)

text \<open>
  \<open>Parse\<close>: \<open>Inl b\<close> is \<open>nil, false\<close> with \<open>a.buffer = b\<close>, \<open>Inr (p, b)\<close> is
  \<open>p, true\<close> with \<open>a.buffer = b\<close>.
\<close>

function parse_loop :: "bytes \<Rightarrow> bytes + (bytes \<times> bytes)" where
  "parse_loop data =
     (if data = [] then Inl []
      else case outer_body data of
        Break b \<Rightarrow> Inl b
      | Continue d \<Rightarrow> parse_loop d
      | Emit payload rest \<Rightarrow> Inr (payload, rest)
      | Return e \<Rightarrow> Inl []
      | Panic \<Rightarrow> Inl [])"
  by pat_completeness auto
termination
  by (relation "measure length") (auto dest: outer_body_shorter)

definition simple_Parse ::
  "SimplePacketAssembler \<Rightarrow> bytes \<Rightarrow> bytes option \<times> SimplePacketAssembler" where
  "simple_Parse a data =
     (case parse_loop (if simple_buffer a \<noteq> [] then simple_buffer a @ data else data) of
        Inl b \<Rightarrow> (None, a\<lparr>simple_buffer := b\<rparr>)
      | Inr (payload, b) \<Rightarrow> (Some payload, a\<lparr>simple_buffer := b\<rparr>))"

record EncPacketAssembler =
  enc_buffer :: bytes
  enc_encryption :: "EncryptionStrategy option"

definition enc_Encode :: "EncPacketAssembler \<Rightarrow> Packet \<Rightarrow> (go_error + bytes) option" where
  "enc_Encode a pkt =
     (case MarshalBinary pkt of
        Inl e \<Rightarrow> Some (Inl e)
      | Inr raw \<Rightarrow> do {
          payload \<leftarrow> (case enc_encryption a of None \<Rightarrow> Some (Inr raw) | Some s \<Rightarrow> Encrypt s raw);
          Some (case payload of
              Inl e \<Rightarrow> Inl e
            | Inr p \<Rightarrow> enc_MarshalBinary \<lparr>FrameType = 0x01, PayloadType = 0x00, enc_Payload = p\<rparr>) })"

text \<open>Lines 150 to 158: the payload of an accepted frame is decrypted.\<close>

definition decrypt_outcome :: "EncryptionStrategy option \<Rightarrow> bytes outcome \<Rightarrow> bytes outcome" where
  "decrypt_outcome encryption r =
     (case r of
        Emit payload rest \<Rightarrow>
          (case encryption of
             None \<Rightarrow> Emit payload rest
           | Some s \<Rightarrow>
               (case Decrypt s payload of
                  None \<Rightarrow> Panic
                | Some (Inl e) \<Rightarrow> Return e
                | Some (Inr p) \<Rightarrow> Emit p rest))
      | other \<Rightarrow> other)"

definition enc_body :: "EncryptionStrategy option \<Rightarrow> bytes \<Rightarrow> bytes outcome" where
  "enc_body encryption data = decrypt_outcome encryption (outer_body data)"

lemma enc_body_shorter:
  "enc_body e d = Continue d' \<Longrightarrow> length d' < length d"
  "enc_body e d = Emit p d' \<Longrightarrow> length d' < length d"
  by (auto simp: enc_body_def decrypt_outcome_def outer_body_shorter split: outcome.splits option.splits sum.splits)

function enc_loop :: "EncryptionStrategy option \<Rightarrow> bytes \<Rightarrow> bytes scan" where
  "enc_loop e data =
     (if data = [] then Scanned [] []
      else case enc_body e data of
        Break b \<Rightarrow> Scanned [] b
      | Continue d \<Rightarrow> enc_loop e d
      | Emit p d \<Rightarrow> prepend [p] (enc_loop e d)
      | Return err \<Rightarrow> ScanError err
      | Panic \<Rightarrow> ScanPanic)"
  by pat_completeness auto
termination
  by (relation "measure (\<lambda>(e, data). length data)") (auto dest: enc_body_shorter)

text \<open>What \<open>Reassemble\<close> returns, and the buffer it leaves, from the result of its loop.\<close>

definition reassembled :: "bytes scan \<Rightarrow> ((go_error + bytes list) \<times> bytes) option" where
  "reassembled r =
     (case r of
        Scanned ps b \<Rightarrow> Some (Inr ps, b)
      | ScanError e \<Rightarrow> Some (Inl e, [])
      | ScanPanic \<Rightarrow> None)"

definition enc_Reassemble ::
  "EncPacketAssembler \<Rightarrow> bytes \<Rightarrow> ((go_error + bytes list) \<times> EncPacketAssembler) option" where
  "enc_Reassemble a data =
     map_option (\<lambda>(r, b). (r, a\<lparr>enc_buffer := b\<rparr>))
       (reassembled (enc_loop (enc_encryption a)
          (if enc_buffer a \<noteq> [] then enc_buffer a @ data else data)))"

section \<open>Type 0: plain packets\<close>

definition packetBodyLen :: "byte \<Rightarrow> nat \<Rightarrow> nat" where
  "packetBodyLen version payloadLen =
     (if version = 0x04 then 5 + payloadLen
      else
        let overhead = (if version AND 0x0F \<ge> 0x03 then 15 else 13);
            overhead' = (if version AND 0x10 \<noteq> 0 then overhead - 2 else overhead)
        in overhead' + payloadLen)"

record PassthroughAssembler =
  pass_buffer :: bytes

definition pass_Encode :: "PassthroughAssembler \<Rightarrow> Packet \<Rightarrow> (go_error + bytes) option" where
  "pass_Encode a pkt = Some (MarshalBinary pkt)"

definition pass_frame :: "bytes \<Rightarrow> bytes outcome" where
  "pass_frame d =
     (if length d < 5 then Break d
      else if crc8CCITT (take 4 d) \<noteq> d ! 4 then Continue (drop 1 d)
      else
        let payloadLen = unat (le16 (d ! 2) (d ! 3));
            frameLen = 5 + packetBodyLen (d ! 1) payloadLen in
        if length d < frameLen then Break d
        else Emit (take frameLen d) (drop frameLen d))"

definition pass_body :: "bytes \<Rightarrow> bytes outcome" where
  "pass_body data =
     (case IndexByte data packetPrefix of
        None \<Rightarrow> Break []
      | Some start \<Rightarrow> pass_frame (drop start data))"

lemma pass_body_shorter:
  "pass_body d = Continue d' \<Longrightarrow> length d' < length d"
  "pass_body d = Emit p d' \<Longrightarrow> length d' < length d"
  by (auto simp: pass_body_def pass_frame_def Let_def split: option.splits if_splits)

function pass_loop :: "bytes \<Rightarrow> bytes scan" where
  "pass_loop data =
     (if data = [] then Scanned [] []
      else case pass_body data of
        Break b \<Rightarrow> Scanned [] b
      | Continue d \<Rightarrow> pass_loop d
      | Emit p d \<Rightarrow> prepend [p] (pass_loop d)
      | Return err \<Rightarrow> ScanError err
      | Panic \<Rightarrow> ScanPanic)"
  by pat_completeness auto
termination
  by (relation "measure length") (auto dest: pass_body_shorter)

definition pass_Reassemble ::
  "PassthroughAssembler \<Rightarrow> bytes \<Rightarrow> ((go_error + bytes list) \<times> PassthroughAssembler) option" where
  "pass_Reassemble a data =
     map_option (\<lambda>(r, b). (r, a\<lparr>pass_buffer := b\<rparr>))
       (reassembled (pass_loop (if pass_buffer a \<noteq> [] then pass_buffer a @ data else data)))"

section \<open>Type 1: clear header, encrypted body\<close>

record RawHeaderAssembler =
  raw_buffer :: bytes
  raw_encryption :: EncryptionStrategy

definition raw_Encode :: "RawHeaderAssembler \<Rightarrow> Packet \<Rightarrow> (go_error + bytes) option" where
  "raw_Encode a pkt =
     (case MarshalBinary pkt of
        Inl e \<Rightarrow> Some (Inl e)
      | Inr raw \<Rightarrow> do {
          body \<leftarrow> go_slice raw 5 (length raw);
          encrypted \<leftarrow> Encrypt (raw_encryption a) body;
          header \<leftarrow> go_slice raw 0 5;
          Some (case encrypted of Inl e \<Rightarrow> Inl e | Inr c \<Rightarrow> Inr (header @ c)) })"

definition raw_frame :: "EncryptionStrategy \<Rightarrow> bytes \<Rightarrow> bytes outcome" where
  "raw_frame encryption d =
     (if length d < 5 then Break d
      else if crc8CCITT (take 4 d) \<noteq> d ! 4 then Continue (drop 1 d)
      else
        let payloadLen = unat (le16 (d ! 2) (d ! 3));
            innerLen = packetBodyLen (d ! 1) payloadLen;
            encryptedLen = (innerLen + 16 - 1) div 16 * 16;
            frameLen = 5 + encryptedLen in
        if length d < frameLen then Break d
        else
          case Decrypt encryption (take encryptedLen (drop 5 d)) of
            None \<Rightarrow> Panic
          | Some (Inl e) \<Rightarrow> Return e
          | Some (Inr body) \<Rightarrow>
              (if length body < innerLen then Return (BodyTooShort (length body) innerLen)
               else Emit (take 5 d @ take innerLen body) (drop frameLen d)))"

definition raw_body :: "EncryptionStrategy \<Rightarrow> bytes \<Rightarrow> bytes outcome" where
  "raw_body encryption data =
     (case IndexByte data packetPrefix of
        None \<Rightarrow> Break []
      | Some start \<Rightarrow> raw_frame encryption (drop start data))"

lemma raw_body_shorter:
  "raw_body e d = Continue d' \<Longrightarrow> length d' < length d"
  "raw_body e d = Emit p d' \<Longrightarrow> length d' < length d"
  by (auto simp: raw_body_def raw_frame_def Let_def split: option.splits if_splits sum.splits)

function raw_loop :: "EncryptionStrategy \<Rightarrow> bytes \<Rightarrow> bytes scan" where
  "raw_loop e data =
     (if data = [] then Scanned [] []
      else case raw_body e data of
        Break b \<Rightarrow> Scanned [] b
      | Continue d \<Rightarrow> raw_loop e d
      | Emit p d \<Rightarrow> prepend [p] (raw_loop e d)
      | Return err \<Rightarrow> ScanError err
      | Panic \<Rightarrow> ScanPanic)"
  by pat_completeness auto
termination
  by (relation "measure (\<lambda>(e, data). length data)") (auto dest: raw_body_shorter)

definition raw_Reassemble ::
  "RawHeaderAssembler \<Rightarrow> bytes \<Rightarrow> ((go_error + bytes list) \<times> RawHeaderAssembler) option" where
  "raw_Reassemble a data =
     map_option (\<lambda>(r, b). (r, a\<lparr>raw_buffer := b\<rparr>))
       (reassembled (raw_loop (raw_encryption a)
          (if raw_buffer a \<noteq> [] then raw_buffer a @ data else data)))"

text \<open>The \<open>WriteWithResponse\<close> of the three assemblers.\<close>

definition enc_WriteWithResponse :: "EncPacketAssembler \<Rightarrow> bool" where
  "enc_WriteWithResponse a = True"

definition pass_WriteWithResponse :: "PassthroughAssembler \<Rightarrow> bool" where
  "pass_WriteWithResponse a = False"

definition raw_WriteWithResponse :: "RawHeaderAssembler \<Rightarrow> bool" where
  "raw_WriteWithResponse a = False"

declare parse_loop.simps [simp del] enc_loop.simps [simp del] pass_loop.simps [simp del]
  raw_loop.simps [simp del]

section \<open>The prefix searches\<close>

definition find_outer :: "bytes \<Rightarrow> bytes option" where
  "find_outer d = map_option (\<lambda>i. drop i d) (Index d [0x5A, 0x5A])"

definition find_packet :: "bytes \<Rightarrow> bytes option" where
  "find_packet d = map_option (\<lambda>i. drop i d) (IndexByte d packetPrefix)"

lemma find_outer_Nil [simp]: "find_outer [] = None"
  by (simp add: find_outer_def Index.simps)

lemma find_outer_Cons:
  "find_outer (x # xs) =
     (if take 2 (x # xs) = [0x5A, 0x5A] then Some (x # xs) else find_outer xs)"
  by (auto simp: find_outer_def Index.simps [of "x # xs"] option.map_comp comp_def)

lemma find_packet_Nil [simp]: "find_packet [] = None"
  by (simp add: find_packet_def)

lemma find_packet_Cons:
  "find_packet (x # xs) = (if x = packetPrefix then Some (x # xs) else find_packet xs)"
  by (auto simp: find_packet_def option.map_comp comp_def)

lemma outer_body_find:
  "outer_body d = (case find_outer d of None \<Rightarrow> Break (keep_outer d) | Some d0 \<Rightarrow> outer_frame d0)"
  by (simp add: outer_body_def find_outer_def split: option.split)

lemma pass_body_find:
  "pass_body d = (case find_packet d of None \<Rightarrow> Break [] | Some d0 \<Rightarrow> pass_frame d0)"
  by (simp add: pass_body_def find_packet_def split: option.split)

lemma raw_body_find:
  "raw_body e d = (case find_packet d of None \<Rightarrow> Break [] | Some d0 \<Rightarrow> raw_frame e d0)"
  by (simp add: raw_body_def find_packet_def split: option.split)

lemma find_outer_prefix:
  "find_outer d = Some d0 \<Longrightarrow> length d0 \<le> length d \<and> d0 \<noteq> [] \<and> find_outer d0 = Some d0"
  by (induction d) (auto simp: find_outer_Cons split: if_splits)

lemma find_outer_append: "find_outer d = Some d0 \<Longrightarrow> find_outer (d @ y) = Some (d0 @ y)"
proof (induction d)
  case (Cons x d)
  then show ?case by (cases d) (auto simp: find_outer_Cons split: if_splits)
qed simp

lemma find_outer_none:
  "d \<noteq> [] \<Longrightarrow> find_outer d = None \<Longrightarrow> find_outer (d @ y) = find_outer (keep_outer d @ y)"
proof (induction d)
  case (Cons x d)
  then show ?case
    by (cases d) (auto simp: find_outer_Cons keep_outer_def split: if_splits)
qed simp

lemma find_packet_prefix:
  "find_packet d = Some d0 \<Longrightarrow> length d0 \<le> length d \<and> d0 \<noteq> [] \<and> find_packet d0 = Some d0"
  by (induction d) (auto simp: find_packet_Cons split: if_splits)

lemma find_packet_append: "find_packet d = Some d0 \<Longrightarrow> find_packet (d @ y) = Some (d0 @ y)"
  by (induction d) (auto simp: find_packet_Cons split: if_splits)

lemma find_packet_none: "find_packet d = None \<Longrightarrow> find_packet (d @ y) = find_packet y"
  by (induction d) (auto simp: find_packet_Cons split: if_splits)

section \<open>The bodies behind a prefix\<close>

lemma outer_frame_extend:
  "outer_frame d = Break d \<or> outer_frame (d @ y) = with_more y (outer_frame d)"
proof (cases "length d < 8")
  case False
  define n where "n = unat (le16 (d ! 4) (d ! 5))"
  from False have n: "unat (le16 ((d @ y) ! 4) ((d @ y) ! 5)) = n"
    by (simp add: nth_append n_def)
  show ?thesis
  proof (cases "n < 2 \<or> n > 10000")
    case True
    with False show ?thesis by (simp add: outer_frame_def Let_def n n_def [symmetric])
  next
    case range: False
    show ?thesis
    proof (cases "length d < 6 + n")
      case False
      with range have "(d @ y) ! (6 + n - 2) = d ! (6 + n - 2)" "(d @ y) ! (6 + n - 1) = d ! (6 + n - 1)"
        "6 + n \<le> length d" by (simp_all add: nth_append)
      with range \<open>\<not> length d < 8\<close> show ?thesis
        unfolding outer_frame_def Let_def n n_def [symmetric] by simp
    qed (use range \<open>\<not> length d < 8\<close> in \<open>simp add: outer_frame_def Let_def n_def [symmetric]\<close>)
  qed
qed (simp add: outer_frame_def)

lemma outer_frame_advances: "advances d (outer_frame d)"
  by (cases "outer_frame d") (auto simp: advances_def outer_frame_def Let_def split: if_splits)

lemma outer_frame_plain: "outer_frame d \<noteq> Return e" "outer_frame d \<noteq> Panic"
  by (simp_all add: outer_frame_def Let_def)

lemma decrypt_outcome_extend:
  "r = Break d \<or> decrypt_outcome e (with_more y r) = with_more y (decrypt_outcome e r)"
  by (cases r) (auto simp: decrypt_outcome_def split: option.splits sum.splits)

lemma decrypt_outcome_advances: "advances d r \<Longrightarrow> advances d (decrypt_outcome e r)"
  by (cases r) (auto simp: decrypt_outcome_def advances_def split: option.splits sum.splits)

lemma enc_body_find:
  "enc_body e d = (case find_outer d of None \<Rightarrow> Break (keep_outer d)
     | Some d0 \<Rightarrow> decrypt_outcome e (outer_frame d0))"
  by (simp add: enc_body_def outer_body_find decrypt_outcome_def split: option.split)

lemma enc_frame_extend:
  "decrypt_outcome e (outer_frame d) = Break d \<or>
   decrypt_outcome e (outer_frame (d @ y)) = with_more y (decrypt_outcome e (outer_frame d))"
proof (cases "outer_frame d = Break d")
  case False
  then show ?thesis
    using outer_frame_extend [of d y] decrypt_outcome_extend [of "outer_frame d" d e y] by simp
qed (simp add: decrypt_outcome_def)

text \<open>The two header-first loops share the checks in front of the body.\<close>

lemma header_extend:
  assumes "5 \<le> length d"
  shows "take 4 (d @ y) = take 4 d" "(d @ y) ! 4 = d ! 4" "(d @ y) ! 1 = d ! 1"
    "(d @ y) ! 2 = d ! 2" "(d @ y) ! 3 = d ! 3"
  using assms by (simp_all add: nth_append)

lemma pass_frame_extend: "pass_frame d = Break d \<or> pass_frame (d @ y) = with_more y (pass_frame d)"
proof (cases "length d < 5")
  case False
  then have h: "5 \<le> length d" by simp
  note hs = header_extend [OF h]
  define n where "n = 5 + packetBodyLen (d ! 1) (unat (le16 (d ! 2) (d ! 3)))"
  show ?thesis
  proof (cases "crc8CCITT (take 4 d) \<noteq> d ! 4")
    case True
    with False show ?thesis unfolding pass_frame_def hs by simp
  next
    case crc: False
    show ?thesis
      using False crc unfolding pass_frame_def hs Let_def n_def [symmetric] by simp
  qed
qed (simp add: pass_frame_def)

lemma pass_frame_advances: "advances d (pass_frame d)"
  by (cases "pass_frame d") (auto simp: advances_def pass_frame_def Let_def split: if_splits)

definition raw_emit :: "EncryptionStrategy \<Rightarrow> nat \<Rightarrow> nat \<Rightarrow> bytes \<Rightarrow> bytes outcome" where
  "raw_emit encryption innerLen encryptedLen d =
     (case Decrypt encryption (take encryptedLen (drop 5 d)) of
        None \<Rightarrow> Panic
      | Some (Inl e) \<Rightarrow> Return e
      | Some (Inr body) \<Rightarrow>
          (if length body < innerLen then Return (BodyTooShort (length body) innerLen)
           else Emit (take 5 d @ take innerLen body) (drop (5 + encryptedLen) d)))"

lemma raw_emit_extend:
  "5 + n \<le> length d \<Longrightarrow> raw_emit e i n (d @ y) = with_more y (raw_emit e i n d)"
  by (simp add: raw_emit_def split: option.split sum.split)

lemma raw_frame_extend: "raw_frame e d = Break d \<or> raw_frame e (d @ y) = with_more y (raw_frame e d)"
proof (cases "length d < 5")
  case False
  then have h: "5 \<le> length d" by simp
  note hs = header_extend [OF h]
  define i where "i = packetBodyLen (d ! 1) (unat (le16 (d ! 2) (d ! 3)))"
  define n where "n = (i + 16 - 1) div 16 * 16"
  note fold = i_def [symmetric] n_def [symmetric] raw_emit_def [symmetric]
  show ?thesis
  proof (cases "crc8CCITT (take 4 d) \<noteq> d ! 4")
    case True
    with False show ?thesis unfolding raw_frame_def hs by simp
  next
    case crc: False
    show ?thesis
      using False crc raw_emit_extend [of n d e i y]
      unfolding raw_frame_def hs Let_def fold by simp
  qed
qed (simp add: raw_frame_def)

lemma raw_frame_advances: "advances d (raw_frame e d)"
  by (cases "raw_frame e d")
    (auto simp: advances_def raw_frame_def Let_def split: if_splits option.splits sum.splits)

section \<open>The scanners\<close>

interpretation enc: prefix_scanner find_outer keep_outer
  "\<lambda>d. decrypt_outcome e (outer_frame d)" "enc_loop e" for e
proof (unfold_locales, goal_cases)
  case (1 d)
  show ?case by (subst enc_loop.simps) (simp only: enc_body_find)
next
  case (5 d y)
  then show ?case by (simp add: keep_outer_def)
next
  case (6 d)
  then show ?case by (auto simp: keep_outer_def find_outer_Cons split: if_splits)
qed (simp_all add: find_outer_prefix find_outer_append find_outer_none enc_frame_extend
    decrypt_outcome_advances outer_frame_advances)

interpretation pass: prefix_scanner find_packet "\<lambda>_. []" pass_frame pass_loop
proof (unfold_locales, goal_cases)
  case (1 d)
  show ?case by (subst pass_loop.simps) (simp only: pass_body_find)
qed (simp_all add: find_packet_prefix find_packet_append find_packet_none pass_frame_extend
    pass_frame_advances)

interpretation raw: prefix_scanner find_packet "\<lambda>_. []" "raw_frame e" "raw_loop e" for e
proof (unfold_locales, goal_cases)
  case (1 d)
  show ?case by (subst raw_loop.simps) (simp only: raw_body_find)
qed (simp_all add: find_packet_prefix find_packet_append find_packet_none raw_frame_extend
    raw_frame_advances)

section \<open>Encoded frames are recognised\<close>

lemma enc_content_bytes:
  "enc_content e = 0x5A # 0x5A # push_bit 4 (FrameType e) # 0x01 #
     ucast (word_of_nat (length (enc_Payload e) + 2) :: 16 word) #
     ucast (drop_bit 8 (word_of_nat (length (enc_Payload e) + 2) :: 16 word)) # enc_Payload e"
  by (simp add: enc_content_def put_be16_def put_le16_def encPacketPrefix_def)

lemma find_outer_content: "find_outer (enc_content e @ y) = Some (enc_content e @ y)"
  by (simp add: enc_content_bytes find_outer_Cons)

lemma outer_frame_content:
  assumes "length (enc_Payload e) \<le> 9998"
  shows "outer_frame (enc_content e @ put_le16 (crc16ARC (enc_content e)) @ y) = Emit (enc_Payload e) y"
proof -
  let ?n = "length (enc_Payload e) + 2" and ?c = "crc16ARC (enc_content e)"
  let ?d = "enc_content e @ put_le16 ?c @ y"
  have "le16 (?d ! 4) (?d ! 5) = word_of_nat ?n"
    by (simp add: enc_content_bytes del: of_nat_add of_nat_Suc add_2_eq_Suc')
  moreover have "?n < 65536" using assms by simp
  ultimately have n: "unat (le16 (?d ! 4) (?d ! 5)) = ?n"
    by (simp only: unat_of_nat16)
  have len: "length (enc_content e) = 4 + ?n" by simp
  have tail: "le16 (?d ! (6 + ?n - 2)) (?d ! (6 + ?n - 1)) = ?c"
    using len by (simp add: nth_append put_le16_def)
  have "take (6 + ?n - 2) ?d = enc_content e" "drop (6 + ?n) ?d = y"
    "8 \<le> length ?d" "6 + ?n \<le> length ?d"
    using len by simp_all
  moreover have "take (?n - 2) (drop 6 ?d) = enc_Payload e"
    by (simp add: enc_content_bytes)
  ultimately show ?thesis
    using assms unfolding outer_frame_def Let_def n tail by simp
qed

text \<open>The handshake messages of \<open>SimplePacketAssembler\<close>.\<close>

definition simple_wire :: "bytes \<Rightarrow> bytes" where
  "simple_wire payload = (case simple_Encode payload of Inr w \<Rightarrow> w | Inl _ \<Rightarrow> [])"

definition simple_sendable :: "bytes \<Rightarrow> bool" where
  "simple_sendable payload \<longleftrightarrow> length payload \<le> 9998"

lemma simple_wire_content:
  "simple_sendable q \<Longrightarrow> \<exists>e. enc_Payload e = q \<and>
     simple_wire q = enc_content e @ put_le16 (crc16ARC (enc_content e))"
  by (rule exI [of _ "\<lparr>FrameType = 0x00, PayloadType = 0x00, enc_Payload = q\<rparr>"])
    (simp add: simple_wire_def simple_Encode_def simple_sendable_def enc_MarshalBinary_def
      packet_consts Let_def)

interpretation simple: prefix_codec find_outer keep_outer
  "\<lambda>d. decrypt_outcome None (outer_frame d)" "enc_loop None" simple_wire id simple_sendable
proof
  fix m y assume m: "simple_sendable m"
  then obtain e where e: "enc_Payload e = m"
    "simple_wire m = enc_content e @ put_le16 (crc16ARC (enc_content e))"
    using simple_wire_content by blast
  show "find_outer (simple_wire m @ y) = Some (simple_wire m @ y)"
    unfolding e(2) append_assoc by (rule find_outer_content)
  have "outer_frame (simple_wire m @ y) = Emit m y"
    using outer_frame_content [of e y] m e by (simp add: simple_sendable_def)
  then show "decrypt_outcome None (outer_frame (simple_wire m @ y)) = Emit (id m) y"
    by (simp add: decrypt_outcome_def)
qed

text \<open>Draining \<open>Parse\<close> call by call yields the payloads of the unencrypted loop.\<close>

lemma parse_loop_step:
  "parse_loop d =
     (if d = [] then Inl []
      else case outer_body d of
        Break b \<Rightarrow> Inl b | Continue d' \<Rightarrow> parse_loop d' | Emit p r \<Rightarrow> Inr (p, r) | _ \<Rightarrow> Inl [])"
  by (subst parse_loop.simps) (simp split: outcome.split)

lemma outer_body_plain: "outer_body d \<noteq> Return e" "outer_body d \<noteq> Panic"
  by (simp_all add: outer_body_find outer_frame_plain split: option.split)

lemma enc_loop_parse:
  "enc_loop None d =
     (case parse_loop d of
        Inl b \<Rightarrow> Scanned [] b
      | Inr (p, rest) \<Rightarrow> prepend [p] (enc_loop None rest))"
proof (induction d rule: length_induct)
  case (1 d)
  show ?case
  proof (cases "outer_body d")
    case (Continue d')
    with 1 show ?thesis
      by (auto simp: parse_loop_step [of d] enc_loop.simps [of _ d] enc_body_def decrypt_outcome_def
          dest: outer_body_shorter)
  qed (auto simp: parse_loop_step [of d] enc_loop.simps [of _ d] enc_body_def decrypt_outcome_def
      outer_body_plain)
qed

section \<open>Packets over type 7\<close>

definition raw_packet :: "Packet \<Rightarrow> bytes" where
  "raw_packet p = (case MarshalBinary p of Inr raw \<Rightarrow> raw | Inl _ \<Rightarrow> [])"

definition enc_wire :: "EncryptionStrategy option \<Rightarrow> Packet \<Rightarrow> bytes" where
  "enc_wire s p =
     (case enc_Encode \<lparr>enc_buffer = [], enc_encryption = s\<rparr> p of Some (Inr w) \<Rightarrow> w | _ \<Rightarrow> [])"

text \<open>
  The frames the receiving side accepts: the encoder allows payloads of 65533 bytes, the
  reassembly loop only payload lengths up to 10000.
\<close>

definition enc_sendable :: "EncryptionStrategy option \<Rightarrow> Packet \<Rightarrow> bool" where
  "enc_sendable s p \<longleftrightarrow>
     (\<forall>e. s = Some e \<longrightarrow> wf_type7 e) \<and>
     (\<exists>w. enc_Encode \<lparr>enc_buffer = [], enc_encryption = s\<rparr> p = Some (Inr w) \<and> length w \<le> 10006)"

lemma enc_sendable_content:
  assumes "enc_sendable s p"
  obtains e where "enc_wire s p = enc_content e @ put_le16 (crc16ARC (enc_content e))"
    "length (enc_Payload e) \<le> 9998"
    "case s of None \<Rightarrow> enc_Payload e = raw_packet p
       | Some c \<Rightarrow> wf_type7 c \<and> Encrypt c (raw_packet p) = Some (Inr (enc_Payload e))"
proof -
  from assms obtain w where w: "enc_Encode \<lparr>enc_buffer = [], enc_encryption = s\<rparr> p = Some (Inr w)"
    "length w \<le> 10006" and wf: "\<forall>e. s = Some e \<longrightarrow> wf_type7 e"
    by (auto simp: enc_sendable_def)
  from w(1) obtain raw where raw: "MarshalBinary p = Inr raw"
    by (auto simp: enc_Encode_def split: sum.splits)
  with w(1) obtain r where r: "(case s of None \<Rightarrow> Some (Inr raw) | Some c \<Rightarrow> Encrypt c raw) = Some r"
    "(case r of Inl e \<Rightarrow> Inl e
      | Inr p \<Rightarrow> enc_MarshalBinary \<lparr>FrameType = 0x01, PayloadType = 0x00, enc_Payload = p\<rparr>) = Inr w"
    by (auto simp: enc_Encode_def bind_eq_Some_conv)
  then obtain q where q: "(case s of None \<Rightarrow> Some (Inr raw) | Some c \<Rightarrow> Encrypt c raw) = Some (Inr q)"
    "enc_MarshalBinary \<lparr>FrameType = 0x01, PayloadType = 0x00, enc_Payload = q\<rparr> = Inr w"
    by (cases r) auto
  let ?e = "\<lparr>FrameType = 0x01, PayloadType = 0x00, enc_Payload = q\<rparr>"
  show thesis
  proof (rule that [of ?e])
    show "enc_wire s p = enc_content ?e @ put_le16 (crc16ARC (enc_content ?e))"
      using w q by (simp add: enc_wire_def enc_MarshalBinary_Inr)
    show "length (enc_Payload ?e) \<le> 9998" using w q by (simp add: enc_MarshalBinary_Inr)
    show "case s of None \<Rightarrow> enc_Payload ?e = raw_packet p
       | Some c \<Rightarrow> wf_type7 c \<and> Encrypt c (raw_packet p) = Some (Inr (enc_Payload ?e))"
      using q raw wf by (auto simp: raw_packet_def split: option.splits)
  qed
qed

interpretation enc_codec: prefix_codec find_outer keep_outer
  "\<lambda>d. decrypt_outcome s (outer_frame d)" "enc_loop s" "enc_wire s" raw_packet "enc_sendable s" for s
proof
  fix p y assume "enc_sendable s p"
  then obtain e where e: "enc_wire s p = enc_content e @ put_le16 (crc16ARC (enc_content e))"
    "length (enc_Payload e) \<le> 9998"
    "case s of None \<Rightarrow> enc_Payload e = raw_packet p
       | Some c \<Rightarrow> wf_type7 c \<and> Encrypt c (raw_packet p) = Some (Inr (enc_Payload e))"
    by (rule enc_sendable_content)
  show "find_outer (enc_wire s p @ y) = Some (enc_wire s p @ y)"
    unfolding e(1) append_assoc by (rule find_outer_content)
  have o: "outer_frame (enc_wire s p @ y) = Emit (enc_Payload e) y"
    unfolding e(1) append_assoc by (rule outer_frame_content [OF e(2)])
  show "decrypt_outcome s (outer_frame (enc_wire s p @ y)) = Emit (raw_packet p) y"
    unfolding o using e(3) type7.decrypt_encrypt
    by (auto simp: decrypt_outcome_def split: option.splits)
qed

section \<open>Packets over types 0 and 1\<close>

text \<open>
  The header-first loops recompute the length of a packet from its header, which fits
  what \<open>MarshalBinary\<close> writes for the versions without the sentinel bit.
\<close>

definition crc_format :: "Packet \<Rightarrow> bool" where
  "crc_format p \<longleftrightarrow> length (Payload p) \<le> 65535 \<and> Version p \<noteq> 0x04 \<and>
     layout_consistent (Version p) \<and> Version p AND 0x10 = 0"

lemma raw_packet_header:
  assumes "length (Payload p) \<le> 65535"
  obtains tl where "raw_packet p = packetPrefix # Version p #
      ucast (word_of_nat (length (Payload p)) :: 16 word) #
      ucast (drop_bit 8 (word_of_nat (length (Payload p)) :: 16 word)) #
      crc8CCITT (packetPrefix # Version p # put_le16 (word_of_nat (length (Payload p)))) # tl"
proof -
  obtain tl where c: "packet_content p = packetPrefix # Version p #
      ucast (word_of_nat (length (Payload p)) :: 16 word) #
      ucast (drop_bit 8 (word_of_nat (length (Payload p)) :: 16 word)) #
      crc8CCITT (packetPrefix # Version p # put_le16 (word_of_nat (length (Payload p)))) # tl"
    by (rule packet_content_header)
  show thesis
    by (rule that [of "tl @ put_le16 (crc16ARC (packet_content p))"])
      (use assms c in \<open>simp add: raw_packet_def MarshalBinary_def packet_consts Let_def\<close>)
qed

lemma length_raw_packet:
  assumes "crc_format p"
  shows "length (raw_packet p) = 5 + packetBodyLen (Version p) (length (Payload p))"
  using assms length_packet_content [of p]
  by (simp add: crc_format_def raw_packet_def MarshalBinary_def packet_consts Let_def
      packetBodyLen_def payload_start_def)

interpretation pass_codec: prefix_codec find_packet "\<lambda>_. []" pass_frame pass_loop
  raw_packet raw_packet crc_format
proof
  fix p y assume p: "crc_format p"
  let ?n = "length (Payload p)"
  from p have le: "?n \<le> 65535" by (simp add: crc_format_def)
  then obtain tl where h: "raw_packet p = packetPrefix # Version p #
      ucast (word_of_nat ?n :: 16 word) # ucast (drop_bit 8 (word_of_nat ?n :: 16 word)) #
      crc8CCITT (packetPrefix # Version p # put_le16 (word_of_nat ?n)) # tl"
    by (rule raw_packet_header)
  show "find_packet (raw_packet p @ y) = Some (raw_packet p @ y)"
    by (simp add: h find_packet_Cons)
  let ?d = "raw_packet p @ y"
  have len: "unat (le16 (?d ! 2) (?d ! 3)) = ?n" using le by (simp add: h)
  have crc: "crc8CCITT (take 4 ?d) = ?d ! 4" by (simp add: h put_le16_def)
  have v: "?d ! 1 = Version p" by (simp add: h)
  show "pass_frame ?d = Emit (raw_packet p) y"
    using length_raw_packet [OF p] crc unfolding pass_frame_def Let_def len v by simp
qed

definition raw_wire :: "EncryptionStrategy \<Rightarrow> Packet \<Rightarrow> bytes" where
  "raw_wire s p =
     (case raw_Encode \<lparr>raw_buffer = [], raw_encryption = s\<rparr> p of Some (Inr w) \<Rightarrow> w | _ \<Rightarrow> [])"

definition raw_sendable :: "EncryptionStrategy \<Rightarrow> Packet \<Rightarrow> bool" where
  "raw_sendable s p \<longleftrightarrow> wf_type1 s \<and> crc_format p \<and>
     (\<exists>w. raw_Encode \<lparr>raw_buffer = [], raw_encryption = s\<rparr> p = Some (Inr w))"

lemma raw_sendable_content:
  assumes "raw_sendable s p"
  obtains c where "raw_wire s p = take 5 (raw_packet p) @ c"
    "Encrypt s (drop 5 (raw_packet p)) = Some (Inr c)"
proof -
  from assms obtain w where w: "raw_Encode \<lparr>raw_buffer = [], raw_encryption = s\<rparr> p = Some (Inr w)"
    by (auto simp: raw_sendable_def)
  then obtain raw where raw: "MarshalBinary p = Inr raw"
    by (auto simp: raw_Encode_def split: sum.splits)
  have "5 \<le> length raw"
    using assms length_raw_packet [of p] raw by (simp add: raw_sendable_def raw_packet_def)
  with w raw obtain r where r: "Encrypt s (drop 5 raw) = Some r"
    "(case r of Inl e \<Rightarrow> Inl e | Inr c \<Rightarrow> Inr (take 5 raw @ c)) = Inr w"
    by (auto simp: raw_Encode_def go_access bind_eq_Some_conv)
  then obtain c where "Encrypt s (drop 5 raw) = Some (Inr c)" "w = take 5 raw @ c"
    by (cases r) auto
  with w raw show thesis by (intro that [of c]) (simp_all add: raw_packet_def raw_wire_def)
qed

interpretation raw_codec: prefix_codec find_packet "\<lambda>_. []" "raw_frame s" "raw_loop s"
  "raw_wire s" raw_packet "raw_sendable s" for s
proof
  fix p y assume s: "raw_sendable s p"
  then have p: "crc_format p" and wf: "wf_type1 s" by (simp_all add: raw_sendable_def)
  let ?n = "length (Payload p)" and ?i = "packetBodyLen (Version p) (length (Payload p))"
  from p have le: "?n \<le> 65535" by (simp add: crc_format_def)
  then obtain tl where h: "raw_packet p = packetPrefix # Version p #
      ucast (word_of_nat ?n :: 16 word) # ucast (drop_bit 8 (word_of_nat ?n :: 16 word)) #
      crc8CCITT (packetPrefix # Version p # put_le16 (word_of_nat ?n)) # tl"
    by (rule raw_packet_header)
  from s obtain c where w: "raw_wire s p = take 5 (raw_packet p) @ c"
    and c: "Encrypt s (drop 5 (raw_packet p)) = Some (Inr c)"
    by (rule raw_sendable_content)
  show "find_packet (raw_wire s p @ y) = Some (raw_wire s p @ y)"
    by (simp add: w h find_packet_Cons)
  let ?d = "raw_wire s p @ y"
  have body: "length (drop 5 (raw_packet p)) = ?i" using length_raw_packet [OF p] by simp
  have "length (raw_packet p) \<ge> 5" using length_raw_packet [OF p] by simp
  have len: "unat (le16 (?d ! 2) (?d ! 3)) = ?n" using le by (simp add: w h)
  have crc: "crc8CCITT (take 4 ?d) = ?d ! 4" by (simp add: w h put_le16_def)
  have v: "?d ! 1 = Version p" by (simp add: w h)
  have cl: "length c = (?i + 16 - 1) div 16 * 16"
    using type1.encrypt_size [OF wf c] body by simp
  have dec: "Decrypt s c = Some (Inr (drop 5 (raw_packet p) @ zero_padding (drop 5 (raw_packet p))))"
    by (rule type1.decrypt_encrypt [OF wf c])
  have "take (length c) (drop 5 ?d) = c" "drop (5 + length c) ?d = y" "take 5 ?d = take 5 (raw_packet p)"
    "length ?d = 5 + length c + length y"
    using \<open>length (raw_packet p) \<ge> 5\<close> by (simp_all add: w)
  then show "raw_frame s ?d = Emit (raw_packet p) y"
    using crc body dec
    unfolding raw_frame_def Let_def len v cl [symmetric] by simp
qed

end
