(* ===== verification/Assembler.thy ===== *)
theory Assembler
  imports Frame
begin

text \<open>
  The \<open>FrameAssembler\<close> interface of \<open>internal/ecoflow/frame.go\<close>: a run of an assembler
  over the notifications of a session, the contract the provider relies on (the packets
  received do not depend on how the radio cuts the stream, and are the packets sent), its
  interpretation by the three implementations, and the dynamic dispatch over them.
\<close>

section \<open>Runs over notifications\<close>

fun run_notifications ::
  "('a \<Rightarrow> bytes \<Rightarrow> ((go_error + bytes list) \<times> 'a) option) \<Rightarrow> 'a \<Rightarrow> bytes list \<Rightarrow>
   ((go_error + bytes list) \<times> 'a) option" where
  "run_notifications R a [] = Some (Inr [], a)"
| "run_notifications R a (c # cs) =
     (case R a c of
        None \<Rightarrow> None
      | Some (Inl e, a') \<Rightarrow> Some (Inl e, a')
      | Some (Inr ps, a') \<Rightarrow>
          (case run_notifications R a' cs of
             None \<Rightarrow> None
           | Some (Inl e, a'') \<Rightarrow> Some (Inl e, a'')
           | Some (Inr qs, a'') \<Rightarrow> Some (Inr (ps @ qs), a'')))"

lemma reassembled_prepend:
  "reassembled (prepend ps r) =
     (case reassembled r of
        None \<Rightarrow> None | Some (Inl e, b) \<Rightarrow> Some (Inl e, b) | Some (Inr qs, b) \<Rightarrow> Some (Inr (ps @ qs), b))"
  by (cases r) (simp_all add: reassembled_def)

text \<open>
  An assembler that scans its buffer followed by the notification, as all three do, runs
  like the scanner fed with the same notifications.
\<close>

lemma run_notifications_feed:
  assumes step: "\<And>a c. R a c =
      map_option (\<lambda>(r, b). (r, put a b)) (reassembled (loop (key a) (buf a @ c)))"
    and put: "\<And>a b. buf (put a b) = b" "\<And>a b. key (put a b) = key a"
      "\<And>a b c. put (put a b) c = put a c" "\<And>a. put a (buf a) = a"
  shows "run_notifications R a cs =
    map_option (\<lambda>(r, b). (r, put a b)) (reassembled (feed (loop (key a)) (buf a) cs))"
proof (induction cs arbitrary: a)
  case Nil
  then show ?case by (simp add: reassembled_def put)
next
  case (Cons c cs)
  show ?case
  proof (cases "loop (key a) (buf a @ c)")
    case (Scanned ps b)
    have R: "R a c = Some (Inr ps, put a b)" by (simp add: step Scanned reassembled_def)
    have "run_notifications R (put a b) cs =
      map_option (\<lambda>(r, b'). (r, put a b')) (reassembled (feed (loop (key a)) b cs))"
      using Cons.IH [of "put a b"] by (simp add: put)
    then show ?thesis
      by (simp add: R Scanned reassembled_prepend split: option.split sum.split prod.split)
  qed (simp_all add: step reassembled_def)
qed

lemma enc_run:
  "run_notifications enc_Reassemble a cs =
     map_option (\<lambda>(r, b). (r, a\<lparr>enc_buffer := b\<rparr>))
       (reassembled (feed (enc_loop (enc_encryption a)) (enc_buffer a) cs))"
  by (rule run_notifications_feed [where put = "\<lambda>a b. a\<lparr>enc_buffer := b\<rparr>"])
    (simp_all add: enc_Reassemble_def)

lemma pass_run:
  "run_notifications pass_Reassemble a cs =
     map_option (\<lambda>(r, b). (r, a\<lparr>pass_buffer := b\<rparr>))
       (reassembled (feed pass_loop (pass_buffer a) cs))"
  by (rule run_notifications_feed [where put = "\<lambda>a b. a\<lparr>pass_buffer := b\<rparr>" and key = "\<lambda>_. ()"
        and loop = "\<lambda>_. pass_loop"])
    (simp_all add: pass_Reassemble_def)

lemma raw_run:
  "run_notifications raw_Reassemble a cs =
     map_option (\<lambda>(r, b). (r, a\<lparr>raw_buffer := b\<rparr>))
       (reassembled (feed (raw_loop (raw_encryption a)) (raw_buffer a) cs))"
  by (rule run_notifications_feed [where put = "\<lambda>a b. a\<lparr>raw_buffer := b\<rparr>"])
    (simp_all add: raw_Reassemble_def)

section \<open>The contract of the interface\<close>

locale frame_assembler =
  fixes Reassemble :: "'a \<Rightarrow> bytes \<Rightarrow> ((go_error + bytes list) \<times> 'a) option"
    and Encode :: "'a \<Rightarrow> Packet \<Rightarrow> (go_error + bytes) option"
    and fresh :: "'a \<Rightarrow> bool"
    and deliverable :: "'a \<Rightarrow> Packet \<Rightarrow> bool"
    and wire :: "'a \<Rightarrow> Packet \<Rightarrow> bytes"
  assumes cut_invariant: "fresh a \<Longrightarrow> concat cs = concat ds \<Longrightarrow>
      run_notifications Reassemble a cs = run_notifications Reassemble a ds"
    and encode_wire: "fresh a \<Longrightarrow> deliverable a p \<Longrightarrow> Encode a p = Some (Inr (wire a p))"
    and frames_arrive: "fresh a \<Longrightarrow> \<forall>p \<in> set ps. deliverable a p \<Longrightarrow>
      run_notifications Reassemble a [concat (map (wire a) ps)] = Some (Inr (map raw_packet ps), a)"
    and deliverable_version: "deliverable a p \<Longrightarrow>
      Version p \<noteq> 0x04 \<and> layout_consistent (Version p) \<and> length (Payload p) \<le> 65535"
begin

lemma packets_arrive:
  assumes "fresh a" "\<forall>p \<in> set ps. deliverable a p" "concat cs = concat (map (wire a) ps)"
  shows "run_notifications Reassemble a cs = Some (Inr (map raw_packet ps), a)"
  using cut_invariant [of a cs "[concat (map (wire a) ps)]"] frames_arrive assms by simp

lemma deliverable_parses:
  assumes "deliverable a p"
  shows "ParsePacket (raw_packet p) x = Some (Inr (received x p))"
proof -
  from deliverable_version [OF assms] have v: "Version p \<noteq> 0x04" "layout_consistent (Version p)"
    "length (Payload p) \<le> 65535" by auto
  then have "MarshalBinary p = Inr (raw_packet p)"
    by (simp add: raw_packet_def MarshalBinary_def packet_consts Let_def)
  from ParsePacket_MarshalBinary [OF this v(1,2), of "[]"] show ?thesis by simp
qed

text \<open>End to end: what the peer sends is what the session's parser sees, in order.\<close>

lemma packets_received:
  assumes "fresh a" "\<forall>p \<in> set ps. deliverable a p"
    "\<forall>p \<in> set ps. Encode a p = Some (Inr (w p))" "concat cs = concat (map w ps)"
  obtains payloads where "run_notifications Reassemble a cs = Some (Inr payloads, a)"
    "map (\<lambda>b. ParsePacket b x) payloads = map (\<lambda>p. Some (Inr (received x p))) ps"
proof (rule that)
  have "map w ps = map (wire a) ps" using assms encode_wire by force
  with assms show "run_notifications Reassemble a cs = Some (Inr (map raw_packet ps), a)"
    by (intro packets_arrive) auto
  show "map (\<lambda>b. ParsePacket b x) (map raw_packet ps) = map (\<lambda>p. Some (Inr (received x p))) ps"
    using assms(2) deliverable_parses [of a] by simp
qed

end

definition parseable :: "Packet \<Rightarrow> bool" where
  "parseable p \<longleftrightarrow> Version p \<noteq> 0x04 \<and> layout_consistent (Version p)"

lemma enc_sendable_encodes:
  assumes "enc_sendable (enc_encryption a) p" "enc_buffer a = []"
  shows "enc_Encode a p = Some (Inr (enc_wire (enc_encryption a) p))"
    "length (Payload p) \<le> 65535"
proof -
  have a: "a = \<lparr>enc_buffer = [], enc_encryption = enc_encryption a\<rparr>" using assms(2) by simp
  obtain w where w: "enc_Encode a p = Some (Inr w)" using assms(1) a by (auto simp: enc_sendable_def)
  then show "enc_Encode a p = Some (Inr (enc_wire (enc_encryption a) p))"
    using a by (simp add: enc_wire_def)
  show "length (Payload p) \<le> 65535"
    using w by (auto simp: enc_Encode_def MarshalBinary_def packet_consts Let_def split: if_splits)
qed

interpretation enc_assembler: frame_assembler enc_Reassemble enc_Encode
  "\<lambda>a. enc_buffer a = []" "\<lambda>a p. enc_buffer a = [] \<and> enc_sendable (enc_encryption a) p \<and> parseable p"
  "\<lambda>a. enc_wire (enc_encryption a)"
proof (unfold_locales, goal_cases)
  case (1 a cs ds)
  then show ?case unfolding enc_run by (simp add: enc.feed_cut_invariant [OF 1(2)])
next
  case (3 a ps)
  then have "\<forall>p \<in> set ps. enc_sendable (enc_encryption a) p" by simp
  from enc_codec.feed_frames [OF this, of "[concat (map (enc_wire (enc_encryption a)) ps)]"] 3(1)
  show ?case unfolding enc_run by (simp add: reassembled_def del: feed.simps)
next
  case (4 a p)
  then show ?case using enc_sendable_encodes [of a p] by (auto simp: parseable_def)
qed (auto dest: enc_sendable_encodes)

interpretation pass_assembler: frame_assembler pass_Reassemble pass_Encode
  "\<lambda>a. pass_buffer a = []" "\<lambda>a. crc_format" "\<lambda>a. raw_packet"
proof (unfold_locales, goal_cases)
  case (1 a cs ds)
  then show ?case unfolding pass_run by (simp add: pass.feed_cut_invariant [OF 1(2)])
next
  case (2 a p)
  then show ?case
    by (simp add: pass_Encode_def crc_format_def raw_packet_def MarshalBinary_def packet_consts Let_def)
next
  case (3 a ps)
  from pass_codec.feed_frames [OF 3(2), of "[concat (map raw_packet ps)]"] 3(1)
  show ?case unfolding pass_run by (simp add: reassembled_def del: feed.simps)
qed (auto simp: crc_format_def)

interpretation raw_assembler: frame_assembler raw_Reassemble raw_Encode
  "\<lambda>a. raw_buffer a = []" "\<lambda>a p. raw_buffer a = [] \<and> raw_sendable (raw_encryption a) p"
  "\<lambda>a. raw_wire (raw_encryption a)"
proof (unfold_locales, goal_cases)
  case (1 a cs ds)
  then show ?case unfolding raw_run by (simp add: raw.feed_cut_invariant [OF 1(2)])
next
  case (2 a p)
  have a: "a = \<lparr>raw_buffer = [], raw_encryption = raw_encryption a\<rparr>" using 2 by simp
  with 2 obtain w where "raw_Encode a p = Some (Inr w)" by (auto simp: raw_sendable_def)
  with a show ?case by (simp add: raw_wire_def)
next
  case (3 a ps)
  then have "\<forall>p \<in> set ps. raw_sendable (raw_encryption a) p" by simp
  from raw_codec.feed_frames [OF this, of "[concat (map (raw_wire (raw_encryption a)) ps)]"] 3(1)
  show ?case unfolding raw_run by (simp add: reassembled_def del: feed.simps)
qed (auto simp: raw_sendable_def crc_format_def)

section \<open>Dynamic dispatch\<close>

datatype FrameAssembler =
    is_EncAssembler: EncAssembler EncPacketAssembler
  | PassAssembler PassthroughAssembler
  | RawAssembler RawHeaderAssembler

fun WriteWithResponse :: "FrameAssembler \<Rightarrow> bool" where
  "WriteWithResponse (EncAssembler a) = enc_WriteWithResponse a"
| "WriteWithResponse (PassAssembler a) = pass_WriteWithResponse a"
| "WriteWithResponse (RawAssembler a) = raw_WriteWithResponse a"

fun Encode :: "FrameAssembler \<Rightarrow> Packet \<Rightarrow> (go_error + bytes) option" where
  "Encode (EncAssembler a) p = enc_Encode a p"
| "Encode (PassAssembler a) p = pass_Encode a p"
| "Encode (RawAssembler a) p = raw_Encode a p"

fun Reassemble :: "FrameAssembler \<Rightarrow> bytes \<Rightarrow>
    ((go_error + bytes list) \<times> FrameAssembler) option" where
  "Reassemble (EncAssembler a) d = map_option (map_prod id EncAssembler) (enc_Reassemble a d)"
| "Reassemble (PassAssembler a) d = map_option (map_prod id PassAssembler) (pass_Reassemble a d)"
| "Reassemble (RawAssembler a) d = map_option (map_prod id RawAssembler) (raw_Reassemble a d)"

section \<open>Every notification is survived, in bounded memory\<close>

lemma outer_frame_break:
  "outer_frame d = Break b \<Longrightarrow> length b \<le> 10005"
  by (auto simp: outer_frame_def Let_def split: if_splits)

lemma find_outer_length: "find_outer d = Some d0 \<Longrightarrow> length d0 \<le> length d"
  using find_outer_prefix by blast

lemma decrypt_outcome_break: "decrypt_outcome e r = Break b \<longleftrightarrow> r = Break b"
  by (cases r) (auto simp: decrypt_outcome_def split: option.splits sum.splits)

lemma enc_loop_bounded: "enc_loop e d = Scanned ps b \<Longrightarrow> length b \<le> 10005"
  by (erule enc.loop_keeps [rotated 2])
    (auto simp: keep_outer_def decrypt_outcome_break dest: outer_frame_break
      split: option.splits if_splits)

lemma packetBodyLen_bound: "n \<le> 65535 \<Longrightarrow> packetBodyLen v n \<le> 65550"
  by (auto simp: packetBodyLen_def Let_def)

lemma body_len_bound: "packetBodyLen v (unat (w :: 16 word)) \<le> 65550"
  using unat16_less [of w] by (intro packetBodyLen_bound) simp

lemma pass_frame_break: "pass_frame d = Break b \<Longrightarrow> length b \<le> 65556"
  using body_len_bound [of "d ! 1" "le16 (d ! 2) (d ! 3)"]
  by (auto simp: pass_frame_def Let_def split: if_splits)

lemma pass_loop_bounded: "pass_loop d = Scanned ps b \<Longrightarrow> length b \<le> 65556"
  by (erule pass.loop_keeps [rotated 2]) (auto dest: pass_frame_break split: option.splits)

lemma raw_frame_break: "raw_frame e d = Break b \<Longrightarrow> length b \<le> 65556"
proof -
  let ?i = "packetBodyLen (d ! 1) (unat (le16 (d ! 2) (d ! 3)))"
  have "(?i + 16 - 1) div 16 * 16 \<le> 65552"
    using div_le_mono [of "?i + 16 - 1" 65565 16] body_len_bound [of "d ! 1" "le16 (d ! 2) (d ! 3)"]
    by simp
  then show "raw_frame e d = Break b \<Longrightarrow> length b \<le> 65556"
    by (auto simp: raw_frame_def Let_def split: if_splits option.splits sum.splits)
qed

lemma raw_loop_bounded: "raw_loop e d = Scanned ps b \<Longrightarrow> length b \<le> 65556"
  by (erule raw.loop_keeps [rotated 2]) (auto dest: raw_frame_break split: option.splits)

lemma decrypt_outcome_no_panic:
  assumes "\<forall>c. e = Some c \<longrightarrow> wf_type7 c" "r \<noteq> Panic"
  shows "decrypt_outcome e r \<noteq> Panic"
proof (cases e)
  case (Some c)
  with assms(1) have "\<exists>q. Decrypt c p = Some q" for p by (simp add: type7.decrypt_total)
  then have t: "(Decrypt c p = None) = False" for p by simp
  from assms(2) Some show ?thesis
    by (auto simp: decrypt_outcome_def t split: outcome.splits option.splits sum.splits)
qed (use assms in \<open>auto simp: decrypt_outcome_def split: outcome.splits\<close>)

lemma enc_loop_total: "\<forall>c. e = Some c \<longrightarrow> wf_type7 c \<Longrightarrow> enc_loop e d \<noteq> ScanPanic"
  by (intro enc.loop_no_panic)
    (simp add: decrypt_outcome_no_panic outer_frame_plain split: option.split)

lemma pass_loop_total: "pass_loop d \<noteq> ScanPanic"
  by (intro pass.loop_no_panic) (auto simp: pass_frame_def Let_def split: option.splits)

lemma raw_loop_total:
  assumes "wf_type1 e"
  shows "raw_loop e d \<noteq> ScanPanic"
proof (rule raw.loop_no_panic)
  fix d
  have t: "(Decrypt e c = None) = False" for c using type1.decrypt_total [OF assms, of c] by auto
  show "(case find_packet d of None \<Rightarrow> Break [] | Some d0 \<Rightarrow> raw_frame e d0) \<noteq> Panic"
    by (auto simp: raw_frame_def Let_def t split: option.splits sum.splits)
qed

lemma pass_loop_no_error: "pass_loop d \<noteq> ScanError e"
proof (induction d rule: length_induct)
  case (1 d)
  show ?case
  proof (cases "pass_body d")
    case (Emit p d')
    with 1 have "pass_loop d' \<noteq> ScanError e" if "d \<noteq> []"
      using that pass_body_shorter(2) by blast
    then show ?thesis using Emit by (cases "pass_loop d'") (auto simp: pass_loop.simps [of d])
  next
    case (Continue d')
    with 1 show ?thesis using pass_body_shorter(1) by (auto simp: pass_loop.simps [of d])
  qed (auto simp: pass_loop.simps [of d] pass_body_def pass_frame_def Let_def split: option.splits if_splits)
qed

text \<open>The assemblers the provider builds, and what they hold between notifications.\<close>

fun wf_assembler :: "FrameAssembler \<Rightarrow> bool" where
  "wf_assembler (EncAssembler a) = (\<forall>c. enc_encryption a = Some c \<longrightarrow> wf_type7 c)"
| "wf_assembler (PassAssembler a) = True"
| "wf_assembler (RawAssembler a) = wf_type1 (raw_encryption a)"

fun pending :: "FrameAssembler \<Rightarrow> bytes" where
  "pending (EncAssembler a) = enc_buffer a"
| "pending (PassAssembler a) = pass_buffer a"
| "pending (RawAssembler a) = raw_buffer a"

fun with_pending :: "FrameAssembler \<Rightarrow> bytes \<Rightarrow> FrameAssembler" where
  "with_pending (EncAssembler a) b = EncAssembler (a\<lparr>enc_buffer := b\<rparr>)"
| "with_pending (PassAssembler a) b = PassAssembler (a\<lparr>pass_buffer := b\<rparr>)"
| "with_pending (RawAssembler a) b = RawAssembler (a\<lparr>raw_buffer := b\<rparr>)"

fun assembler_loop :: "FrameAssembler \<Rightarrow> bytes \<Rightarrow> bytes scan" where
  "assembler_loop (EncAssembler a) = enc_loop (enc_encryption a)"
| "assembler_loop (PassAssembler a) = pass_loop"
| "assembler_loop (RawAssembler a) = raw_loop (raw_encryption a)"

lemma Reassemble_loop:
  "Reassemble a d = map_option (\<lambda>(r, b). (r, with_pending a b))
     (reassembled (assembler_loop a (pending a @ d)))"
  by (cases a) (auto simp: enc_Reassemble_def pass_Reassemble_def raw_Reassemble_def
      option.map_comp comp_def case_prod_unfold map_prod_def)

lemma with_pending_simps [simp]:
  "wf_assembler (with_pending a b) = wf_assembler a"
  "pending (with_pending a b) = b"
  "with_pending (with_pending a b) c = with_pending a c"
  "with_pending a (pending a) = a"
  "assembler_loop (with_pending a b) = assembler_loop a"
  "WriteWithResponse (with_pending a b) = WriteWithResponse a"
  by (cases a; simp add: enc_WriteWithResponse_def pass_WriteWithResponse_def raw_WriteWithResponse_def)+

lemma assembler_loop_total: "wf_assembler a \<Longrightarrow> assembler_loop a d \<noteq> ScanPanic"
  by (cases a) (simp_all add: enc_loop_total pass_loop_total raw_loop_total)

lemma assembler_loop_bounded: "assembler_loop a d = Scanned ps b \<Longrightarrow> length b \<le> 65556"
  using enc_loop_bounded [of _ d ps b] pass_loop_bounded raw_loop_bounded
  by (cases a) fastforce+

lemma Reassemble_run:
  "run_notifications Reassemble a cs =
     map_option (\<lambda>(r, b). (r, with_pending a b)) (reassembled (feed (assembler_loop a) (pending a) cs))"
proof -
  have "run_notifications Reassemble a cs = map_option (\<lambda>(r, b). (r, with_pending a b))
      (reassembled (feed (assembler_loop (with_pending a [])) (pending a) cs))"
    by (rule run_notifications_feed [where put = with_pending and buf = pending])
      (simp_all add: Reassemble_loop)
  then show ?thesis by simp
qed

section \<open>The contract, over the dynamic dispatch\<close>

lemma dispatch_run:
  "run_notifications Reassemble (EncAssembler a) cs =
     map_option (map_prod id EncAssembler) (run_notifications enc_Reassemble a cs)"
  "run_notifications Reassemble (PassAssembler b) cs =
     map_option (map_prod id PassAssembler) (run_notifications pass_Reassemble b cs)"
  "run_notifications Reassemble (RawAssembler c) cs =
     map_option (map_prod id RawAssembler) (run_notifications raw_Reassemble c cs)"
  unfolding Reassemble_run enc_run pass_run raw_run option.map_comp
  by (simp_all add: comp_def case_prod_unfold map_prod_def)

fun deliverable :: "FrameAssembler \<Rightarrow> Packet \<Rightarrow> bool" where
  "deliverable (EncAssembler a) p =
     (enc_buffer a = [] \<and> enc_sendable (enc_encryption a) p \<and> parseable p)"
| "deliverable (PassAssembler a) p = crc_format p"
| "deliverable (RawAssembler a) p = (raw_buffer a = [] \<and> raw_sendable (raw_encryption a) p)"

fun wire :: "FrameAssembler \<Rightarrow> Packet \<Rightarrow> bytes" where
  "wire (EncAssembler a) = enc_wire (enc_encryption a)"
| "wire (PassAssembler a) = raw_packet"
| "wire (RawAssembler a) = raw_wire (raw_encryption a)"

interpretation assembler: frame_assembler Reassemble Encode "\<lambda>a. pending a = []" deliverable wire
proof (unfold_locales, goal_cases)
  case (1 a cs ds)
  then show ?case
    using enc_assembler.cut_invariant [OF _ 1(2)] pass_assembler.cut_invariant [OF _ 1(2)]
      raw_assembler.cut_invariant [OF _ 1(2)]
    by (cases a) (simp_all add: dispatch_run)
next
  case (2 a p)
  then show ?case
    using enc_assembler.encode_wire pass_assembler.encode_wire raw_assembler.encode_wire
    by (cases a) simp_all
next
  case (3 a ps)
  then show ?case
  proof (cases a)
    case (EncAssembler e)
    with 3 enc_assembler.frames_arrive [of e ps] show ?thesis by (simp add: dispatch_run del: run_notifications.simps)
  next
    case (PassAssembler e)
    with 3 pass_assembler.frames_arrive [of e ps] show ?thesis by (simp add: dispatch_run del: run_notifications.simps)
  next
    case (RawAssembler e)
    with 3 raw_assembler.frames_arrive [of e ps] show ?thesis by (simp add: dispatch_run del: run_notifications.simps)
  qed
next
  case (4 a p)
  then show ?case
    using enc_assembler.deliverable_version pass_assembler.deliverable_version
      raw_assembler.deliverable_version
    by (cases a) fastforce+
qed

text \<open>
  The packets of the supported devices: version 2, 3 or, inside outer frames, the sentinel
  version 0x13, with a payload that fits the 10000 bytes the outer loop accepts, padded.
\<close>

definition ordinary :: "FrameAssembler \<Rightarrow> Packet \<Rightarrow> bool" where
  "ordinary a p \<longleftrightarrow> length (Payload p) \<le> 9963 \<and>
     (Version p = 0x02 \<or> Version p = 0x03 \<or> is_EncAssembler a \<and> Version p = 0x13)"

lemma ordinary_format:
  "ordinary a p \<Longrightarrow> parseable p \<and> (is_EncAssembler a \<or> crc_format p)"
  by (auto simp: ordinary_def crc_format_def parseable_def layout_consistent_def)

lemma parseable_raw:
  assumes "parseable p" "length (Payload p) \<le> 9963"
  shows "MarshalBinary p = Inr (raw_packet p)" "length (raw_packet p) \<le> 9983" "5 \<le> length (raw_packet p)"
proof -
  show "MarshalBinary p = Inr (raw_packet p)"
    using assms by (simp add: raw_packet_def MarshalBinary_def packet_consts Let_def)
  have "length (raw_packet p) = payload_start (Version p) + length (Payload p) + 2"
    using assms length_packet_content [of p]
    by (simp add: parseable_def raw_packet_def MarshalBinary_def packet_consts Let_def)
  then show "length (raw_packet p) \<le> 9983" "5 \<le> length (raw_packet p)"
    using assms(2) by (auto simp: payload_start_def)
qed

lemma ordinary_enc_sendable:
  assumes p: "parseable p" "length (Payload p) \<le> 9963" and s: "\<forall>c. s = Some c \<longrightarrow> wf_type7 c"
  shows "enc_sendable s p"
proof -
  note raw = parseable_raw [OF p]
  obtain q where q: "(case s of None \<Rightarrow> Some (Inr (raw_packet p)) | Some c \<Rightarrow> Encrypt c (raw_packet p)) =
      Some (Inr q)" "length q \<le> 9984"
  proof (cases s)
    case None
    with raw show ?thesis by (intro that [of "raw_packet p"]) simp_all
  next
    case (Some c)
    with s obtain e where e: "Encrypt c (raw_packet p) = Some (Inr e)"
      "length e = (length (raw_packet p) div 16 + 1) * 16"
      using type7_round_total [of c "raw_packet p"] raw(2) by (auto simp: packet_consts)
    have "length (raw_packet p) div 16 \<le> 9983 div 16" using raw(2) by (rule div_le_mono)
    with e Some show ?thesis by (intro that [of e]) simp_all
  qed
  then show ?thesis
    using s raw(1)
    by (simp add: enc_sendable_def enc_Encode_def enc_MarshalBinary_def packet_consts Let_def)
qed

lemma ordinary_raw_sendable:
  assumes p: "parseable p" "length (Payload p) \<le> 9963" "crc_format p" and s: "wf_type1 s"
  shows "raw_sendable s p"
proof -
  note raw = parseable_raw [OF p(1,2)]
  have "length (drop 5 (raw_packet p)) \<le> maxPacketSize" using raw(2) by (simp add: packet_consts)
  then obtain c where "Encrypt s (drop 5 (raw_packet p)) = Some (Inr c)"
    using type1_round_total [OF s] by blast
  then show ?thesis
    using s raw(1,3) p(3) by (simp add: raw_sendable_def raw_Encode_def go_access)
qed

lemma ordinary_deliverable:
  assumes "ordinary a p" "wf_assembler a" "pending a = []"
  shows "deliverable a p"
proof -
  have "length (Payload p) \<le> 9963" using assms(1) by (simp add: ordinary_def)
  with ordinary_format [OF assms(1)] assms(2,3) show ?thesis
    using ordinary_enc_sendable [of p] ordinary_raw_sendable [of p] by (cases a) auto
qed

section \<open>Properties\<close>

text \<open>C2: For each of the three assemblers, well-formed and with an empty buffer, and for packets of
  version 2 or 3, or 0x13 under the encrypted framing, with payloads of at most 9963 bytes (a
  longer frame can be encoded but is dropped, see \<open>oversized_frame_dropped\<close>): every packet encodes,
  and however the concatenated frames are cut into notifications, reassembling them yields, in
  order, packets that parse as \<open>received\<close>, and leaves the assembler as it was.  \<open>received\<close> is the
  packet sent, its payload decoded the way \<open>ParsePacket\<close> does (the mask of the sequence number
  when asked for, the sentinel of version 0x13), and the fields that its version does not
  transmit, or that are zero, at their defaults.\<close>

theorem packets_delivered:
  assumes "wf_assembler a" "pending a = []" "\<forall>p \<in> set ps. ordinary a p"
  shows "\<exists>ws. map (Encode a) ps = map (\<lambda>w. Some (Inr w)) ws \<and>
    (\<forall>cs. concat cs = concat ws \<longrightarrow>
      (\<exists>raws. run_notifications Reassemble a cs = Some (Inr raws, a) \<and>
        map (\<lambda>b. ParsePacket b x) raws = map (\<lambda>p. Some (Inr (received x p))) ps))"
proof (intro exI conjI allI impI)
  have d: "\<forall>p \<in> set ps. deliverable a p" using assms ordinary_deliverable by blast
  then show "map (Encode a) ps = map (\<lambda>w. Some (Inr w)) (map (wire a) ps)"
    using assms(2) assembler.encode_wire by simp
  fix cs assume "concat cs = concat (map (wire a) ps)"
  then show "run_notifications Reassemble a cs = Some (Inr (map raw_packet ps), a)"
    by (intro assembler.packets_arrive assms(2) d)
  show "map (\<lambda>b. ParsePacket b x) (map raw_packet ps) = map (\<lambda>p. Some (Inr (received x p))) ps"
    using d assembler.deliverable_parses [of a] by simp
qed

definition sample_strategy :: EncryptionStrategy where
  "sample_strategy = Type1Encryption (replicate 16 7) (replicate 16 9)"

theorem packets_delivered_witness:
  "\<exists>ws. map (Encode (RawAssembler \<lparr>raw_buffer = [], raw_encryption = sample_strategy\<rparr>))
       [sample_packet, sample_packet] = map (\<lambda>w. Some (Inr w)) ws \<and>
    (\<forall>cs. concat cs = concat ws \<longrightarrow>
      (\<exists>raws. run_notifications Reassemble (RawAssembler \<lparr>raw_buffer = [], raw_encryption = sample_strategy\<rparr>) cs =
          Some (Inr raws, RawAssembler \<lparr>raw_buffer = [], raw_encryption = sample_strategy\<rparr>) \<and>
        map (\<lambda>b. ParsePacket b True) raws =
          map (\<lambda>p. Some (Inr (received True p))) [sample_packet, sample_packet]))"
  by (rule packets_delivered)
    (simp_all add: wf_type1_def wf_strategy_def valid_aes_key_def sample_strategy_def ordinary_def
      sample_packet_def zero_packet_def)

text \<open>C12: Whatever bytes arrive, what an assembler returns over a sequence of notifications, and
  the state it ends in, depend only on their concatenation.\<close>

theorem fragmentation_invariant:
  assumes "pending a = []" "concat cs = concat ds"
  shows "run_notifications Reassemble a cs = run_notifications Reassemble a ds"
  using assms by (rule assembler.cut_invariant)

theorem fragmentation_invariant_witness:
  "run_notifications Reassemble (PassAssembler \<lparr>pass_buffer = []\<rparr>) [[0xAA, 3], [0, 0, 0x1C, 9]] =
   run_notifications Reassemble (PassAssembler \<lparr>pass_buffer = []\<rparr>) [[0xAA], [3, 0], [0, 0x1C], [9]]"
  by (rule fragmentation_invariant) simp_all

text \<open>C7: No notification, from any peer, makes a well-formed assembler panic; it stays
  well-formed, keeps its write mode, and buffers a bounded number of bytes.\<close>

theorem Reassemble_survives:
  assumes "wf_assembler a"
  shows "\<exists>r a'. Reassemble a d = Some (r, a') \<and> wf_assembler a' \<and> length (pending a') \<le> 65556 \<and>
    WriteWithResponse a' = WriteWithResponse a"
proof (cases "assembler_loop a (pending a @ d)")
  case (Scanned ps b)
  then show ?thesis
    using assms assembler_loop_bounded by (auto simp: Reassemble_loop reassembled_def)
qed (use assms assembler_loop_total [OF assms] in \<open>auto simp: Reassemble_loop reassembled_def\<close>)

theorem Reassemble_survives_witness:
  "\<exists>r a'. Reassemble (RawAssembler \<lparr>raw_buffer = [0xAA], raw_encryption = sample_strategy\<rparr>) [1, 2] =
      Some (r, a') \<and> wf_assembler a' \<and> length (pending a') \<le> 65556 \<and> \<not> WriteWithResponse a'"
  using Reassemble_survives [of "RawAssembler \<lparr>raw_buffer = [0xAA], raw_encryption = sample_strategy\<rparr>" "[1, 2]"]
  by (simp add: wf_type1_def wf_strategy_def valid_aes_key_def sample_strategy_def
      raw_WriteWithResponse_def)

text \<open>The encoder frames payloads of up to 65533 bytes, but the receiving loop drops the
  prefix of every frame whose payload is longer than 9998 bytes: such a frame is never
  recognised.\<close>

theorem oversized_frame_dropped:
  assumes "9998 < length (enc_Payload e)" "enc_MarshalBinary e = Inr w"
  shows "outer_body (w @ y) = Continue (drop 2 (w @ y))"
proof -
  let ?n = "length (enc_Payload e) + 2"
  from assms have n: "?n < 65536" and w: "w = enc_content e @ put_le16 (crc16ARC (enc_content e))"
    by (auto simp: enc_MarshalBinary_Inr)
  have "le16 ((w @ y) ! 4) ((w @ y) ! 5) = word_of_nat ?n"
    by (simp add: w enc_content_bytes del: of_nat_add of_nat_Suc add_2_eq_Suc')
  then have len: "unat (le16 ((w @ y) ! 4) ((w @ y) ! 5)) = ?n"
    using n by (simp only: unat_of_nat16)
  have "find_outer (w @ y) = Some (w @ y)"
    unfolding w append_assoc by (rule find_outer_content)
  moreover have "8 \<le> length (w @ y)" using assms(1) by (simp add: w)
  ultimately show ?thesis
    using assms(1) by (simp add: outer_body_find outer_frame_def Let_def len)
qed

theorem oversized_frame_dropped_witness:
  "\<exists>w. enc_MarshalBinary \<lparr>FrameType = 1, PayloadType = 0, enc_Payload = replicate 9999 0\<rparr> = Inr w \<and>
     outer_body w = Continue (drop 2 w)"
  using oversized_frame_dropped
    [of "\<lparr>FrameType = 1, PayloadType = 0, enc_Payload = replicate 9999 0\<rparr>" _ "[]"]
  by (auto simp: enc_MarshalBinary_def packet_consts Let_def)

text \<open>A single stray \<open>0x5A\<close> in front of a short handshake frame hides it: the parser reads
  the length two bytes too early and waits for more data, whatever the payload.\<close>

theorem stray_prefix_hides_frame:
  assumes "0 < length q" "length q \<le> 36"
  shows "simple_Parse \<lparr>simple_buffer = []\<rparr> (0x5A # simple_wire q) =
    (None, \<lparr>simple_buffer = 0x5A # simple_wire q\<rparr>)"
proof -
  let ?e = "\<lparr>FrameType = 0x00, PayloadType = 0x00, enc_Payload = q\<rparr>"
  let ?n = "length q + 2" and ?w = "simple_wire q"
  have w: "?w = enc_content ?e @ put_le16 (crc16ARC (enc_content ?e))"
    using assms(2)
    by (simp add: simple_wire_def simple_Encode_def enc_MarshalBinary_def packet_consts Let_def)
  have d: "0x5A # ?w = 0x5A # 0x5A # 0x5A # 0 # 1 # ucast (word_of_nat ?n :: 16 word) # drop 5 ?w"
    by (simp add: w enc_content_bytes del: of_nat_add of_nat_Suc add_2_eq_Suc')
  have n: "unat (ucast (word_of_nat ?n :: 16 word) :: byte) = ?n"
    using assms by (simp add: unsigned_ucast_eq unsigned_of_nat take_bit_eq_mod
        del: of_nat_add of_nat_Suc add_2_eq_Suc')
  have len: "unat (le16 ((0x5A # ?w) ! 4) ((0x5A # ?w) ! 5)) = 1 + 256 * ?n"
    unfolding d by (simp add: unat_le16 n del: of_nat_add of_nat_Suc add_2_eq_Suc')
  have total: "length (0x5A # ?w) = 9 + length q" by (simp add: w)
  have "outer_frame (0x5A # ?w) = Break (0x5A # ?w)"
    unfolding outer_frame_def Let_def len using assms total by simp
  moreover have "find_outer (0x5A # ?w) = Some (0x5A # ?w)"
    by (simp add: d find_outer_Cons)
  ultimately have "outer_body (0x5A # ?w) = Break (0x5A # ?w)" by (simp add: outer_body_find)
  then show ?thesis by (simp add: simple_Parse_def parse_loop_step)
qed

theorem stray_prefix_hides_frame_witness:
  "simple_Parse \<lparr>simple_buffer = []\<rparr> (0x5A # simple_wire [1]) =
    (None, \<lparr>simple_buffer = 0x5A # simple_wire [1]\<rparr>)"
  by (rule stray_prefix_hides_frame) simp_all

end
