(* ===== verification/Gostr.thy ===== *)
theory Gostr
  imports Prelude "HOL-Library.Char_ord" "HOL-Library.List_Lexorder" "HOL-Library.AList"
    "HOL-Library.Sublist"
begin

text \<open>
  What the program uses of Go's \<open>strings\<close>, \<open>strconv\<close> and \<open>sort\<close> packages, on strings of
  bytes, and Go maps with string keys as association lists.  Strings from the network and
  from advertisements are arbitrary bytes, so the case and white-space functions follow
  Go's UTF-8 rules as far as the program can observe them: the white-space runes and the
  runes whose case mapping is an ASCII letter are treated by their encodings; any other
  non-ASCII rune is left alone, since results are only compared with ASCII words.
\<close>

section \<open>Case\<close>

definition upper_char :: "char \<Rightarrow> char" where
  "upper_char c = (let n = of_char c :: nat in if 97 \<le> n \<and> n \<le> 122 then char_of (n - 32) else c)"

definition lower_char :: "char \<Rightarrow> char" where
  "lower_char c = (let n = of_char c :: nat in if 65 \<le> n \<and> n \<le> 90 then char_of (n + 32) else c)"

text \<open>U+0131 and U+017F have the upper case \<open>I\<close> and \<open>S\<close>.\<close>

fun ToUpper :: "string \<Rightarrow> string" where
  "ToUpper (c # d # cs) =
     (if c = CHR 0xC4 \<and> d = CHR 0xB1 then CHR ''I'' # ToUpper cs
      else if c = CHR 0xC5 \<and> d = CHR 0xBF then CHR ''S'' # ToUpper cs
      else upper_char c # ToUpper (d # cs))"
| "ToUpper [c] = [upper_char c]"
| "ToUpper [] = []"

text \<open>U+0130 has the lower case \<open>i\<close>, U+212A (the Kelvin sign) \<open>k\<close>.\<close>

fun ToLower :: "string \<Rightarrow> string" where
  "ToLower s =
     (case s of
        [] \<Rightarrow> []
      | c # cs \<Rightarrow>
          if take 2 s = [CHR 0xC4, CHR 0xB0] then CHR ''i'' # ToLower (drop 1 cs)
          else if take 3 s = [CHR 0xE2, CHR 0x84, CHR 0xAA] then CHR ''k'' # ToLower (drop 2 cs)
          else lower_char c # ToLower cs)"

declare ToLower.simps [simp del]

text \<open>\<open>strings.EqualFold\<close> against an ASCII word without \<open>K\<close> and \<open>S\<close>.\<close>

definition EqualFold :: "string \<Rightarrow> string \<Rightarrow> bool" where
  "EqualFold s t \<longleftrightarrow> map upper_char s = map upper_char t"

section \<open>White space\<close>

definition ascii_space :: "char \<Rightarrow> bool" where
  "ascii_space c \<longleftrightarrow> (let n = of_char c :: nat in n = 32 \<or> 9 \<le> n \<and> n \<le> 13)"

text \<open>The encodings of the white-space runes beyond ASCII.\<close>

definition wide_spaces :: "string list" where
  "wide_spaces =
     [[CHR 0xC2, CHR 0x85], [CHR 0xC2, CHR 0xA0], [CHR 0xE1, CHR 0x9A, CHR 0x80]] @
     map (\<lambda>c. [CHR 0xE2, CHR 0x80, c])
       [CHR 0x80, CHR 0x81, CHR 0x82, CHR 0x83, CHR 0x84, CHR 0x85, CHR 0x86, CHR 0x87, CHR 0x88,
        CHR 0x89, CHR 0x8A, CHR 0xA8, CHR 0xA9, CHR 0xAF] @
     [[CHR 0xE2, CHR 0x81, CHR 0x9F], [CHR 0xE3, CHR 0x80, CHR 0x80]]"

text \<open>The number of bytes of the white-space rune a string starts with, 0 for none.\<close>

definition space_len :: "string \<Rightarrow> nat" where
  "space_len s =
     (case s of
        [] \<Rightarrow> 0
      | c # _ \<Rightarrow>
          if ascii_space c then 1
          else if take 2 s \<in> set wide_spaces then 2
          else if take 3 s \<in> set wide_spaces then 3
          else 0)"

lemma space_len_bound: "space_len s \<le> length s"
proof (cases s)
  case (Cons c t)
  have "length w \<ge> 2" if "w \<in> set wide_spaces" for w using that by (auto simp: wide_spaces_def)
  from this [of "take 2 s"] have "2 \<le> length s" if "take 2 s \<in> set wide_spaces"
    using that by (auto simp: min_def split: if_splits)
  moreover have "3 \<le> length s" if "take 3 s \<in> set wide_spaces" "take 2 s \<notin> set wide_spaces"
  proof (rule ccontr)
    assume "\<not> 3 \<le> length s"
    then have "take 3 s = take 2 s" by (cases s; cases "tl s"; cases "tl (tl s)") auto
    with that show False by simp
  qed
  ultimately show ?thesis by (simp add: space_len_def Cons split: if_splits)
qed (simp add: space_len_def)

function trim_left :: "string \<Rightarrow> string" where
  "trim_left s = (if space_len s = 0 then s else trim_left (drop (space_len s) s))"
  by pat_completeness auto
termination
proof (relation "measure length")
  fix s assume "space_len s \<noteq> 0"
  then show "(drop (space_len s) s, s) \<in> measure length"
    using space_len_bound [of s] by simp
qed simp

text \<open>From the right, the encodings are matched backwards.\<close>

definition rev_space_len :: "string \<Rightarrow> nat" where
  "rev_space_len r =
     (case r of
        [] \<Rightarrow> 0
      | c # _ \<Rightarrow>
          if ascii_space c then 1
          else if rev (take 2 r) \<in> set wide_spaces then 2
          else if rev (take 3 r) \<in> set wide_spaces then 3
          else 0)"

lemma rev_space_len_bound: "rev_space_len s \<noteq> 0 \<Longrightarrow> s \<noteq> []"
  by (auto simp: rev_space_len_def)

function trim_right_rev :: "string \<Rightarrow> string" where
  "trim_right_rev r =
     (if rev_space_len r = 0 then r else trim_right_rev (drop (rev_space_len r) r))"
  by pat_completeness auto
termination
proof (relation "measure length")
  fix s assume "rev_space_len s \<noteq> 0"
  with rev_space_len_bound [OF this] show "(drop (rev_space_len s) s, s) \<in> measure length" by simp
qed simp

definition TrimSpace :: "string \<Rightarrow> string" where
  "TrimSpace s = rev (trim_right_rev (rev (trim_left s)))"

text \<open>\<open>strings.Fields\<close>: \<open>w\<close> is the field read so far, reversed.\<close>

function fields_from :: "string \<Rightarrow> string \<Rightarrow> string list" where
  "fields_from w s =
     (if s = [] then (if w = [] then [] else [rev w])
      else if space_len s = 0 then fields_from (hd s # w) (tl s)
      else (if w = [] then [] else [rev w]) @ fields_from [] (drop (space_len s) s))"
  by pat_completeness auto
termination
  by (relation "measure (\<lambda>(w, s). length s)") auto

declare trim_left.simps [simp del] trim_right_rev.simps [simp del] fields_from.simps [simp del]

definition Fields :: "string \<Rightarrow> string list" where
  "Fields s = fields_from [] s"

lemma fields_from_nonempty: "\<forall>f \<in> set (fields_from w s). f \<noteq> []"
proof (induction w s rule: fields_from.induct)
  case (1 w s)
  consider "s = []" | "s \<noteq> []" "space_len s = 0" | "s \<noteq> []" "space_len s \<noteq> 0" by blast
  then show ?case
  proof cases
    case 1
    then show ?thesis by (subst fields_from.simps) simp
  next
    case 2
    from "1.IH"(1) [OF 2] show ?thesis by (subst fields_from.simps) (simp only: 2 if_False if_True simp_thms)
  next
    case 3
    from "1.IH"(2) [OF 3] show ?thesis by (subst fields_from.simps) (simp add: 3)
  qed
qed

lemma Fields_nonempty: "f \<in> set (Fields s) \<Longrightarrow> f \<noteq> []"
  using fields_from_nonempty [of "[]" s] by (simp add: Fields_def)

section \<open>Numbers\<close>

fun digits :: "nat \<Rightarrow> string" where
  "digits n = (if n < 10 then [char_of (48 + n)] else digits (n div 10) @ [char_of (48 + n mod 10)])"

declare digits.simps [simp del]

definition Itoa :: "int \<Rightarrow> string" where
  "Itoa n = (if n < 0 then CHR ''-'' # digits (nat (- n)) else digits (nat n))"

text \<open>Reading decimal digits back.\<close>

definition digit_value :: "char \<Rightarrow> nat" where
  "digit_value c = of_char c - 48"

definition read_digits :: "string \<Rightarrow> nat" where
  "read_digits s = foldl (\<lambda>n c. 10 * n + digit_value c) 0 s"

lemma digit_value_char: "d < 10 \<Longrightarrow> digit_value (char_of (48 + d)) = d"
  by (simp add: digit_value_def take_bit_eq_mod of_char_of)

lemma read_digits_digits [simp]: "read_digits (digits n) = n"
proof (induction n rule: digits.induct)
  case (1 n)
  then show ?case
    by (subst digits.simps) (auto simp: read_digits_def digit_value_char)
qed

lemma digits_inject [simp]: "digits m = digits n \<longleftrightarrow> m = n"
  using read_digits_digits by metis

lemma digits_nonempty [simp]: "digits n \<noteq> []"
  by (subst digits.simps) simp

lemma digits_chars: "c \<in> set (digits n) \<Longrightarrow> 48 \<le> (of_char c :: nat) \<and> (of_char c :: nat) \<le> 57"
proof (induction n rule: digits.induct)
  case (1 n)
  then show ?case
    by (subst (asm) (2) digits.simps) (auto simp: of_char_of split: if_splits)
qed

lemma Itoa_inject [simp]: "Itoa m = Itoa n \<longleftrightarrow> m = n"
proof -
  have "CHR ''-'' # s \<noteq> digits k" for s k
  proof
    assume "CHR ''-'' # s = digits k"
    then have "CHR ''-'' \<in> set (digits k)" by (metis list.set_intros(1))
    from digits_chars [OF this] show False by simp
  qed
  then show ?thesis by (auto simp: Itoa_def dest: sym)
qed

section \<open>Maps with string keys\<close>

text \<open>
  A Go map is an association list with distinct keys; ranging over it and sorting gives
  the keys in order, whatever the iteration order was.
\<close>

type_synonym 'v gomap = "(string \<times> 'v) list"

definition map_set :: "'v gomap \<Rightarrow> string \<Rightarrow> 'v \<Rightarrow> 'v gomap" where
  "map_set m k v = AList.update k v m"

definition map_get :: "'v gomap \<Rightarrow> string \<Rightarrow> 'v option" where
  "map_get m k = map_of m k"

definition sorted_keys :: "'v gomap \<Rightarrow> string list" where
  "sorted_keys m = sort (map fst m)"

definition wf_map :: "'v gomap \<Rightarrow> bool" where
  "wf_map m \<longleftrightarrow> distinct (map fst m)"

lemma map_get_set [simp]: "map_get (map_set m k v) k' = (if k' = k then Some v else map_get m k')"
  by (simp add: map_get_def map_set_def update_conv)

lemma map_get_Nil [simp]: "map_get [] k = None"
  by (simp add: map_get_def)

lemma wf_map_set [simp]: "wf_map m \<Longrightarrow> wf_map (map_set m k v)"
  by (simp add: wf_map_def map_set_def distinct_update)

lemma wf_map_Nil [simp]: "wf_map []"
  by (simp add: wf_map_def)

lemma set_sorted_keys [simp]: "set (sorted_keys m) = {k. map_get m k \<noteq> None}"
  by (auto simp: sorted_keys_def map_get_def map_of_eq_None_iff)

lemma sorted_keys_strict: "wf_map m \<Longrightarrow> sorted (sorted_keys m) \<and> distinct (sorted_keys m)"
  by (simp add: sorted_keys_def wf_map_def)

lemma sorted_keys_unique:
  assumes "wf_map m" "wf_map n" "\<And>k. map_get m k = None \<longleftrightarrow> map_get n k = None"
  shows "sorted_keys m = sorted_keys n"
proof (rule sorted_distinct_set_unique)
  show "set (sorted_keys m) = set (sorted_keys n)" using assms(3) by simp
qed (use assms sorted_keys_strict in auto)

end
