(* ===== verification/Store.thy ===== *)
theory Store
  imports Gostr
begin

text \<open>
  \<open>internal/state/state.go\<close>: the store of UPS entries the providers publish to and the
  servers read.  Each method holds the lock for its whole body, so a method is one atomic
  step; what a reader gets is a copy, so entries are values.  Times are nanoseconds.
\<close>

section \<open>The store\<close>

type_synonym time = int

record UPS =
  u_Name :: string
  u_Description :: string
  Vars :: "string gomap"
  UpdatedAt :: time

record Store =
  ups :: "UPS gomap"

definition New :: Store where
  "New = \<lparr>ups = []\<rparr>"

definition Upsert :: "Store \<Rightarrow> string \<Rightarrow> string \<Rightarrow> string gomap \<Rightarrow> time \<Rightarrow> Store" where
  "Upsert s name desc vars now =
     s\<lparr>ups := map_set (ups s) name
        \<lparr>u_Name = name, u_Description = desc, Vars = vars, UpdatedAt = now\<rparr>\<rparr>"

definition Names :: "Store \<Rightarrow> string list" where
  "Names s = sorted_keys (ups s)"

definition Get :: "Store \<Rightarrow> string \<Rightarrow> UPS option" where
  "Get s name = map_get (ups s) name"

text \<open>Every name that is listed is present: \<open>the\<close> reads \<open>s.ups[name]\<close>.\<close>

definition Snapshot :: "Store \<Rightarrow> UPS list" where
  "Snapshot s = map (\<lambda>name. the (map_get (ups s) name)) (sorted_keys (ups s))"

definition FormatInt :: "int \<Rightarrow> string" where
  "FormatInt n = Itoa n"

definition wf_store :: "Store \<Rightarrow> bool" where
  "wf_store s \<longleftrightarrow> wf_map (ups s) \<and> (\<forall>(name, u) \<in> set (ups s). u_Name u = name \<and> wf_map (Vars u))"

section \<open>The contract of a store\<close>

lemma distinct_map_snoc: "distinct (map f (xs @ [x])) \<Longrightarrow> y \<in> set (xs @ [x]) \<Longrightarrow> y \<noteq> x \<Longrightarrow> f y \<noteq> f x"
  by (auto simp: image_iff)

locale device_store =
  fixes upsert :: "'s \<Rightarrow> string \<Rightarrow> string \<Rightarrow> string gomap \<Rightarrow> time \<Rightarrow> 's"
    and get :: "'s \<Rightarrow> string \<Rightarrow> UPS option"
    and names :: "'s \<Rightarrow> string list"
    and wf :: "'s \<Rightarrow> bool"
  assumes wf_upsert: "wf s \<Longrightarrow> wf_map v \<Longrightarrow> wf (upsert s n d v t)"
    and get_upsert: "get (upsert s n d v t) m =
      (if m = n then Some \<lparr>u_Name = n, u_Description = d, Vars = v, UpdatedAt = t\<rparr> else get s m)"
    and set_names: "set (names s) = {n. get s n \<noteq> None}"
    and sorted_names: "wf s \<Longrightarrow> sorted (names s) \<and> distinct (names s)"
    and get_name: "wf s \<Longrightarrow> get s n = Some u \<Longrightarrow> u_Name u = n"
begin

lemma get_same [simp]:
  "get (upsert s n d v t) n = Some \<lparr>u_Name = n, u_Description = d, Vars = v, UpdatedAt = t\<rparr>"
  by (simp add: get_upsert)

lemma get_other [simp]: "m \<noteq> n \<Longrightarrow> get (upsert s n d v t) m = get s m"
  by (simp add: get_upsert)

lemma names_upsert_known:
  "wf s \<Longrightarrow> wf_map v \<Longrightarrow> get s n \<noteq> None \<Longrightarrow> names (upsert s n d v t) = names s"
  by (intro sorted_distinct_set_unique)
    (auto simp: set_names get_upsert sorted_names wf_upsert)

lemma names_by_get:
  "wf s \<Longrightarrow> wf s' \<Longrightarrow> (\<And>n. get s n = None \<longleftrightarrow> get s' n = None) \<Longrightarrow> names s = names s'"
  by (intro sorted_distinct_set_unique) (auto simp: set_names sorted_names)

text \<open>
  A provider publishes one entry per device, in the order of the configuration; of two
  devices with one name the later entry stays.
\<close>

definition publish_all ::
  "('d \<Rightarrow> string) \<Rightarrow> ('d \<Rightarrow> string) \<Rightarrow> ('d \<Rightarrow> string gomap) \<Rightarrow> time \<Rightarrow> 'd list \<Rightarrow> 's \<Rightarrow> 's" where
  "publish_all name desc vars t ds s = foldl (\<lambda>s d. upsert s (name d) (desc d) (vars d) t) s ds"

lemma publish_all_wf:
  "wf s \<Longrightarrow> \<forall>d \<in> set ds. wf_map (vars d) \<Longrightarrow> wf (publish_all name desc vars t ds s)"
  by (induction ds arbitrary: s) (simp_all add: publish_all_def wf_upsert)

lemma publish_all_snoc:
  "publish_all name desc vars t (ds @ [d]) s =
     upsert (publish_all name desc vars t ds s) (name d) (desc d) (vars d) t"
  by (simp add: publish_all_def)

lemma publish_all_other:
  "n \<notin> name ` set ds \<Longrightarrow> get (publish_all name desc vars t ds s) n = get s n"
  by (induction ds rule: rev_induct)
    (simp_all add: publish_all_snoc get_upsert, simp add: publish_all_def)

lemma publish_all_get:
  assumes "distinct (map name ds)" "d \<in> set ds"
  shows "get (publish_all name desc vars t ds s) (name d) =
    Some \<lparr>u_Name = name d, u_Description = desc d, Vars = vars d, UpdatedAt = t\<rparr>"
  using assms
proof (induction ds rule: rev_induct)
  case (snoc x ds)
  then have "name d \<noteq> name x" if "d \<noteq> x" using that by (metis distinct_map_snoc)
  with snoc show ?case by (cases "d = x") (auto simp: publish_all_snoc get_upsert)
qed simp

text \<open>Whatever the names, every published name has an entry of one of its devices.\<close>

lemma publish_all_some:
  assumes "d \<in> set ds"
  shows "\<exists>e \<in> set ds. name e = name d \<and> get (publish_all name desc vars t ds s) (name d) =
    Some \<lparr>u_Name = name e, u_Description = desc e, Vars = vars e, UpdatedAt = t\<rparr>"
  using assms
proof (induction ds rule: rev_induct)
  case (snoc x ds)
  show ?case
  proof (cases "name x = name d")
    case True
    then show ?thesis by (intro bexI [of _ x]) (simp_all add: publish_all_snoc get_upsert)
  next
    case False
    with snoc.prems have "d \<in> set ds" by auto
    from snoc.IH [OF this] False show ?thesis by (auto simp: publish_all_snoc get_upsert)
  qed
qed simp

end

lemma Get_in: "Get s n = Some u \<Longrightarrow> (n, u) \<in> set (ups s)"
  by (simp add: Get_def map_get_def map_of_SomeD)

lemma wf_New: "wf_store New"
  by (simp add: wf_store_def New_def)

lemma wf_Upsert:
  assumes s: "wf_store s" and v: "wf_map v"
  shows "wf_store (Upsert s n d v t)"
proof -
  let ?m = "map_set (ups s) n \<lparr>u_Name = n, u_Description = d, Vars = v, UpdatedAt = t\<rparr>"
  have wf: "wf_map ?m" using s by (simp add: wf_store_def)
  have "u_Name u = k \<and> wf_map (Vars u)" if "(k, u) \<in> set ?m" for k u
  proof -
    from that wf have "map_get ?m k = Some u"
      unfolding wf_map_def map_get_def by (rule map_of_is_SomeI [rotated])
    then show ?thesis
    proof (cases "k = n")
      case False
      with \<open>map_get ?m k = Some u\<close> have "Get s k = Some u" by (simp add: Get_def)
      from Get_in [OF this] s show ?thesis by (auto simp: wf_store_def)
    qed (use v in auto)
  qed
  then show ?thesis using wf by (auto simp: wf_store_def Upsert_def)
qed

interpretation store: device_store Upsert Get Names wf_store
proof (unfold_locales, goal_cases)
  case (1 s v n d t)
  then show ?case by (rule wf_Upsert)
next
  case (4 s)
  then show ?case by (simp add: Names_def wf_store_def sorted_keys_strict)
next
  case (5 s n u)
  then show ?case using Get_in [of s n u] by (auto simp: wf_store_def)
qed (simp_all add: Get_def Upsert_def Names_def)

lemma Snapshot_Names: "Snapshot s = map (\<lambda>n. the (Get s n)) (Names s)"
  by (simp add: Snapshot_def Names_def Get_def)

lemma wf_store_vars: "wf_store s \<Longrightarrow> Get s n = Some u \<Longrightarrow> wf_map (Vars u)"
  using Get_in [of s n u] by (auto simp: wf_store_def)

section \<open>Properties\<close>

type_synonym publication = "string \<times> string \<times> string gomap \<times> time"

fun publish :: "Store \<Rightarrow> publication \<Rightarrow> Store" where
  "publish s (n, d, v, t) = Upsert s n d v t"

fun entry :: "publication \<Rightarrow> UPS" where
  "entry (n, d, v, t) = \<lparr>u_Name = n, u_Description = d, Vars = v, UpdatedAt = t\<rparr>"

definition published :: "publication list \<Rightarrow> Store" where
  "published es = foldl publish New es"

lemma published_snoc: "published (es @ [e]) = publish (published es) e"
  by (simp add: published_def)

lemma published_wf: "\<forall>(n, d, v, t) \<in> set es. wf_map v \<Longrightarrow> wf_store (published es)"
proof (induction es rule: rev_induct)
  case (snoc e es)
  then show ?case by (cases e) (auto simp: published_snoc wf_Upsert)
qed (simp add: published_def wf_New)

lemma published_get:
  "Get (published es) n = map_option entry (find (\<lambda>e. fst e = n) (rev es))"
proof (induction es rule: rev_induct)
  case Nil
  show ?case by (simp add: published_def New_def Get_def)
next
  case (snoc e es)
  then show ?case by (cases e) (auto simp: published_snoc store.get_upsert)
qed

text \<open>C14: After any sequence of publications, each name holds the last entry published under it,
  the listing is exactly the published names in strictly ascending order, and a snapshot is
  the entries of the listing.\<close>

theorem store_last_write:
  assumes "\<forall>(n, d, v, t) \<in> set es. wf_map v"
  shows "Get (published es) n = map_option entry (find (\<lambda>e. fst e = n) (rev es)) \<and>
    set (Names (published es)) = fst ` set es \<and>
    sorted (Names (published es)) \<and> distinct (Names (published es)) \<and>
    map u_Name (Snapshot (published es)) = Names (published es) \<and>
    map Some (Snapshot (published es)) = map (Get (published es)) (Names (published es))"
proof (intro conjI)
  let ?s = "published es"
  have wf: "wf_store ?s" using assms by (rule published_wf)
  show "Get ?s n = map_option entry (find (\<lambda>e. fst e = n) (rev es))" by (rule published_get)
  show "set (Names ?s) = fst ` set es"
    by (auto simp: store.set_names published_get find_None_iff image_iff Bex_def simp del: not_None_eq) blast+
  show "sorted (Names ?s)" "distinct (Names ?s)" using store.sorted_names [OF wf] by simp_all
  have "\<exists>u. Get ?s m = Some u \<and> u_Name u = m" if "m \<in> set (Names ?s)" for m
    using that store.get_name [OF wf] by (auto simp: store.set_names)
  then show "map u_Name (Snapshot ?s) = Names ?s"
    "map Some (Snapshot ?s) = map (Get ?s) (Names ?s)"
    by (auto simp: Snapshot_Names intro!: map_idI) (metis option.sel)+
qed

theorem store_last_write_witness:
  "Get (published [(''b'', ''x'', [], 1), (''a'', ''y'', [], 2), (''b'', ''z'', [(''k'', ''v'')], 3)]) ''b'' =
     Some \<lparr>u_Name = ''b'', u_Description = ''z'', Vars = [(''k'', ''v'')], UpdatedAt = 3\<rparr>"
  using store_last_write [of "[(''b'', ''x'', [], 1), (''a'', ''y'', [], 2), (''b'', ''z'', [(''k'', ''v'')], 3)]" "''b''"]
  by (simp add: wf_map_def)

end
