(* ===== verification/Config.thy ===== *)
theory Config
  imports Gostr
begin

text \<open>
  \<open>internal/config/config.go\<close>: the configuration and \<open>Load\<close>.  Reading the file and the
  YAML and JSON decoders are parameters; what they leave in \<open>c\<close> is arbitrary, so the
  lemmas hold for every configuration file.
\<close>

section \<open>The configuration\<close>

record AuthConfig =
  Username :: string
  Password :: string

record WebConfig =
  Enable :: bool
  web_Listen :: string

record Device =
  d_Name :: string
  d_Description :: string
  d_Model :: string
  d_Serial :: string
  d_MAC :: string
  LowBatteryPercent :: int
  LowRuntimeSeconds :: int
  StaleTimeoutSeconds :: int

record ProviderAuthConfig =
  UserID :: string
  Email :: string
  p_Password :: string
  Region :: string

record ProviderCfg =
  Type :: string
  JSONDir :: string
  Adapter :: string
  ScanTimeoutSeconds :: int
  ConnectTimeoutSeconds :: int
  ReconnectDelaySeconds :: int
  PollSeconds :: int
  p_Auth :: ProviderAuthConfig

record Config =
  Listen :: string
  Auth :: AuthConfig
  Web :: WebConfig
  Devices :: "Device list"
  Provider :: ProviderCfg

definition zero_config :: Config where
  "zero_config = \<lparr>Listen = [], Auth = \<lparr>Username = [], Password = []\<rparr>,
     Web = \<lparr>Enable = False, web_Listen = []\<rparr>, Devices = [],
     Provider = \<lparr>Type = [], JSONDir = [], Adapter = [], ScanTimeoutSeconds = 0,
       ConnectTimeoutSeconds = 0, ReconnectDelaySeconds = 0, PollSeconds = 0,
       p_Auth = \<lparr>UserID = [], Email = [], p_Password = [], Region = []\<rparr>\<rparr>\<rparr>"

section \<open>Load\<close>

definition default_string :: "string \<Rightarrow> string \<Rightarrow> string" where
  "default_string d s = (if s = [] then d else s)"

definition default_int :: "int \<Rightarrow> int \<Rightarrow> int" where
  "default_int d n = (if n \<le> 0 then d else n)"

text \<open>Lines 69 to 95: the defaults.\<close>

definition provider_defaults :: "ProviderCfg \<Rightarrow> ProviderCfg" where
  "provider_defaults p = p\<lparr>
     Type := default_string ''mock'' (Type p),
     Adapter := default_string ''hci0'' (Adapter p),
     ScanTimeoutSeconds := default_int 8 (ScanTimeoutSeconds p),
     ConnectTimeoutSeconds := default_int 20 (ConnectTimeoutSeconds p),
     ReconnectDelaySeconds := default_int 10 (ReconnectDelaySeconds p),
     PollSeconds := default_int 15 (PollSeconds p),
     p_Auth := (p_Auth p)\<lparr>Region := default_string ''auto'' (Region (p_Auth p))\<rparr>\<rparr>"

definition config_defaults :: "Config \<Rightarrow> Config" where
  "config_defaults c = c\<lparr>
     Listen := default_string ''127.0.0.1:3493'' (Listen c),
     Web := (if Enable (Web c) \<and> web_Listen (Web c) = []
       then (Web c)\<lparr>web_Listen := ''127.0.0.1:8080''\<rparr> else Web c),
     Provider := provider_defaults (Provider c)\<rparr>"

text \<open>Lines 104 to 120: the loop over the devices, which fills in their defaults in place.\<close>

definition device_defaults :: "Device \<Rightarrow> Device" where
  "device_defaults d = d\<lparr>
     LowBatteryPercent := default_int 20 (LowBatteryPercent d),
     LowRuntimeSeconds := default_int 300 (LowRuntimeSeconds d),
     StaleTimeoutSeconds := default_int 60 (StaleTimeoutSeconds d)\<rparr>"

fun check_devices :: "string \<Rightarrow> nat \<Rightarrow> Device list \<Rightarrow> go_error + Device list" where
  "check_devices ty i [] = Inr []"
| "check_devices ty i (d # ds) =
     (if d_Name d = [] then Inl (ConfigError (DeviceNameRequired i))
      else if ty = ''eco-ble'' \<and> d_MAC d = [] then Inl (ConfigError (DeviceMacRequired i))
      else case check_devices ty (Suc i) ds of
        Inl e \<Rightarrow> Inl e
      | Inr ds' \<Rightarrow> Inr (device_defaults d # ds'))"

definition provider_types :: "string list" where
  "provider_types = [''mock'', ''json-dir'', ''eco-ble'']"

definition auth_missing :: "ProviderCfg \<Rightarrow> bool" where
  "auth_missing p \<longleftrightarrow> UserID (p_Auth p) = [] \<and> (Email (p_Auth p) = [] \<or> p_Password (p_Auth p) = [])"

definition finish_load :: "Config \<Rightarrow> go_error + Config" where
  "finish_load c0 =
     (let c = config_defaults c0; ty = Type (Provider c) in
      if Devices c = [] then Inl (ConfigError NoDevices)
      else if ty \<notin> set provider_types then Inl (ConfigError (UnsupportedProviderType ty))
      else case check_devices ty 0 (Devices c) of
        Inl e \<Rightarrow> Inl e
      | Inr ds \<Rightarrow>
          (if ty = ''eco-ble'' \<and> auth_missing (Provider c) then Inl (ConfigError ProviderAuthRequired)
           else Inr (c\<lparr>Devices := ds\<rparr>)))"

text \<open>
  \<open>ReadFile\<close>, \<open>yaml.Unmarshal\<close> and \<open>json.Unmarshal\<close>: a decoder returns its error, if any,
  and the value it leaves in \<open>c\<close>, which is partly filled when it fails.
\<close>

type_synonym decoder = "bytes \<Rightarrow> Config \<Rightarrow> go_error option \<times> Config"

definition Load :: "(string \<Rightarrow> go_error + bytes) \<Rightarrow> decoder \<Rightarrow> decoder \<Rightarrow> string \<Rightarrow> go_error + Config" where
  "Load ReadFile yaml json path =
     (case ReadFile path of
        Inl e \<Rightarrow> Inl e
      | Inr b \<Rightarrow>
          (case yaml b zero_config of
             (None, c) \<Rightarrow> finish_load c
           | (Some _, c) \<Rightarrow>
               (case json b c of
                  (Some e, _) \<Rightarrow> Inl e
                | (None, c') \<Rightarrow> finish_load c')))"

section \<open>Properties of the defaults\<close>

lemma default_string_idem [simp]:
  "default_string d s = [] \<longleftrightarrow> s = [] \<and> d = []" "s \<noteq> [] \<Longrightarrow> default_string d s = s"
  by (auto simp: default_string_def)

lemma default_int_pos [simp]: "0 < d \<Longrightarrow> 0 < default_int d n" "0 < n \<Longrightarrow> default_int d n = n"
  by (auto simp: default_int_def)

definition valid_device :: "string \<Rightarrow> Device \<Rightarrow> bool" where
  "valid_device ty d \<longleftrightarrow> d_Name d \<noteq> [] \<and> (ty = ''eco-ble'' \<longrightarrow> d_MAC d \<noteq> []) \<and>
     0 < LowBatteryPercent d \<and> 0 < LowRuntimeSeconds d \<and> 0 < StaleTimeoutSeconds d"

definition valid_config :: "Config \<Rightarrow> bool" where
  "valid_config c \<longleftrightarrow> (let p = Provider c in
     Listen c \<noteq> [] \<and> (Enable (Web c) \<longrightarrow> web_Listen (Web c) \<noteq> []) \<and>
     Type p \<in> set provider_types \<and> Adapter p \<noteq> [] \<and> Region (p_Auth p) \<noteq> [] \<and>
     0 < ScanTimeoutSeconds p \<and> 0 < ConnectTimeoutSeconds p \<and> 0 < ReconnectDelaySeconds p \<and>
     0 < PollSeconds p \<and> Devices c \<noteq> [] \<and> (\<forall>d \<in> set (Devices c). valid_device (Type p) d) \<and>
     (Type p = ''eco-ble'' \<longrightarrow> \<not> auth_missing p))"

lemma device_defaults_fills:
  "d_Name d \<noteq> [] \<Longrightarrow> (ty = ''eco-ble'' \<longrightarrow> d_MAC d \<noteq> []) \<Longrightarrow> valid_device ty (device_defaults d)"
  by (simp add: device_defaults_def valid_device_def)

lemma check_devices_valid:
  "check_devices ty i ds = Inr ds' \<Longrightarrow>
   ds' = map device_defaults ds \<and> (\<forall>d \<in> set ds'. valid_device ty d)"
proof (induction ds arbitrary: i ds')
  case (Cons d ds)
  then obtain es where "d_Name d \<noteq> []" "ty = ''eco-ble'' \<longrightarrow> d_MAC d \<noteq> []"
    "check_devices ty (Suc i) ds = Inr es" "ds' = device_defaults d # es"
    by (auto simp del: One_nat_def split: if_splits sum.splits)
  with Cons.IH [of "Suc i" es] device_defaults_fills [of d ty] show ?case by simp
qed simp

lemma device_defaults_valid: "valid_device ty d \<Longrightarrow> device_defaults d = d"
  by (simp add: valid_device_def device_defaults_def)

lemma check_devices_Inr:
  "\<forall>d \<in> set ds. d_Name d \<noteq> [] \<and> (ty = ''eco-ble'' \<longrightarrow> d_MAC d \<noteq> []) \<Longrightarrow>
   check_devices ty i ds = Inr (map device_defaults ds)"
  by (induction ds arbitrary: i) auto

lemma provider_defaults_fills:
  "provider_defaults p = q \<Longrightarrow> Adapter q \<noteq> [] \<and> Region (p_Auth q) \<noteq> [] \<and>
     0 < ScanTimeoutSeconds q \<and> 0 < ConnectTimeoutSeconds q \<and> 0 < ReconnectDelaySeconds q \<and>
     0 < PollSeconds q"
  by (auto simp: provider_defaults_def)

lemma config_defaults_fills:
  "config_defaults c = d \<Longrightarrow> Listen d \<noteq> [] \<and> (Enable (Web d) \<longrightarrow> web_Listen (Web d) \<noteq> []) \<and>
     Provider d = provider_defaults (Provider c)"
  by (auto simp: config_defaults_def split: if_splits)

lemma finish_load_valid:
  assumes "finish_load c0 = Inr c'"
  shows "valid_config c'"
proof -
  define c where "c = config_defaults c0"
  from assms obtain ds where "Devices c \<noteq> []" "Type (Provider c) \<in> set provider_types"
    and ds: "check_devices (Type (Provider c)) 0 (Devices c) = Inr ds"
    and "\<not> (Type (Provider c) = ''eco-ble'' \<and> auth_missing (Provider c))" "c' = c\<lparr>Devices := ds\<rparr>"
    by (auto simp: finish_load_def Let_def c_def [symmetric] split: if_splits sum.splits)
  moreover from check_devices_valid [OF ds] have "ds = map device_defaults (Devices c)"
    "\<forall>d \<in> set ds. valid_device (Type (Provider c)) d" by blast+
  ultimately show ?thesis
    using config_defaults_fills [OF c_def [symmetric]] provider_defaults_fills [OF refl, of "Provider c0"]
    by (simp add: valid_config_def Let_def)
qed

lemma provider_defaults_valid:
  "valid_config c \<Longrightarrow> provider_defaults (Provider c) = Provider c"
  by (auto simp: valid_config_def provider_defaults_def provider_types_def Let_def)

lemma finish_load_fixed:
  assumes "valid_config c"
  shows "finish_load c = Inr c"
proof -
  have "config_defaults c = c"
    using assms provider_defaults_valid [OF assms]
    by (simp add: valid_config_def config_defaults_def Let_def)
  moreover have "map device_defaults (Devices c) = Devices c"
    using assms device_defaults_valid by (auto simp: valid_config_def Let_def intro: map_idI)
  moreover have "check_devices (Type (Provider c)) 0 (Devices c) = Inr (map device_defaults (Devices c))"
    using assms by (intro check_devices_Inr) (auto simp: valid_config_def valid_device_def Let_def)
  ultimately show ?thesis
    using assms by (simp add: finish_load_def valid_config_def Let_def)
qed

section \<open>Properties\<close>

text \<open>C32: Whatever the file holds and however the decoders behave, a configuration \<open>Load\<close> returns
  is valid: addresses, timeouts, thresholds and the provider type are set, every device has a
  name (and a MAC for the BLE provider), and the BLE provider has credentials.\<close>

theorem Load_valid:
  assumes "Load ReadFile yaml json path = Inr c"
  shows "valid_config c"
  using assms finish_load_valid by (auto simp: Load_def split: sum.splits prod.splits option.splits)

text \<open>Loading a file that decodes to a valid configuration returns it unchanged, so the
  defaults are idempotent.\<close>

theorem Load_fixed:
  assumes "valid_config c" "ReadFile path = Inr b" "yaml b zero_config = (None, c)"
  shows "Load ReadFile yaml json path = Inr c"
  using assms finish_load_fixed by (simp add: Load_def)

definition sample_device :: Device where
  "sample_device = \<lparr>d_Name = ''delta2'', d_Description = ''living room'', d_Model = [], d_Serial = [],
     d_MAC = ''AA:BB:CC:DD:EE:FF'', LowBatteryPercent = 0, LowRuntimeSeconds = 0, StaleTimeoutSeconds = 0\<rparr>"

definition sample_file :: Config where
  "sample_file = zero_config\<lparr>Devices := [sample_device]\<rparr>"

definition sample_config :: Config where
  "sample_config = (config_defaults sample_file)\<lparr>Devices := [device_defaults sample_device]\<rparr>"

lemma sample_loads:
  "Load (\<lambda>_. Inr []) (\<lambda>_ _. (None, sample_file)) (\<lambda>_ c. (None, c)) ''f'' = Inr sample_config"
  by (simp add: Load_def finish_load_def sample_config_def sample_file_def sample_device_def
      config_defaults_def provider_defaults_def zero_config_def default_string_def provider_types_def)

theorem Load_valid_witness: "valid_config sample_config"
  using sample_loads by (rule Load_valid)

theorem Load_fixed_witness:
  "Load (\<lambda>_. Inr []) (\<lambda>_ _. (None, sample_config)) (\<lambda>_ c. (None, c)) ''f'' = Inr sample_config"
proof (rule Load_fixed)
  show "valid_config sample_config"
    by (simp add: sample_config_def sample_file_def sample_device_def valid_config_def valid_device_def
        config_defaults_def provider_defaults_def device_defaults_def zero_config_def
        default_string_def default_int_def provider_types_def)
qed simp_all

end
