(* ===== verification/Device_Types.thy ===== *)
theory Device_Types
  imports Complex_Main Gostr Packet
begin

text \<open>
  \<open>internal/ecoflow/types.go\<close> and \<open>advertisement.go\<close>: the advertisement record, the
  telemetry values and their merge, the table of supported device families and the
  descriptor a session is built from.
\<close>

section \<open>Advertisements\<close>

record ManufacturerData =
  CompanyID :: "16 word"
  Data :: bytes

record Discovery =
  disc_MAC :: string
  LocalName :: string
  ManufacturerData :: "ManufacturerData list"

record ScanRecord =
  ProtoVersion :: byte
  SerialNumber :: string
  Status :: byte
  ProductType :: byte
  CapabilityFlags :: byte
  scan_Encrypt :: bool
  SupportVerified :: bool
  Verified :: bool
  scan_EncryptType :: nat
  Support5G :: bool
  ActiveFlag :: bool

definition ecoFlowManufacturerID :: "16 word" where
  "ecoFlowManufacturerID = 0xB5B5"

definition parseScanRecordBytes :: "bytes \<Rightarrow> go_error + ScanRecord" where
  "parseScanRecordBytes data =
     (if length data < 17 then Inl (AdvertError ManufacturerDataTooShort)
      else
        let status = (if length data > 17 then data ! 17 else 0);
            flags = (if length data > 22 then data ! 22 else 0x38)
        in Inr \<lparr>
             ProtoVersion = data ! 0,
             SerialNumber = string_of_bytes (take 16 (drop 1 data)),
             Status = status,
             ProductType = (if length data > 18 then data ! 18 else 0),
             CapabilityFlags = flags,
             scan_Encrypt = (flags AND 0x01 \<noteq> 0),
             SupportVerified = (flags AND 0x02 \<noteq> 0),
             Verified = (flags AND 0x04 \<noteq> 0),
             scan_EncryptType = unat (drop_bit 3 (flags AND 0x38)),
             Support5G = (flags AND 0x40 \<noteq> 0),
             ActiveFlag = (drop_bit 7 status AND 0x01 = 1)\<rparr>)"

fun ParseScanRecord :: "ManufacturerData list \<Rightarrow> go_error + ScanRecord" where
  "ParseScanRecord [] = Inl (AdvertError MissingManufacturerData)"
| "ParseScanRecord (md # mds) =
     (if CompanyID md \<noteq> ecoFlowManufacturerID then ParseScanRecord mds
      else parseScanRecordBytes (Data md))"

section \<open>Telemetry\<close>

text \<open>
  A pointer field is an \<open>option\<close>.  \<open>Clone\<close> and \<open>Merge\<close> copy what the pointers point
  to, so telemetry behaves as a value.
\<close>

record Telemetry =
  Charge :: "int option"
  RuntimeSeconds :: "int option"
  InputPower :: "int option"
  OutputPower :: "int option"
  InputPresent :: "bool option"

definition no_telemetry :: Telemetry where
  "no_telemetry = \<lparr>Charge = None, RuntimeSeconds = None, InputPower = None, OutputPower = None,
     InputPresent = None\<rparr>"

definition clone :: "'a option \<Rightarrow> 'a option" where
  "clone v = (case v of None \<Rightarrow> None | Some x \<Rightarrow> Some x)"

definition Clone :: "Telemetry \<Rightarrow> Telemetry" where
  "Clone t = \<lparr>Charge = clone (Charge t), RuntimeSeconds = clone (RuntimeSeconds t),
     InputPower = clone (InputPower t), OutputPower = clone (OutputPower t),
     InputPresent = clone (InputPresent t)\<rparr>"

definition Merge :: "Telemetry \<Rightarrow> Telemetry \<Rightarrow> Telemetry" where
  "Merge t other =
     (let out = Clone t;
          out = (if Charge other \<noteq> None then out\<lparr>Charge := clone (Charge other)\<rparr> else out);
          out = (if RuntimeSeconds other \<noteq> None
            then out\<lparr>RuntimeSeconds := clone (RuntimeSeconds other)\<rparr> else out);
          out = (if InputPower other \<noteq> None then out\<lparr>InputPower := clone (InputPower other)\<rparr> else out);
          out = (if OutputPower other \<noteq> None
            then out\<lparr>OutputPower := clone (OutputPower other)\<rparr> else out);
          out = (if InputPresent other \<noteq> None
            then out\<lparr>InputPresent := clone (InputPresent other)\<rparr> else out)
      in out)"

definition Empty :: "Telemetry \<Rightarrow> bool" where
  "Empty t \<longleftrightarrow> Charge t = None \<and> RuntimeSeconds t = None \<and> InputPower t = None \<and>
     OutputPower t = None \<and> InputPresent t = None"

section \<open>The table of device families\<close>

datatype ProfileKind =
    ProfileDelta2 | ProfileRiver2 | ProfileRiver3 | ProfileDelta3 | ProfileDeltaPro3
  | ProfileDeltaProUltra

text \<open>The handler a profile's \<open>NewHandler\<close> builds.\<close>

datatype HandlerCtor = CtorV2 ProfileKind | CtorV3 ProfileKind

record profileSpec =
  Kind :: ProfileKind
  spec_Name :: string
  Prefixes :: "string list"
  spec_PacketVersion :: byte
  spec_XORPayload :: bool
  spec_SupportsTime :: bool
  NewHandler :: HandlerCtor

definition supportedProfiles :: "profileSpec list" where
  "supportedProfiles = [
     \<lparr>Kind = ProfileDelta2, spec_Name = ''EcoFlow DELTA 2 family'',
      Prefixes = [''R331'', ''R335'', ''R351'', ''R354'', ''P341''],
      spec_PacketVersion = 0x02, spec_XORPayload = True, spec_SupportsTime = False,
      NewHandler = CtorV2 ProfileDelta2\<rparr>,
     \<lparr>Kind = ProfileRiver2, spec_Name = ''EcoFlow RIVER 2 family'',
      Prefixes = [''R601'', ''R603'', ''R611'', ''R613'', ''R621'', ''R623''],
      spec_PacketVersion = 0x02, spec_XORPayload = False, spec_SupportsTime = False,
      NewHandler = CtorV2 ProfileRiver2\<rparr>,
     \<lparr>Kind = ProfileRiver3, spec_Name = ''EcoFlow RIVER 3 family'',
      Prefixes = [''R631'', ''R634'', ''R635'', ''R651'', ''R653'', ''R654'', ''R655''],
      spec_PacketVersion = 0x13, spec_XORPayload = True, spec_SupportsTime = True,
      NewHandler = CtorV3 ProfileRiver3\<rparr>,
     \<lparr>Kind = ProfileDelta3, spec_Name = ''EcoFlow DELTA 3 family'',
      Prefixes = [''P231'', ''D361'', ''P351'', ''D3N1'', ''D3M1'', ''D3E1'', ''D3U1'', ''D3UP'',
        ''PR11'', ''PR12'', ''PR21''],
      spec_PacketVersion = 0x13, spec_XORPayload = True, spec_SupportsTime = True,
      NewHandler = CtorV3 ProfileDelta3\<rparr>,
     \<lparr>Kind = ProfileDeltaPro3, spec_Name = ''EcoFlow DELTA Pro 3 family'',
      Prefixes = [''MR51'', ''MR53'', ''MR54''],
      spec_PacketVersion = 0x13, spec_XORPayload = True, spec_SupportsTime = True,
      NewHandler = CtorV3 ProfileDeltaPro3\<rparr>,
     \<lparr>Kind = ProfileDeltaProUltra, spec_Name = ''EcoFlow DELTA Pro Ultra'',
      Prefixes = [''Y711''],
      spec_PacketVersion = 0x13, spec_XORPayload = True, spec_SupportsTime = True,
      NewHandler = CtorV3 ProfileDeltaProUltra\<rparr>]"

definition serialPrefix :: "string \<Rightarrow> string" where
  "serialPrefix serial =
     (if length serial \<ge> 4 then take 4 serial
      else if length serial \<ge> 2 then take 2 serial
      else serial)"

definition matches :: "string \<Rightarrow> profileSpec \<Rightarrow> bool" where
  "matches serial spec \<longleftrightarrow> list_ex (\<lambda>p. prefix p serial) (Prefixes spec)"

definition lookupProfile :: "string \<Rightarrow> go_error + profileSpec" where
  "lookupProfile serial0 =
     (let serial = ToUpper serial0 in
      case find (matches serial) supportedProfiles of
        Some spec \<Rightarrow> Inr spec
      | None \<Rightarrow> Inl (AdvertError (UnsupportedSerialPrefix (serialPrefix serial))))"

record DeviceDescriptor =
  Serial :: string
  Model :: string
  PacketVersion :: byte
  EncryptType :: nat
  AuthHeaderDst :: byte
  SupportsWake :: bool
  SupportsTime :: bool
  XORPayload :: bool
  Profile :: ProfileKind
  desc_Discovery :: Discovery
  desc_ScanRecord :: ScanRecord
  ProfileName :: string
  UnsupportedMsg :: string

definition resolveDescriptor :: "Discovery \<Rightarrow> go_error + DeviceDescriptor" where
  "resolveDescriptor discovery =
     (case ParseScanRecord (ManufacturerData discovery) of
        Inl e \<Rightarrow> Inl e
      | Inr record \<Rightarrow>
          (case lookupProfile (SerialNumber record) of
             Inl e \<Rightarrow> Inl e
           | Inr spec \<Rightarrow> Inr \<lparr>
               Serial = SerialNumber record,
               Model = spec_Name spec,
               PacketVersion = spec_PacketVersion spec,
               EncryptType = scan_EncryptType record,
               AuthHeaderDst = 0x35,
               SupportsWake = True,
               SupportsTime = spec_SupportsTime spec,
               XORPayload = spec_XORPayload spec,
               Profile = Kind spec,
               desc_Discovery = discovery,
               desc_ScanRecord = record,
               ProfileName = spec_Name spec,
               UnsupportedMsg = []\<rparr>))"

definition handler_ctor :: "ProfileKind \<Rightarrow> HandlerCtor option" where
  "handler_ctor kind = map_option NewHandler (find (\<lambda>spec. Kind spec = kind) supportedProfiles)"

section \<open>Numbers\<close>

text \<open>
  What depends on the machine: the width of \<open>int\<close> (the daemon is built for 64-bit hosts and
  for 32-bit ARM) and the result of converting a float that does not fit, which Go leaves
  to the implementation.  A \<open>float32\<close> is its IEEE-754 bits.
\<close>

record target =
  int_bits :: nat
  float_to_int :: "32 word \<Rightarrow> int"

text \<open>A 64-bit host that converts out-of-range floats to the least integer, as amd64 does.\<close>

definition host64 :: target where
  "host64 = \<lparr>int_bits = 64, float_to_int = (\<lambda>_. - (2 ^ 63))\<rparr>"

definition fits_int :: "target \<Rightarrow> int \<Rightarrow> bool" where
  "fits_int tgt n \<longleftrightarrow> - (2 ^ (int_bits tgt - 1)) \<le> n \<and> n < 2 ^ (int_bits tgt - 1)"

text \<open>The conversion \<open>int(x)\<close> of an integer: two's complement at the width of \<open>int\<close>.\<close>

definition to_int :: "target \<Rightarrow> int \<Rightarrow> int" where
  "to_int tgt n = signed_take_bit (int_bits tgt - 1) n"

definition f32_exponent :: "32 word \<Rightarrow> nat" where
  "f32_exponent b = unat (drop_bit 23 b AND 0xFF)"

definition f32_mantissa :: "32 word \<Rightarrow> nat" where
  "f32_mantissa b = unat (b AND 0x7FFFFF) + (if f32_exponent b = 0 then 0 else 2 ^ 23)"

definition f32_negative :: "32 word \<Rightarrow> bool" where
  "f32_negative b \<longleftrightarrow> bit b 31"

definition f32_finite :: "32 word \<Rightarrow> bool" where
  "f32_finite b \<longleftrightarrow> f32_exponent b \<noteq> 255"

text \<open>\<open>v > 0\<close>: false for zeros, negative numbers and NaNs.\<close>

definition f32_positive :: "32 word \<Rightarrow> bool" where
  "f32_positive b \<longleftrightarrow> 0 < b \<and> b \<le> 0x7F800000"

text \<open>\<open>math.Round\<close>: half away from zero; \<open>m * 2 ^ e / 2 ^ 150\<close> is the absolute value.\<close>

definition round_scaled :: "nat \<Rightarrow> nat \<Rightarrow> nat" where
  "round_scaled m e = (if e \<ge> 150 then m * 2 ^ (e - 150) else (m + 2 ^ (149 - e)) div 2 ^ (150 - e))"

definition f32_round :: "32 word \<Rightarrow> int" where
  "f32_round b =
     (let r = int (round_scaled (f32_mantissa b) (max 1 (f32_exponent b)))
      in if f32_negative b then - r else r)"

definition roundFloat32 :: "target \<Rightarrow> 32 word \<Rightarrow> int" where
  "roundFloat32 tgt b =
     (if f32_finite b \<and> fits_int tgt (f32_round b) then f32_round b else float_to_int tgt b)"

definition clampNonNegative :: "int \<Rightarrow> int" where
  "clampNonNegative v = (if v < 0 then 0 else v)"

text \<open>\<open>staleAfter\<close>; the zero time is \<open>None\<close>, times and durations are nanoseconds.\<close>

definition staleAfter :: "int option \<Rightarrow> int \<Rightarrow> int \<Rightarrow> bool" where
  "staleAfter lastFresh timeout now =
     (case lastFresh of None \<Rightarrow> True | Some t \<Rightarrow> now - t \<ge> timeout)"

section \<open>Advertisements\<close>

lemma three_bits: "unat (b AND 7 :: byte) \<le> 7"
  using word_and_le1 [of b 7] by (simp add: word_le_nat_alt)

lemma parseScanRecordBytes_Inr:
  "parseScanRecordBytes data = Inr r \<Longrightarrow> length (SerialNumber r) = 16 \<and> scan_EncryptType r \<le> 7 \<and>
   SerialNumber r = string_of_bytes (take 16 (drop 1 data)) \<and> 17 \<le> length data"
  by (auto simp: parseScanRecordBytes_def Let_def string_of_bytes_def three_bits split: if_splits)

lemma ParseScanRecord_Inr:
  "ParseScanRecord mds = Inr r \<Longrightarrow>
   \<exists>md \<in> set mds. CompanyID md = ecoFlowManufacturerID \<and> parseScanRecordBytes (Data md) = Inr r"
  by (induction mds) (auto split: if_splits)

section \<open>The table\<close>

lemma prefixes_length: "spec \<in> set supportedProfiles \<Longrightarrow> p \<in> set (Prefixes spec) \<Longrightarrow> length p = 4"
  by (auto simp: supportedProfiles_def)

lemma prefixes_distinct: "distinct (concat (map Prefixes supportedProfiles))"
  by (simp add: supportedProfiles_def)

lemma kinds_distinct: "distinct (map Kind supportedProfiles)"
  by (simp add: supportedProfiles_def)

lemma concat_distinct_unique:
  "distinct (concat xss) \<Longrightarrow> xs \<in> set xss \<Longrightarrow> ys \<in> set xss \<Longrightarrow> x \<in> set xs \<Longrightarrow> x \<in> set ys \<Longrightarrow> xs = ys"
  by (induction xss) auto

lemma prefixes_identify: "inj_on Prefixes (set supportedProfiles)"
  by (simp add: supportedProfiles_def)

lemma matches_unique:
  assumes "spec \<in> set supportedProfiles" "spec' \<in> set supportedProfiles"
    "matches serial spec" "matches serial spec'"
  shows "spec = spec'"
proof -
  from assms obtain p q where pq: "p \<in> set (Prefixes spec)" "prefix p serial"
    "q \<in> set (Prefixes spec')" "prefix q serial"
    by (auto simp: matches_def list_ex_iff)
  then have "p = q"
    using assms prefixes_length by (metis prefix_same_cases prefix_length_prefix append_eq_append_conv prefix_def order_refl)
  with pq assms concat_distinct_unique [OF prefixes_distinct, of "Prefixes spec" "Prefixes spec'" p]
  have "Prefixes spec = Prefixes spec'" by auto
  with prefixes_identify assms(1,2) show ?thesis by (auto dest: inj_onD)
qed

lemma lookupProfile_Inr:
  assumes "lookupProfile serial = Inr spec"
  shows "spec \<in> set supportedProfiles \<and> matches (ToUpper serial) spec"
  using assms by (auto simp: lookupProfile_def Let_def find_Some_iff in_set_conv_nth split: option.splits)

lemma lookupProfile_iff:
  "lookupProfile serial = Inr spec \<longleftrightarrow> spec \<in> set supportedProfiles \<and> matches (ToUpper serial) spec"
proof
  assume "spec \<in> set supportedProfiles \<and> matches (ToUpper serial) spec"
  moreover from this obtain s where "find (matches (ToUpper serial)) supportedProfiles = Some s"
    by (cases "find (matches (ToUpper serial)) supportedProfiles") (auto simp: find_None_iff)
  moreover from this have "s \<in> set supportedProfiles" "matches (ToUpper serial) s"
    by (auto simp: find_Some_iff in_set_conv_nth)
  ultimately show "lookupProfile serial = Inr spec"
    using matches_unique by (simp add: lookupProfile_def)
qed (rule lookupProfile_Inr)

lemma handler_ctor_known: "\<exists>c. handler_ctor kind = Some c"
  by (cases kind) (simp_all add: handler_ctor_def supportedProfiles_def)

lemma versions_known:
  "spec \<in> set supportedProfiles \<Longrightarrow> spec_PacketVersion spec = 0x02 \<or> spec_PacketVersion spec = 0x13"
  by (auto simp: supportedProfiles_def)

section \<open>Merging telemetry\<close>

definition later :: "'a option \<Rightarrow> 'a option \<Rightarrow> 'a option" where
  "later a b = (if b = None then a else b)"

lemma clone_id [simp]: "clone v = v"
  by (simp add: clone_def split: option.split)

lemma Merge_fields [simp]:
  "Charge (Merge a b) = later (Charge a) (Charge b)"
  "RuntimeSeconds (Merge a b) = later (RuntimeSeconds a) (RuntimeSeconds b)"
  "InputPower (Merge a b) = later (InputPower a) (InputPower b)"
  "OutputPower (Merge a b) = later (OutputPower a) (OutputPower b)"
  "InputPresent (Merge a b) = later (InputPresent a) (InputPresent b)"
  by (simp_all add: Merge_def Clone_def later_def Let_def)

lemma later_simps [simp]: "later None b = b" "later a None = a" "later a a = a"
  "later (later a b) c = later a (later b c)"
  by (auto simp: later_def)

lemma Merge_assoc: "Merge (Merge a b) c = Merge a (Merge b c)"
  by (rule Telemetry.equality) simp_all

lemma Merge_empty [simp]: "Empty e \<Longrightarrow> Merge a e = a" "Empty e \<Longrightarrow> Merge e a = a"
  by (rule Telemetry.equality; simp add: Empty_def)+

lemma Merge_idem [simp]: "Merge a a = a"
  by (rule Telemetry.equality) simp_all

lemma foldl_later:
  assumes "\<And>a b. f (g a b) = later (f a) (f b)"
  shows "f (foldl g t ts) = later (f t) (Option.bind (find (\<lambda>u. f u \<noteq> None) (rev ts)) f)"
proof (induction ts rule: rev_induct)
  case (snoc u ts)
  then show ?case by (auto simp: assms later_def)
qed simp

section \<open>Rounding\<close>

definition f32_abs :: "32 word \<Rightarrow> real" where
  "f32_abs b = f32_mantissa b * 2 ^ max 1 (f32_exponent b) / 2 ^ 150"

definition f32_value :: "32 word \<Rightarrow> real" where
  "f32_value b = (if f32_negative b then - f32_abs b else f32_abs b)"

lemma round_scaled_nearest:
  "real (round_scaled m e) \<le> real m * 2 ^ e / 2 ^ 150 + 1/2 \<and>
   real m * 2 ^ e / 2 ^ 150 < real (round_scaled m e) + 1/2"
proof (cases "e \<ge> 150")
  case True
  then have "(2 :: real) ^ e = 2 ^ (e - 150) * 2 ^ 150" by (metis power_add le_add_diff_inverse2)
  then show ?thesis using True by (simp add: round_scaled_def)
next
  case False
  define k where "k = 149 - e"
  with False have e: "150 - e = Suc k" "e + Suc k = 150" by simp_all
  then have "(2 :: real) ^ 150 = 2 ^ e * 2 ^ Suc k" by (metis power_add)
  then have v: "real m * 2 ^ e / 2 ^ 150 = real m / (2 * 2 ^ k)" by (simp only:) simp
  let ?n = "m + 2 ^ k" and ?d = "2 * 2 ^ k :: nat"
  have "?d * (?n div ?d) + ?n mod ?d = ?n" by (rule mult_div_mod_eq)
  moreover have "?n mod ?d < ?d" by (rule mod_less_divisor) simp
  ultimately have "?d * (?n div ?d) \<le> ?n" "?n < ?d * (?n div ?d) + ?d" by linarith+
  then have "real (?d * (?n div ?d)) \<le> real ?n" "real ?n < real (?d * (?n div ?d) + ?d)"
    by (simp_all only: of_nat_le_iff of_nat_less_iff)
  moreover have "round_scaled m e = ?n div ?d" using False e(1) by (simp add: round_scaled_def flip: k_def)
  ultimately show ?thesis
    unfolding v by (simp add: field_simps)
qed

lemma f32_round_nearest:
  "\<bar>real_of_int (f32_round b) - f32_value b\<bar> \<le> 1/2"
  "\<bar>real_of_int (f32_round b) - f32_value b\<bar> = 1/2 \<Longrightarrow> \<bar>f32_value b\<bar> < \<bar>real_of_int (f32_round b)\<bar>"
proof -
  let ?r = "real (round_scaled (f32_mantissa b) (max 1 (f32_exponent b)))"
  have h: "?r \<le> f32_abs b + 1/2" "f32_abs b < ?r + 1/2"
    using round_scaled_nearest [of "f32_mantissa b" "max 1 (f32_exponent b)"] by (simp_all add: f32_abs_def)
  have nonneg: "0 \<le> f32_abs b" by (simp add: f32_abs_def)
  have v: "real_of_int (f32_round b) - f32_value b =
      (if f32_negative b then f32_abs b - ?r else ?r - f32_abs b)"
    "\<bar>f32_value b\<bar> = f32_abs b" "\<bar>real_of_int (f32_round b)\<bar> = ?r"
    using nonneg by (simp_all add: f32_round_def f32_value_def Let_def)
  show "\<bar>real_of_int (f32_round b) - f32_value b\<bar> \<le> 1/2"
    unfolding v(1) using h by (simp only: abs_le_iff split: if_split) linarith
  assume "\<bar>real_of_int (f32_round b) - f32_value b\<bar> = 1/2"
  then show "\<bar>f32_value b\<bar> < \<bar>real_of_int (f32_round b)\<bar>"
    unfolding v using h by (auto simp: abs_if split: if_splits)
qed

section \<open>Properties\<close>

text \<open>C30: A descriptor is only built for a supported device: its profile is a row of the table
  with a prefix of the (upper-cased) serial number, its serial is the 16 advertised bytes, the
  encryption type is at most 7, the packet version is one the codec lays out consistently, and
  a handler exists for the profile.\<close>

theorem descriptor_supported:
  assumes "resolveDescriptor d = Inr desc"
  shows "(\<exists>spec \<in> set supportedProfiles. matches (ToUpper (Serial desc)) spec \<and>
      Profile desc = Kind spec \<and> PacketVersion desc = spec_PacketVersion spec \<and>
      XORPayload desc = spec_XORPayload spec \<and> SupportsTime desc = spec_SupportsTime spec) \<and>
    length (Serial desc) = 16 \<and> EncryptType desc \<le> 7 \<and>
    PacketVersion desc \<noteq> 0x04 \<and> layout_consistent (PacketVersion desc) \<and>
    handler_ctor (Profile desc) \<noteq> None"
proof -
  from assms obtain r spec where r: "ParseScanRecord (ManufacturerData d) = Inr r"
    and spec: "lookupProfile (SerialNumber r) = Inr spec"
    and desc: "Serial desc = SerialNumber r" "Profile desc = Kind spec"
      "PacketVersion desc = spec_PacketVersion spec" "XORPayload desc = spec_XORPayload spec"
      "SupportsTime desc = spec_SupportsTime spec" "EncryptType desc = scan_EncryptType r"
    by (auto simp: resolveDescriptor_def split: sum.splits)
  from ParseScanRecord_Inr [OF r] obtain md :: ManufacturerData where "parseScanRecordBytes (Data md) = Inr r" by blast
  note adv = parseScanRecordBytes_Inr [OF this]
  from lookupProfile_Inr [OF spec] have s: "spec \<in> set supportedProfiles"
    "matches (ToUpper (SerialNumber r)) spec" by simp_all
  have "PacketVersion desc \<noteq> 0x04 \<and> layout_consistent (PacketVersion desc)"
    using versions_known [OF s(1)] desc(3) by (auto simp: layout_consistent_def)
  moreover have "handler_ctor (Profile desc) \<noteq> None" using handler_ctor_known by auto
  ultimately show ?thesis using s adv desc by auto
qed

definition sample_advert :: bytes where
  "sample_advert = 0x01 # bytes_of_string ''R351ZEB4XXXX0001'' @ [0x80, 0x56, 0, 0, 0, 0x3A]"

definition sample_discovery :: Discovery where
  "sample_discovery = \<lparr>disc_MAC = ''AA:BB:CC:DD:EE:FF'', LocalName = ''EF-R351'',
     ManufacturerData = [\<lparr>CompanyID = 0x004C, Data = [1]\<rparr>, \<lparr>CompanyID = 0xB5B5, Data = sample_advert\<rparr>]\<rparr>"

lemma sample_serial: "string_of_bytes (take 16 (drop 1 sample_advert)) = ''R351ZEB4XXXX0001''"
  by code_simp

lemma sample_profile: "lookupProfile ''R351ZEB4XXXX0001'' = Inr (hd supportedProfiles)"
  by (simp add: lookupProfile_def upper_char_def matches_def supportedProfiles_def)

lemma sample_scan: "\<exists>r. parseScanRecordBytes sample_advert = Inr r \<and> SerialNumber r = ''R351ZEB4XXXX0001''"
  using sample_serial
  by (simp add: parseScanRecordBytes_def Let_def) (simp add: sample_advert_def bytes_of_string_def)

theorem descriptor_supported_witness:
  "\<exists>desc. resolveDescriptor sample_discovery = Inr desc \<and> length (Serial desc) = 16 \<and>
     EncryptType desc \<le> 7 \<and> layout_consistent (PacketVersion desc)"
proof -
  from sample_scan obtain r where r: "parseScanRecordBytes sample_advert = Inr r"
    "SerialNumber r = ''R351ZEB4XXXX0001''" by blast
  then have "ParseScanRecord (ManufacturerData sample_discovery) = Inr r"
    by (simp add: sample_discovery_def ecoFlowManufacturerID_def)
  then obtain desc where "resolveDescriptor sample_discovery = Inr desc"
    using sample_profile r(2) by (simp add: resolveDescriptor_def)
  with descriptor_supported [OF this] show ?thesis by blast
qed

text \<open>The prefix table is unambiguous: a serial number matches at most one family, so
  \<open>lookupProfile\<close> does not depend on the order of the table.\<close>

theorem profile_unambiguous:
  "(lookupProfile serial = Inr spec) =
   (spec \<in> set supportedProfiles \<and> (\<exists>p \<in> set (Prefixes spec). take 4 (ToUpper serial) = p))"
proof -
  have "take 4 (ToUpper serial) = p \<longleftrightarrow> prefix p (ToUpper serial)"
    if "spec \<in> set supportedProfiles" "p \<in> set (Prefixes spec)" for p
    using prefixes_length [OF that] by (auto simp: prefix_def take_is_prefix intro: append_take_drop_id [symmetric])
  then show ?thesis
    unfolding lookupProfile_iff matches_def list_ex_iff by blast
qed

text \<open>C31: Merging a sequence of updates keeps, per field, the last value any of them carried.\<close>

theorem merge_keeps_latest:
  "Charge (foldl Merge t ts) =
     later (Charge t) (Option.bind (find (\<lambda>u. Charge u \<noteq> None) (rev ts)) Charge) \<and>
   RuntimeSeconds (foldl Merge t ts) =
     later (RuntimeSeconds t) (Option.bind (find (\<lambda>u. RuntimeSeconds u \<noteq> None) (rev ts)) RuntimeSeconds) \<and>
   InputPower (foldl Merge t ts) =
     later (InputPower t) (Option.bind (find (\<lambda>u. InputPower u \<noteq> None) (rev ts)) InputPower) \<and>
   OutputPower (foldl Merge t ts) =
     later (OutputPower t) (Option.bind (find (\<lambda>u. OutputPower u \<noteq> None) (rev ts)) OutputPower) \<and>
   InputPresent (foldl Merge t ts) =
     later (InputPresent t) (Option.bind (find (\<lambda>u. InputPresent u \<noteq> None) (rev ts)) InputPresent)"
  by (intro conjI foldl_later Merge_fields)

text \<open>A finite \<open>float32\<close> whose rounded value fits an \<open>int\<close> is converted to a nearest
  integer, and ties go away from zero.\<close>

theorem roundFloat32_nearest:
  assumes "f32_finite b" "fits_int tgt (f32_round b)"
  shows "\<bar>real_of_int (roundFloat32 tgt b) - f32_value b\<bar> \<le> 1/2 \<and>
    (\<bar>real_of_int (roundFloat32 tgt b) - f32_value b\<bar> = 1/2 \<longrightarrow>
      \<bar>f32_value b\<bar> < \<bar>real_of_int (roundFloat32 tgt b)\<bar>)"
  using assms f32_round_nearest [of b] by (simp add: roundFloat32_def)

theorem roundFloat32_nearest_witness:
  "\<bar>real_of_int (roundFloat32 host64 0x42C70000) - f32_value 0x42C70000\<bar> \<le> 1/2 \<and>
   roundFloat32 host64 0x42C70000 = 100"
proof -
  have r: "f32_finite 0x42C70000" "f32_round 0x42C70000 = 100"
    by (simp_all add: f32_finite_def f32_round_def f32_negative_def f32_mantissa_def f32_exponent_def
        round_scaled_def)
  then have "fits_int host64 (f32_round 0x42C70000)"
    by (simp add: fits_int_def host64_def)
  with r roundFloat32_nearest [of "0x42C70000" "host64"]
  show ?thesis by (simp add: roundFloat32_def)
qed

end
