(* ===== verification/Decode_V2.thy ===== *)
theory Decode_V2
  imports Device_Types
begin

text \<open>
  \<open>internal/ecoflow/decode_v2.go\<close>: the handler of the version 2 devices.  Three kinds of
  packets carry the prefix of a packed little-endian struct; the handler keeps the last one
  of each kind and derives the telemetry from the three.
\<close>

section \<open>Readers\<close>

text \<open>
  \<open>binary.Read\<close> fills a struct field by field; a reader returns the value and the bytes
  behind it, \<open>None\<close> when the data ends.
\<close>

fun u8 :: "bytes \<Rightarrow> (byte \<times> bytes) option" where
  "u8 (a # bs) = Some (a, bs)"
| "u8 _ = None"

fun u16 :: "bytes \<Rightarrow> (16 word \<times> bytes) option" where
  "u16 (a # b # bs) = Some (le16 a b, bs)"
| "u16 _ = None"

definition le32 :: "byte \<Rightarrow> byte \<Rightarrow> byte \<Rightarrow> byte \<Rightarrow> 32 word" where
  "le32 a b c d = ucast (le16 a b) OR push_bit 16 (ucast (le16 c d))"

fun u32 :: "bytes \<Rightarrow> (32 word \<times> bytes) option" where
  "u32 (a # b # c # d # bs) = Some (le32 a b c d, bs)"
| "u32 _ = None"

fun arr4 :: "bytes \<Rightarrow> (bytes \<times> bytes) option" where
  "arr4 (a # b # c # d # bs) = Some ([a, b, c, d], bs)"
| "arr4 _ = None"

text \<open>\<open>io.ReadFull\<close> tells an empty reader from one that ends early.\<close>

definition readBinary :: "(bytes \<Rightarrow> ('a \<times> bytes) option) \<Rightarrow> bytes \<Rightarrow> go_error + 'a" where
  "readBinary read data =
     (if data = [] then Inl EndOfInput
      else case read data of
        None \<Rightarrow> Inl UnexpectedEndOfInput
      | Some (v, _) \<Rightarrow> Inr v)"

section \<open>The structs\<close>

record v2PDPrefix =
  pd_Model :: byte
  pd_ErrCode :: bytes
  pd_SysVer :: bytes
  WifiVer :: bytes
  WifiAutoRecovery :: byte
  pd_SOC :: byte
  WattsOutSum :: "16 word"
  WattsInSum :: "16 word"
  pd_RemainTime :: "32 word"

definition read_pd :: "bytes \<Rightarrow> (v2PDPrefix \<times> bytes) option" where
  "read_pd b = do {
     (model, b) \<leftarrow> u8 b; (err, b) \<leftarrow> arr4 b; (sys, b) \<leftarrow> arr4 b; (wifi, b) \<leftarrow> arr4 b;
     (auto_rec, b) \<leftarrow> u8 b; (soc, b) \<leftarrow> u8 b; (out_w, b) \<leftarrow> u16 b; (in_w, b) \<leftarrow> u16 b;
     (remain, b) \<leftarrow> u32 b;
     Some (\<lparr>pd_Model = model, pd_ErrCode = err, pd_SysVer = sys, WifiVer = wifi,
       WifiAutoRecovery = auto_rec, pd_SOC = soc, WattsOutSum = out_w, WattsInSum = in_w,
       pd_RemainTime = remain\<rparr>, b) }"

record v2EMSPrefix =
  ChgState :: byte
  ChgCmd :: byte
  DsgCmd :: byte
  ChgVol :: "32 word"
  ChgAmp :: "32 word"
  FanLevel :: byte
  MaxChargeSOC :: byte
  BMSModel :: byte
  LCDShowSOC :: byte
  OpenUPSFlag :: byte
  BMSWarning :: byte
  ChgRemainTime :: "32 word"
  DsgRemainTime :: "32 word"
  EmsNormalFlag :: byte
  F32LCDShowSOC :: "32 word"

definition read_ems :: "bytes \<Rightarrow> (v2EMSPrefix \<times> bytes) option" where
  "read_ems b = do {
     (state, b) \<leftarrow> u8 b; (chg, b) \<leftarrow> u8 b; (dsg, b) \<leftarrow> u8 b;
     (vol, b) \<leftarrow> u32 b; (amp, b) \<leftarrow> u32 b;
     (fan, b) \<leftarrow> u8 b; (max_soc, b) \<leftarrow> u8 b; (model, b) \<leftarrow> u8 b;
     (lcd, b) \<leftarrow> u8 b; (ups_flag, b) \<leftarrow> u8 b; (warning, b) \<leftarrow> u8 b;
     (chg_time, b) \<leftarrow> u32 b; (dsg_time, b) \<leftarrow> u32 b;
     (normal, b) \<leftarrow> u8 b; (f32, b) \<leftarrow> u32 b;
     Some (\<lparr>ChgState = state, ChgCmd = chg, DsgCmd = dsg, ChgVol = vol, ChgAmp = amp,
       FanLevel = fan, MaxChargeSOC = max_soc, BMSModel = model, LCDShowSOC = lcd,
       OpenUPSFlag = ups_flag, BMSWarning = warning, ChgRemainTime = chg_time,
       DsgRemainTime = dsg_time, EmsNormalFlag = normal, F32LCDShowSOC = f32\<rparr>, b) }"

record v2BMSPrefix =
  bms_Num :: byte
  bms_Type :: byte
  CellID :: byte
  bms_ErrCode :: "32 word"
  bms_SysVer :: "32 word"
  bms_SOC :: byte
  Vol :: "32 word"
  Amp :: "32 word"
  Temp :: byte
  OpenBMSIdx :: byte
  DesignCap :: "32 word"
  RemainCap :: "32 word"
  FullCap :: "32 word"
  Cycles :: "32 word"
  SOH :: byte
  MaxCellVol :: "16 word"
  MinCellVol :: "16 word"
  MaxCellTemp :: byte
  MinCellTemp :: byte
  MaxMOSTemp :: byte
  MinMOSTemp :: byte
  BMSFault :: byte
  BQSysStatReg :: byte
  TagChgAmp :: "32 word"
  F32ShowSOC :: "32 word"
  InputWatts :: "32 word"
  OutputWatts :: "32 word"
  bms_RemainTime :: "32 word"

definition read_bms :: "bytes \<Rightarrow> (v2BMSPrefix \<times> bytes) option" where
  "read_bms b = do {
     (num, b) \<leftarrow> u8 b; (ty, b) \<leftarrow> u8 b; (cell, b) \<leftarrow> u8 b;
     (err, b) \<leftarrow> u32 b; (sys, b) \<leftarrow> u32 b; (soc, b) \<leftarrow> u8 b;
     (vol, b) \<leftarrow> u32 b; (amp, b) \<leftarrow> u32 b; (temp, b) \<leftarrow> u8 b; (idx, b) \<leftarrow> u8 b;
     (design, b) \<leftarrow> u32 b; (rcap, b) \<leftarrow> u32 b; (full, b) \<leftarrow> u32 b; (cycles, b) \<leftarrow> u32 b;
     (soh, b) \<leftarrow> u8 b; (maxv, b) \<leftarrow> u16 b; (minv, b) \<leftarrow> u16 b;
     (maxct, b) \<leftarrow> u8 b; (minct, b) \<leftarrow> u8 b; (maxmt, b) \<leftarrow> u8 b; (minmt, b) \<leftarrow> u8 b;
     (fault, b) \<leftarrow> u8 b; (bq, b) \<leftarrow> u8 b; (tag, b) \<leftarrow> u32 b;
     (f32, b) \<leftarrow> u32 b; (inw, b) \<leftarrow> u32 b; (outw, b) \<leftarrow> u32 b; (remain, b) \<leftarrow> u32 b;
     Some (\<lparr>bms_Num = num, bms_Type = ty, CellID = cell, bms_ErrCode = err, bms_SysVer = sys,
       bms_SOC = soc, Vol = vol, Amp = amp, Temp = temp, OpenBMSIdx = idx, DesignCap = design,
       RemainCap = rcap, FullCap = full, Cycles = cycles, SOH = soh, MaxCellVol = maxv,
       MinCellVol = minv, MaxCellTemp = maxct, MinCellTemp = minct, MaxMOSTemp = maxmt,
       MinMOSTemp = minmt, BMSFault = fault, BQSysStatReg = bq, TagChgAmp = tag,
       F32ShowSOC = f32, InputWatts = inw, OutputWatts = outw, bms_RemainTime = remain\<rparr>, b) }"

section \<open>The handler\<close>

record v2Handler =
  v2_kind :: ProfileKind
  pd :: "v2PDPrefix option"
  ems :: "v2EMSPrefix option"
  bms :: "v2BMSPrefix option"

definition newV2Handler :: "ProfileKind \<Rightarrow> v2Handler" where
  "newV2Handler kind = \<lparr>v2_kind = kind, pd = None, ems = None, bms = None\<rparr>"

text \<open>The three blocks of \<open>snapshot\<close>, each on the telemetry so far.\<close>

definition int_of_u32 :: "target \<Rightarrow> 32 word \<Rightarrow> int" where
  "int_of_u32 tgt w = to_int tgt (uint w)"

definition snapshot_bms :: "target \<Rightarrow> v2BMSPrefix \<Rightarrow> Telemetry \<Rightarrow> Telemetry" where
  "snapshot_bms tgt b t0 =
     (let t = t0\<lparr>Charge := Some (roundFloat32 tgt (F32ShowSOC b))\<rparr>;
          t = (if bms_RemainTime b > 0
            then t\<lparr>RuntimeSeconds := Some (clampNonNegative (int_of_u32 tgt (bms_RemainTime b)))\<rparr> else t);
          t = (if InputWatts b > 0 then t\<lparr>InputPower := Some (int_of_u32 tgt (InputWatts b))\<rparr> else t);
          t = (if OutputWatts b > 0 then t\<lparr>OutputPower := Some (int_of_u32 tgt (OutputWatts b))\<rparr> else t)
      in t)"

definition snapshot_ems :: "target \<Rightarrow> v2EMSPrefix \<Rightarrow> Telemetry \<Rightarrow> Telemetry" where
  "snapshot_ems tgt e t0 =
     (let t = (if f32_positive (F32LCDShowSOC e)
            then t0\<lparr>Charge := Some (roundFloat32 tgt (F32LCDShowSOC e))\<rparr>
            else if LCDShowSOC e > 0 then t0\<lparr>Charge := Some (uint (LCDShowSOC e))\<rparr> else t0);
          t = (if DsgRemainTime e > 0
            then t\<lparr>RuntimeSeconds := Some (int_of_u32 tgt (DsgRemainTime e))\<rparr> else t)
      in t)"

definition snapshot_pd :: "v2PDPrefix \<Rightarrow> Telemetry \<Rightarrow> Telemetry" where
  "snapshot_pd p t0 =
     (let t = (if Charge t0 = None then t0\<lparr>Charge := Some (uint (pd_SOC p))\<rparr> else t0);
          t = (if RuntimeSeconds t = None \<and> sint (pd_RemainTime p) > 0
            then t\<lparr>RuntimeSeconds := Some (clampNonNegative (sint (pd_RemainTime p)))\<rparr> else t);
          t = (if WattsInSum p > 0 then t\<lparr>InputPower := Some (uint (WattsInSum p))\<rparr> else t);
          t = (if WattsOutSum p \<ge> 0 then t\<lparr>OutputPower := Some (uint (WattsOutSum p))\<rparr> else t)
      in t)"

definition snapshot_present :: "v2EMSPrefix option \<Rightarrow> Telemetry \<Rightarrow> Telemetry" where
  "snapshot_present e t =
     (if InputPresent t = None
      then case InputPower t of
             Some w \<Rightarrow> t\<lparr>InputPresent := Some (w > 0)\<rparr>
           | None \<Rightarrow> (case e of
               Some x \<Rightarrow> t\<lparr>InputPresent := Some (OpenUPSFlag x \<noteq> 0)\<rparr>
             | None \<Rightarrow> t)
      else t)"

definition if_some :: "('a \<Rightarrow> 'b \<Rightarrow> 'b) \<Rightarrow> 'a option \<Rightarrow> 'b \<Rightarrow> 'b" where
  "if_some f x t = (case x of None \<Rightarrow> t | Some a \<Rightarrow> f a t)"

definition snapshot :: "target \<Rightarrow> v2Handler \<Rightarrow> Telemetry" where
  "snapshot tgt h =
     (let t = no_telemetry;
          t = if_some (snapshot_bms tgt) (bms h) t;
          t = if_some (snapshot_ems tgt) (ems h) t;
          t = if_some snapshot_pd (pd h) t
      in snapshot_present (ems h) t)"

text \<open>
  What \<open>HandlePacket\<close> returns: the error, or the telemetry, the packets to send and whether
  the packet was handled.
\<close>

type_synonym handled = "go_error + (Telemetry option \<times> Packet list \<times> bool)"

definition v2_HandlePacket :: "target \<Rightarrow> v2Handler \<Rightarrow> Packet \<Rightarrow> handled \<times> v2Handler" where
  "v2_HandlePacket tgt h packet =
     (if Src packet = 0x02 \<and> CmdSet packet = 0x20 \<and> CmdID packet = 0x02 then
        case readBinary read_pd (Payload packet) of
          Inl e \<Rightarrow> (Inl (DecodeFailed ''decode v2 pd packet'' e), h)
        | Inr p \<Rightarrow> let h' = h\<lparr>pd := Some p\<rparr> in (Inr (Some (snapshot tgt h'), [], True), h')
      else if Src packet = 0x03 \<and> CmdSet packet = 0x20 \<and> CmdID packet = 0x02 then
        case readBinary read_ems (Payload packet) of
          Inl e \<Rightarrow> (Inl (DecodeFailed ''decode v2 ems packet'' e), h)
        | Inr p \<Rightarrow> let h' = h\<lparr>ems := Some p\<rparr> in (Inr (Some (snapshot tgt h'), [], True), h')
      else if Src packet = 0x03 \<and> CmdSet packet = 0x20 \<and> CmdID packet = 0x32 then
        case readBinary read_bms (Payload packet) of
          Inl e \<Rightarrow> (Inl (DecodeFailed ''decode v2 bms packet'' e), h)
        | Inr p \<Rightarrow> let h' = h\<lparr>bms := Some p\<rparr> in (Inr (Some (snapshot tgt h'), [], True), h')
      else (Inr (None, [], False), h))"

section \<open>Layout\<close>

lemma reader_nth:
  "1 \<le> length b \<Longrightarrow> u8 b = Some (b ! 0, drop 1 b)"
  "2 \<le> length b \<Longrightarrow> u16 b = Some (le16 (b ! 0) (b ! 1), drop 2 b)"
  "4 \<le> length b \<Longrightarrow> u32 b = Some (le32 (b ! 0) (b ! 1) (b ! 2) (b ! 3), drop 4 b)"
  "4 \<le> length b \<Longrightarrow> arr4 b = Some ([b ! 0, b ! 1, b ! 2, b ! 3], drop 4 b)"
  by (cases b, simp_all) (cases b rule: u16.cases, auto,
    (cases b rule: u32.cases, auto simp: numeral_eq_Suc)+)

lemma reader_length:
  "u8 b = Some (v, t) \<Longrightarrow> length b = 1 + length t"
  "u16 b = Some (w, t) \<Longrightarrow> length b = 2 + length t"
  "u32 b = Some (x, t) \<Longrightarrow> length b = 4 + length t"
  "arr4 b = Some (a, t) \<Longrightarrow> length b = 4 + length t"
  by (cases b rule: u8.cases, auto) (cases b rule: u16.cases, auto,
    (cases b rule: u32.cases, auto)+)

lemma read_pd_length: "read_pd b = Some (v, t) \<Longrightarrow> length b = 23 + length t"
  by (auto simp: read_pd_def bind_eq_Some_conv dest!: reader_length)

lemma read_ems_length: "read_ems b = Some (v, t) \<Longrightarrow> length b = 30 + length t"
  by (auto simp: read_ems_def bind_eq_Some_conv dest!: reader_length)

lemma read_bms_length: "read_bms b = Some (v, t) \<Longrightarrow> length b = 69 + length t"
  by (auto simp: read_bms_def bind_eq_Some_conv dest!: reader_length)

text \<open>The offsets of the fields the telemetry is made of.\<close>

definition word_at :: "bytes \<Rightarrow> nat \<Rightarrow> 32 word" where
  "word_at b i = le32 (b ! i) (b ! (i + 1)) (b ! (i + 2)) (b ! (i + 3))"

lemma read_pd_fields:
  assumes "23 \<le> length b"
  shows "\<exists>p. read_pd b = Some (p, drop 23 b) \<and> pd_SOC p = b ! 14 \<and>
    WattsOutSum p = le16 (b ! 15) (b ! 16) \<and> WattsInSum p = le16 (b ! 17) (b ! 18) \<and>
    pd_RemainTime p = word_at b 19"
  using assms by (simp add: read_pd_def reader_nth word_at_def)

lemma read_ems_fields:
  assumes "30 \<le> length b"
  shows "\<exists>e. read_ems b = Some (e, drop 30 b) \<and> LCDShowSOC e = b ! 14 \<and> OpenUPSFlag e = b ! 15 \<and>
    DsgRemainTime e = word_at b 21 \<and> F32LCDShowSOC e = word_at b 26"
  using assms by (simp add: read_ems_def reader_nth word_at_def)

lemma read_bms_fields:
  assumes "69 \<le> length b"
  shows "\<exists>p. read_bms b = Some (p, drop 69 b) \<and> F32ShowSOC p = word_at b 53 \<and>
    InputWatts p = word_at b 57 \<and> OutputWatts p = word_at b 61 \<and> bms_RemainTime p = word_at b 65"
  using assms by (simp add: read_bms_def reader_nth word_at_def)

lemma readBinary_cases:
  assumes "\<And>b v t. read b = Some (v, t) \<Longrightarrow> length b = n + length t"
    "\<And>b. n \<le> length b \<Longrightarrow> \<exists>v t. read b = Some (v, t)" "0 < n"
  shows "readBinary read b =
    (if b = [] then Inl EndOfInput else if length b < n then Inl UnexpectedEndOfInput
     else Inr (fst (the (read b))))"
proof (cases "read b")
  case None
  with assms(2) [of b] show ?thesis by (auto simp: readBinary_def)
next
  case (Some p)
  obtain v t where "p = (v, t)" by (cases p)
  with Some assms(1) [of b v t] assms(3) show ?thesis by (auto simp: readBinary_def)
qed

lemma readBinary_pd:
  "readBinary read_pd b = (if b = [] then Inl EndOfInput
     else if length b < 23 then Inl UnexpectedEndOfInput else Inr (fst (the (read_pd b))))"
  by (rule readBinary_cases, erule read_pd_length, use read_pd_fields in blast, simp)

lemma readBinary_ems:
  "readBinary read_ems b = (if b = [] then Inl EndOfInput
     else if length b < 30 then Inl UnexpectedEndOfInput else Inr (fst (the (read_ems b))))"
  by (rule readBinary_cases, erule read_ems_length, use read_ems_fields in blast, simp)

lemma readBinary_bms:
  "readBinary read_bms b = (if b = [] then Inl EndOfInput
     else if length b < 69 then Inl UnexpectedEndOfInput else Inr (fst (the (read_bms b))))"
  by (rule readBinary_cases, erule read_bms_length, use read_bms_fields in blast, simp)

section \<open>The snapshot, field by field\<close>

text \<open>Which of the three packets each value is taken from.\<close>

definition v2_charge :: "target \<Rightarrow> v2Handler \<Rightarrow> int option" where
  "v2_charge tgt h =
     (let other = (case bms h of
            Some b \<Rightarrow> Some (roundFloat32 tgt (F32ShowSOC b))
          | None \<Rightarrow> map_option (\<lambda>p. uint (pd_SOC p)) (pd h))
      in case ems h of
           Some e \<Rightarrow>
             (if f32_positive (F32LCDShowSOC e) then Some (roundFloat32 tgt (F32LCDShowSOC e))
              else if LCDShowSOC e > 0 then Some (uint (LCDShowSOC e)) else other)
         | None \<Rightarrow> other)"

definition when_positive :: "('a::{zero,ord}) \<Rightarrow> 'b \<Rightarrow> 'b option" where
  "when_positive x v = (if x > 0 then Some v else None)"

definition first_some :: "'a option \<Rightarrow> 'a option \<Rightarrow> 'a option" where
  "first_some a b = (if a = None then b else a)"

definition v2_runtime :: "target \<Rightarrow> v2Handler \<Rightarrow> int option" where
  "v2_runtime tgt h =
     first_some (Option.bind (ems h) (\<lambda>e. when_positive (DsgRemainTime e) (int_of_u32 tgt (DsgRemainTime e))))
    (first_some (Option.bind (bms h) (\<lambda>b. when_positive (bms_RemainTime b)
        (clampNonNegative (int_of_u32 tgt (bms_RemainTime b)))))
      (Option.bind (pd h) (\<lambda>p. when_positive (sint (pd_RemainTime p)) (sint (pd_RemainTime p)))))"

definition v2_input :: "target \<Rightarrow> v2Handler \<Rightarrow> int option" where
  "v2_input tgt h =
     first_some (Option.bind (pd h) (\<lambda>p. when_positive (WattsInSum p) (uint (WattsInSum p))))
      (Option.bind (bms h) (\<lambda>b. when_positive (InputWatts b) (int_of_u32 tgt (InputWatts b))))"

definition v2_output :: "target \<Rightarrow> v2Handler \<Rightarrow> int option" where
  "v2_output tgt h =
     first_some (map_option (\<lambda>p. uint (WattsOutSum p)) (pd h))
      (Option.bind (bms h) (\<lambda>b. when_positive (OutputWatts b) (int_of_u32 tgt (OutputWatts b))))"

definition v2_present :: "target \<Rightarrow> v2Handler \<Rightarrow> bool option" where
  "v2_present tgt h =
     first_some (map_option (\<lambda>w. w > 0) (v2_input tgt h)) (map_option (\<lambda>e. OpenUPSFlag e \<noteq> 0) (ems h))"

lemma first_some_simps [simp]:
  "first_some None b = b" "first_some (Some x) b = Some x" "first_some a None = a"
  "first_some (first_some a b) c = first_some a (first_some b c)"
  by (auto simp: first_some_def)

lemma blocks_RuntimeSeconds:
  "RuntimeSeconds (snapshot_bms tgt b t) =
     first_some (when_positive (bms_RemainTime b) (clampNonNegative (int_of_u32 tgt (bms_RemainTime b))))
       (RuntimeSeconds t)"
  "RuntimeSeconds (snapshot_ems tgt e t) =
     first_some (when_positive (DsgRemainTime e) (int_of_u32 tgt (DsgRemainTime e))) (RuntimeSeconds t)"
  "RuntimeSeconds (snapshot_pd p t) =
     first_some (RuntimeSeconds t) (when_positive (sint (pd_RemainTime p)) (sint (pd_RemainTime p)))"
  "RuntimeSeconds (snapshot_present x t) = RuntimeSeconds t"
  by (simp_all add: snapshot_bms_def snapshot_ems_def snapshot_pd_def snapshot_present_def Let_def
      when_positive_def first_some_def clampNonNegative_def split: option.split)

lemma blocks_powers:
  "InputPower (snapshot_bms tgt b t) =
     first_some (when_positive (InputWatts b) (int_of_u32 tgt (InputWatts b))) (InputPower t)"
  "InputPower (snapshot_ems tgt e t) = InputPower t"
  "InputPower (snapshot_pd p t) =
     first_some (when_positive (WattsInSum p) (uint (WattsInSum p))) (InputPower t)"
  "InputPower (snapshot_present x t) = InputPower t"
  "OutputPower (snapshot_bms tgt b t) =
     first_some (when_positive (OutputWatts b) (int_of_u32 tgt (OutputWatts b))) (OutputPower t)"
  "OutputPower (snapshot_ems tgt e t) = OutputPower t"
  "OutputPower (snapshot_pd p t) = Some (uint (WattsOutSum p))"
  "OutputPower (snapshot_present x t) = OutputPower t"
  by (simp_all add: snapshot_bms_def snapshot_ems_def snapshot_pd_def snapshot_present_def Let_def
      when_positive_def split: option.split)

lemma blocks_Charge:
  "Charge (snapshot_bms tgt b t) = Some (roundFloat32 tgt (F32ShowSOC b))"
  "Charge (snapshot_ems tgt e t) =
     (if f32_positive (F32LCDShowSOC e) then Some (roundFloat32 tgt (F32LCDShowSOC e))
      else if LCDShowSOC e > 0 then Some (uint (LCDShowSOC e)) else Charge t)"
  "Charge (snapshot_pd p t) = first_some (Charge t) (Some (uint (pd_SOC p)))"
  "Charge (snapshot_present x t) = Charge t"
  by (simp_all add: snapshot_bms_def snapshot_ems_def snapshot_pd_def snapshot_present_def Let_def
      first_some_def split: option.split)

lemma snapshot_Charge: "Charge (snapshot tgt h) = v2_charge tgt h"
  by (cases "pd h"; cases "ems h"; cases "bms h")
    (simp_all add: snapshot_def if_some_def blocks_Charge v2_charge_def no_telemetry_def)

lemma snapshot_RuntimeSeconds: "RuntimeSeconds (snapshot tgt h) = v2_runtime tgt h"
  by (cases "pd h"; cases "ems h"; cases "bms h")
    (simp_all add: snapshot_def if_some_def blocks_RuntimeSeconds v2_runtime_def no_telemetry_def)

lemma snapshot_InputPower: "InputPower (snapshot tgt h) = v2_input tgt h"
  by (cases "pd h"; cases "ems h"; cases "bms h")
    (simp_all add: snapshot_def if_some_def blocks_powers v2_input_def no_telemetry_def)

lemma snapshot_OutputPower: "OutputPower (snapshot tgt h) = v2_output tgt h"
  by (cases "pd h"; cases "ems h"; cases "bms h")
    (simp_all add: snapshot_def if_some_def blocks_powers v2_output_def no_telemetry_def)

text \<open>The three blocks leave \<open>InputPresent\<close> alone; the last one derives it.\<close>

lemma blocks_InputPresent [simp]:
  "InputPresent (snapshot_bms tgt b t) = InputPresent t"
  "InputPresent (snapshot_ems tgt e t) = InputPresent t"
  "InputPresent (snapshot_pd p t) = InputPresent t"
  by (simp_all add: snapshot_bms_def snapshot_ems_def snapshot_pd_def Let_def)

lemma if_some_InputPresent:
  "(\<And>x t. InputPresent (f x t) = InputPresent t) \<Longrightarrow> InputPresent (if_some f a t) = InputPresent t"
  by (simp add: if_some_def split: option.split)

lemma snapshot_present_fields:
  "InputPower (snapshot_present e t) = InputPower t"
  "InputPresent t = None \<Longrightarrow> InputPresent (snapshot_present e t) =
     first_some (map_option (\<lambda>w. w > 0) (InputPower t)) (map_option (\<lambda>e. OpenUPSFlag e \<noteq> 0) e)"
  by (simp_all add: snapshot_present_def first_some_def split: option.split)

lemma snapshot_InputPresent: "InputPresent (snapshot tgt h) = v2_present tgt h"
proof -
  define t where "t = if_some snapshot_pd (pd h)
    (if_some (snapshot_ems tgt) (ems h) (if_some (snapshot_bms tgt) (bms h) no_telemetry))"
  have s: "snapshot tgt h = snapshot_present (ems h) t" by (simp add: snapshot_def t_def)
  have "InputPresent t = None" by (simp add: t_def if_some_InputPresent no_telemetry_def)
  then show ?thesis
    using snapshot_InputPower [of tgt h] by (simp add: s snapshot_present_fields v2_present_def)
qed

lemmas snapshot_fields = snapshot_Charge snapshot_RuntimeSeconds snapshot_InputPower
  snapshot_OutputPower snapshot_InputPresent

section \<open>Properties\<close>

text \<open>C28: Each value of the version 2 telemetry is taken from the packet with the highest priority
  that carries it: the charge from the EMS display values, else the BMS, else the PD; the
  runtime from the EMS, else the BMS, else the PD; the powers from the PD, else the BMS; input
  is present when the input power is positive, or, without one, by the EMS flag.\<close>

theorem v2_snapshot_priority:
  "Charge (snapshot tgt h) = v2_charge tgt h \<and> RuntimeSeconds (snapshot tgt h) = v2_runtime tgt h \<and>
   InputPower (snapshot tgt h) = v2_input tgt h \<and> OutputPower (snapshot tgt h) = v2_output tgt h \<and>
   InputPresent (snapshot tgt h) = v2_present tgt h"
  by (simp add: snapshot_fields)

text \<open>A BMS packet is decoded exactly when its payload has the 69 bytes of the struct, shorter
  ones are errors that leave the handler unchanged, and the values are the little-endian words
  at their offsets.\<close>

theorem v2_bms_packet:
  assumes "Src p = 0x03" "CmdSet p = 0x20" "CmdID p = 0x32"
  shows "if length (Payload p) < 69
    then \<exists>e. v2_HandlePacket tgt h p = (Inl (DecodeFailed ''decode v2 bms packet'' e), h) \<and>
      e = (if Payload p = [] then EndOfInput else UnexpectedEndOfInput)
    else \<exists>b. v2_HandlePacket tgt h p =
        (Inr (Some (snapshot tgt (h\<lparr>bms := Some b\<rparr>)), [], True), h\<lparr>bms := Some b\<rparr>) \<and>
      F32ShowSOC b = word_at (Payload p) 53 \<and> InputWatts b = word_at (Payload p) 57 \<and>
      OutputWatts b = word_at (Payload p) 61 \<and> bms_RemainTime b = word_at (Payload p) 65"
proof (cases "length (Payload p) < 69")
  case False
  then obtain b where "read_bms (Payload p) = Some (b, drop 69 (Payload p))"
    "F32ShowSOC b = word_at (Payload p) 53" "InputWatts b = word_at (Payload p) 57"
    "OutputWatts b = word_at (Payload p) 61" "bms_RemainTime b = word_at (Payload p) 65"
    using read_bms_fields [of "Payload p"] by auto
  with False show ?thesis
    using assms by (auto simp: v2_HandlePacket_def readBinary_bms Let_def)
qed (use assms in \<open>simp add: v2_HandlePacket_def readBinary_bms\<close>)

definition zero_bms_packet :: Packet where
  "zero_bms_packet = zero_packet\<lparr>Src := 0x03, CmdSet := 0x20, CmdID := 0x32, Payload := replicate 69 0\<rparr>"

theorem v2_bms_packet_witness:
  "\<exists>b. v2_HandlePacket host64 (newV2Handler ProfileDelta2) zero_bms_packet =
     (Inr (Some (snapshot host64 ((newV2Handler ProfileDelta2)\<lparr>bms := Some b\<rparr>)), [], True),
      (newV2Handler ProfileDelta2)\<lparr>bms := Some b\<rparr>) \<and>
     F32ShowSOC b = word_at (Payload zero_bms_packet) 53"
  using v2_bms_packet [of zero_bms_packet host64 "newV2Handler ProfileDelta2"]
  by (auto simp: zero_bms_packet_def zero_packet_def)

lemma to_int_64: "int_bits tgt = 64 \<Longrightarrow> int_of_u32 tgt w = uint w"
proof -
  assume b: "int_bits tgt = 64"
  have "uint w < 2 ^ 32" using unsigned_less [of w, where 'a = int] by simp
  moreover have "- (2 ^ 63) \<le> uint w" by (rule order_trans [OF _ uint_ge_0]) simp
  ultimately show ?thesis
    using b by (simp add: int_of_u32_def to_int_def signed_take_bit_int_eq_self_iff)
qed

lemma uint_pos: "0 < (w :: 'a::len word) \<Longrightarrow> 0 < uint w"
  by (simp add: word_less_def)

text \<open>Where \<open>int\<close> has 64 bits, the telemetry of a handled packet always carries a value, and
  a reported runtime or input power is positive.\<close>

theorem v2_handled_reports:
  assumes "int_bits tgt = 64" "v2_HandlePacket tgt h p = (Inr (t, out, True), h')"
  shows "\<exists>r. t = Some r \<and> r = snapshot tgt h' \<and> out = [] \<and> \<not> Empty r \<and>
    (\<forall>s. RuntimeSeconds r = Some s \<longrightarrow> 0 < s) \<and> (\<forall>w. InputPower r = Some w \<longrightarrow> 0 < w)"
proof -
  from assms(2) have t: "t = Some (snapshot tgt h')" "out = []"
    and seen: "pd h' \<noteq> None \<or> ems h' \<noteq> None \<or> bms h' \<noteq> None"
    by (auto simp: v2_HandlePacket_def Let_def split: if_splits sum.splits)
  have "\<not> Empty (snapshot tgt h')"
    using seen
    by (auto simp: Empty_def snapshot_fields v2_charge_def v2_present_def first_some_def Let_def
        split: option.splits if_splits)
  moreover have "0 < s" if "v2_runtime tgt h' = Some s" for s
    using that to_int_64 [OF assms(1)] uint_pos [where 'a = 16] uint_pos [where 'a = 32]
    by (auto simp: v2_runtime_def first_some_def when_positive_def clampNonNegative_def
        bind_eq_Some_conv split: if_splits)
  moreover have "0 < w" if "v2_input tgt h' = Some w" for w
    using that to_int_64 [OF assms(1)] uint_pos [where 'a = 16] uint_pos [where 'a = 32]
    by (auto simp: v2_input_def first_some_def when_positive_def bind_eq_Some_conv split: if_splits)
  ultimately show ?thesis using t by (simp add: snapshot_fields)
qed

text \<open>A loss of input power is not reported: after a PD packet with input and one without,
  the merged telemetry still has the old input power and, while no EMS packet has been seen,
  still says that input is present.\<close>

theorem v2_input_loss_unreported:
  assumes "ems h = None" "bms h = None" "WattsInSum p > 0" "WattsInSum q = 0"
  shows "InputPower (Merge (snapshot tgt (h\<lparr>pd := Some p\<rparr>)) (snapshot tgt (h\<lparr>pd := Some q\<rparr>))) =
      Some (uint (WattsInSum p)) \<and>
    InputPresent (Merge (snapshot tgt (h\<lparr>pd := Some p\<rparr>)) (snapshot tgt (h\<lparr>pd := Some q\<rparr>))) = Some True"
  using assms uint_pos [of "WattsInSum p"]
  by (simp add: snapshot_fields v2_input_def v2_present_def first_some_def when_positive_def later_def)

theorem v2_handled_reports_witness:
  "\<exists>r h'. v2_HandlePacket host64 (newV2Handler ProfileDelta2) zero_bms_packet = (Inr (Some r, [], True), h') \<and>
     \<not> Empty r"
proof -
  obtain b where b: "v2_HandlePacket host64 (newV2Handler ProfileDelta2) zero_bms_packet =
      (Inr (Some (snapshot host64 ((newV2Handler ProfileDelta2)\<lparr>bms := Some b\<rparr>)), [], True),
       (newV2Handler ProfileDelta2)\<lparr>bms := Some b\<rparr>)"
    using read_bms_fields [of "Payload zero_bms_packet"]
    by (auto simp: v2_HandlePacket_def readBinary_bms zero_bms_packet_def zero_packet_def Let_def)
  have "int_bits host64 = 64" by (simp add: host64_def)
  from v2_handled_reports [OF this b] b show ?thesis by auto
qed

definition sample_pd :: "16 word \<Rightarrow> v2PDPrefix" where
  "sample_pd w = \<lparr>pd_Model = 0, pd_ErrCode = [0, 0, 0, 0], pd_SysVer = [0, 0, 0, 0], WifiVer = [0, 0, 0, 0],
     WifiAutoRecovery = 0, pd_SOC = 50, WattsOutSum = 10, WattsInSum = w, pd_RemainTime = 60\<rparr>"

theorem v2_input_loss_unreported_witness:
  "InputPresent (Merge (snapshot host64 ((newV2Handler ProfileDelta2)\<lparr>pd := Some (sample_pd 100)\<rparr>))
     (snapshot host64 ((newV2Handler ProfileDelta2)\<lparr>pd := Some (sample_pd 0)\<rparr>))) = Some True"
  using v2_input_loss_unreported [of "newV2Handler ProfileDelta2" "sample_pd 100" "sample_pd 0" host64]
  by (simp add: newV2Handler_def sample_pd_def)

end
