(* ===== verification/Proto_Tables.thy ===== *)
theory Proto_Tables
  imports Prelude
begin

text \<open>
  The field tables of the protobuf messages the version 3 handlers decode, from the struct
  tags of the generated Go code under \<open>internal/ecoflow/pb\<close>: name, number, kind and whether
  the field tracks presence.  Reflection (\<open>internal/ecoflow/proto.go\<close>) looks fields up in
  these tables by name.
\<close>

datatype kind =
    KBool | KInt32 | KSint32 | KUint32 | KFloat | KString | KEnum | KMessage

datatype field = Field (fd_name: string) (fd_number: nat) (fd_kind: kind) (fd_presence: bool)

type_synonym descriptor = "field list"

definition pr705_fields_1 :: descriptor where
  "pr705_fields_1 = [
    Field ''errcode'' 1 KUint32 True, Field ''sys_status'' 2 KUint32 True,
    Field ''dev_online_flag'' 130 KBool True, Field ''utc_timezone'' 133 KInt32 True,
    Field ''utc_timezone_id'' 134 KString True, Field ''utc_set_mode'' 135 KBool True,
    Field ''cms_bms_run_state'' 275 KUint32 True, Field ''cms_batt_soc'' 262 KFloat True,
    Field ''cms_batt_soh'' 263 KFloat True, Field ''cms_chg_dsg_state'' 282 KUint32 True,
    Field ''cms_batt_full_cap'' 287 KUint32 True, Field ''cms_batt_design_cap'' 288 KUint32 True,
    Field ''cms_batt_remain_cap'' 289 KUint32 True,
    Field ''cms_batt_full_energy'' 462 KUint32 True, Field ''cms_dsg_rem_time'' 268 KUint32 True,
    Field ''cms_chg_rem_time'' 269 KUint32 True, Field ''cms_batt_pow_out_max'' 459 KUint32 True,
    Field ''cms_batt_pow_in_max'' 460 KUint32 True, Field ''cms_batt_temp'' 102 KInt32 True,
    Field ''cms_max_chg_soc'' 270 KUint32 True, Field ''cms_min_dsg_soc'' 271 KUint32 True,
    Field ''bms_batt_soc'' 242 KFloat True, Field ''bms_batt_soh'' 243 KFloat True,
    Field ''bms_chg_dsg_state'' 281 KUint32 True, Field ''bms_design_cap'' 248 KUint32 True,
    Field ''bms_dsg_rem_time'' 254 KUint32 True, Field ''bms_chg_rem_time'' 255 KUint32 True,
    Field ''bms_min_cell_temp'' 258 KInt32 True, Field ''bms_max_cell_temp'' 259 KInt32 True,
    Field ''bms_min_mos_temp'' 260 KInt32 True, Field ''bms_max_mos_temp'' 261 KInt32 True,
    Field ''dev_sleep_state'' 212 KUint32 True, Field ''en_beep'' 195 KBool True,
    Field ''lcd_light'' 5 KUint32 True, Field ''ac_out_open'' 298 KBool True,
    Field ''btn_ac_out_lv_switch'' 72 KBool True, Field ''btn_ac_out_hv_switch'' 73 KBool True]"

definition pr705_fields_2 :: descriptor where
  "pr705_fields_2 = [
    Field ''dc_out_open'' 74 KBool True, Field ''btn_dc_12v_out_switch'' 75 KBool True,
    Field ''btn_usb_switch'' 76 KBool True, Field ''dev_standby_time'' 17 KUint32 True,
    Field ''screen_off_time'' 18 KUint32 True, Field ''ac_standby_time'' 19 KUint32 True,
    Field ''dc_standby_time'' 20 KUint32 True, Field ''ble_standby_time'' 290 KUint32 True,
    Field ''ups_alram'' 355 KBool True, Field ''led_mode'' 357 KUint32 True,
    Field ''low_power_alarm'' 358 KUint32 True, Field ''silence_chg_watt'' 359 KUint32 True,
    Field ''ac_out_freq'' 211 KUint32 True, Field ''llc_hv_lv_flag'' 227 KUint32 True,
    Field ''ac_always_on_flag'' 22 KBool True, Field ''ac_hv_always_on'' 283 KBool True,
    Field ''ac_lv_always_on'' 284 KBool True, Field ''ac_always_on_mini_soc'' 23 KUint32 True,
    Field ''xboost_en'' 25 KBool True, Field ''output_power_off_memory'' 147 KBool True,
    Field ''fast_charge_switch'' 182 KUint32 True, Field ''llc_GFCI_flag'' 200 KBool True,
    Field ''ac_energy_saving_open'' 455 KBool True, Field ''bypass_out_disable'' 146 KBool True,
    Field ''pv_dc_chg_setting_list'' 125 KMessage True, Field ''pv_chg_type'' 148 KUint32 True,
    Field ''energy_backup_state'' 6 KUint32 True, Field ''energy_backup_start_soc'' 8 KUint32 True,
    Field ''energy_backup_en'' 7 KBool True, Field ''storm_pattern_enable'' 467 KBool True,
    Field ''storm_pattern_open_flag'' 468 KBool True,
    Field ''storm_pattern_end_time'' 469 KUint32 True,
    Field ''time_task_current'' 219 KMessage True,
    Field ''current_time_task_v2_item'' 126 KMessage True,
    Field ''time_task_conflict_flag'' 285 KUint32 True,
    Field ''time_task_change_cnt'' 286 KUint32 True, Field ''cms_oil_self_start'' 274 KBool True]"

definition pr705_fields_3 :: descriptor where
  "pr705_fields_3 = [
    Field ''cms_oil_on_soc'' 272 KUint32 True, Field ''cms_oil_off_soc'' 273 KUint32 True,
    Field ''wireless_oil_self_start'' 143 KBool True,
    Field ''wireless_oil_on_soc'' 144 KUint32 True,
    Field ''wireless_oil_off_soc'' 145 KUint32 True,
    Field ''generator_pv_hybrid_mode_open'' 451 KBool True,
    Field ''generator_pv_hybrid_mode_soc_max'' 452 KUint32 True,
    Field ''generator_care_mode_open'' 453 KBool True,
    Field ''generator_care_mode_start_time'' 454 KUint32 True,
    Field ''multi_bp_chg_dsg_mode'' 456 KUint32 True, Field ''pow_in_sum_w'' 3 KFloat True,
    Field ''pow_out_sum_w'' 4 KFloat True, Field ''pow_get_qcusb1'' 9 KFloat True,
    Field ''pow_get_qcusb2'' 10 KFloat True, Field ''pow_get_typec1'' 11 KFloat True,
    Field ''pow_get_typec2'' 12 KFloat True, Field ''pow_get_pv_h'' 35 KFloat True,
    Field ''pow_get_pv_l'' 36 KFloat True, Field ''pow_get_pv'' 361 KFloat True,
    Field ''pow_get_pv2'' 70 KFloat True, Field ''pow_get_12v'' 37 KFloat True,
    Field ''pow_get_24v'' 38 KFloat True, Field ''pow_get_llc'' 52 KFloat True,
    Field ''pow_get_ac'' 53 KFloat True, Field ''pow_get_ac_in'' 54 KFloat True,
    Field ''pow_get_ac_out'' 368 KFloat True, Field ''pow_get_ac_hv_out'' 55 KFloat True,
    Field ''pow_get_ac_lv_out'' 56 KFloat True, Field ''pow_get_ac_lv_tt30_out'' 57 KFloat True,
    Field ''pow_get_5p8'' 58 KFloat True, Field ''pow_get_dc'' 297 KFloat True,
    Field ''pow_get_bms'' 158 KFloat True, Field ''pow_get_4p8_1'' 159 KFloat True,
    Field ''pow_get_4p8_2'' 160 KFloat True, Field ''pow_get_dcp'' 425 KFloat True,
    Field ''pow_get_dcp2'' 77 KFloat True, Field ''pow_get_dc_bidi'' 105 KFloat True]"

definition pr705_fields_4 :: descriptor where
  "pr705_fields_4 = [
    Field ''display_statistics_sum'' 463 KMessage True, Field ''flow_info_qcusb1'' 13 KUint32 True,
    Field ''flow_info_qcusb2'' 14 KUint32 True, Field ''flow_info_typec1'' 15 KUint32 True,
    Field ''flow_info_typec2'' 16 KUint32 True, Field ''flow_info_pv_h'' 31 KUint32 True,
    Field ''flow_info_pv_l'' 32 KUint32 True, Field ''flow_info_pv'' 360 KUint32 True,
    Field ''flow_info_pv2'' 414 KUint32 True, Field ''flow_info_12v'' 33 KUint32 True,
    Field ''flow_info_24v'' 34 KUint32 True, Field ''flow_info_ac2dc'' 45 KUint32 True,
    Field ''flow_info_dc2ac'' 46 KUint32 True, Field ''flow_info_ac_in'' 47 KUint32 True,
    Field ''flow_info_ac_hv_out'' 48 KUint32 True, Field ''flow_info_ac_lv_out'' 49 KUint32 True,
    Field ''flow_info_5p8_in'' 50 KUint32 True, Field ''flow_info_5p8_out'' 51 KUint32 True,
    Field ''flow_info_ac_out'' 367 KUint32 True, Field ''flow_info_bms_dsg'' 152 KUint32 True,
    Field ''flow_info_bms_chg'' 153 KUint32 True, Field ''flow_info_4p8_1_in'' 154 KUint32 True,
    Field ''flow_info_4p8_1_out'' 155 KUint32 True, Field ''flow_info_4p8_2_in'' 156 KUint32 True,
    Field ''flow_info_4p8_2_out'' 157 KUint32 True, Field ''flow_info_dcp_in'' 423 KUint32 True,
    Field ''flow_info_dcp_out'' 424 KUint32 True, Field ''flow_info_dcp2_in'' 78 KUint32 True,
    Field ''flow_info_dcp2_out'' 79 KUint32 True, Field ''plug_in_info_pv_h_flag'' 39 KUint32 True,
    Field ''plug_in_info_pv_h_type'' 40 KUint32 True,
    Field ''plug_in_info_pv_h_charger_flag'' 171 KBool True,
    Field ''plug_in_info_pv_h_dc_amp_max'' 181 KUint32 True,
    Field ''plug_in_info_pv_h_chg_amp_max'' 236 KUint32 True,
    Field ''plug_in_info_pv_h_chg_vol_max'' 233 KUint32 True,
    Field ''plug_in_info_pv_l_flag'' 42 KUint32 True,
    Field ''plug_in_info_pv_l_type'' 43 KUint32 True]"

definition pr705_fields_5 :: descriptor where
  "pr705_fields_5 = [
    Field ''plug_in_info_pv_l_charger_flag'' 170 KBool True,
    Field ''plug_in_info_pv_l_dc_amp_max'' 180 KUint32 True,
    Field ''plug_in_info_pv_l_chg_amp_max'' 235 KUint32 True,
    Field ''plug_in_info_pv_l_chg_vol_max'' 234 KUint32 True,
    Field ''plug_in_info_pv_flag'' 362 KBool True, Field ''plug_in_info_pv_type'' 363 KUint32 True,
    Field ''plug_in_info_pv_charger_flag'' 364 KBool True,
    Field ''plug_in_info_pv_dc_amp_max'' 356 KUint32 True,
    Field ''plug_in_info_pv_chg_amp_max'' 365 KUint32 True,
    Field ''plug_in_info_pv_chg_vol_max'' 366 KUint32 True,
    Field ''plug_in_info_pv_chg_max_list'' 136 KMessage True,
    Field ''plug_in_info_pv2_flag'' 421 KBool True,
    Field ''plug_in_info_pv2_type'' 422 KUint32 True,
    Field ''plug_in_info_pv2_charger_flag'' 430 KBool True,
    Field ''plug_in_info_pv2_dc_amp_max'' 80 KUint32 True,
    Field ''plug_in_info_pv2_chg_amp_max'' 81 KUint32 True,
    Field ''plug_in_info_pv2_chg_vol_max'' 82 KUint32 True,
    Field ''plug_in_info_pv2_chg_max_list'' 137 KMessage True,
    Field ''plug_in_info_ac_in_flag'' 61 KUint32 True,
    Field ''plug_in_info_ac_charger_flag'' 202 KBool True,
    Field ''plug_in_info_ac_in_feq'' 62 KUint32 True,
    Field ''plug_in_info_ac_in_chg_pow_max'' 209 KUint32 True,
    Field ''plug_in_info_ac_in_chg_hal_pow_max'' 458 KUint32 True,
    Field ''plug_in_info_ac_in_chg_mode'' 124 KEnum True,
    Field ''plug_in_info_ac_out_dsg_pow_max'' 238 KUint32 True,
    Field ''plug_in_info_5p8_chg_pow_max'' 210 KUint32 True,
    Field ''plug_in_info_5p8_chg_hal_pow_max'' 457 KUint32 True,
    Field ''plug_in_info_5p8_dsg_pow_max'' 237 KUint32 True,
    Field ''plug_in_info_5p8_flag'' 63 KUint32 True,
    Field ''plug_in_info_5p8_dsg_chg'' 191 KUint32 True,
    Field ''plug_in_info_5p8_charger_flag'' 203 KBool True,
    Field ''plug_in_info_5p8_type'' 64 KUint32 True,
    Field ''plug_in_info_5p8_detail'' 65 KUint32 True,
    Field ''plug_in_info_5p8_sn'' 193 KString True,
    Field ''plug_in_info_5p8_run_state'' 204 KUint32 True,
    Field ''plug_in_info_5p8_err_code'' 216 KUint32 True,
    Field ''plug_in_info_5p8_firm_ver'' 194 KUint32 True]"

definition pr705_fields_6 :: descriptor where
  "pr705_fields_6 = [
    Field ''plug_in_info_5p8_resv'' 192 KMessage True,
    Field ''plug_in_info_acp_chg_pow_max'' 107 KUint32 True,
    Field ''plug_in_info_acp_chg_hal_pow_max'' 108 KUint32 True,
    Field ''plug_in_info_acp_dsg_pow_max'' 109 KUint32 True,
    Field ''plug_in_info_acp_flag'' 110 KUint32 True,
    Field ''plug_in_info_acp_dsg_chg'' 111 KUint32 True,
    Field ''plug_in_info_acp_charger_flag'' 112 KBool True,
    Field ''plug_in_info_acp_type'' 113 KUint32 True,
    Field ''plug_in_info_acp_detail'' 114 KUint32 True,
    Field ''plug_in_info_acp_sn'' 115 KString True,
    Field ''plug_in_info_acp_run_state'' 116 KUint32 True,
    Field ''plug_in_info_acp_err_code'' 117 KUint32 True,
    Field ''plug_in_info_acp_firm_ver'' 118 KUint32 True,
    Field ''plug_in_info_acp_resv'' 119 KMessage True,
    Field ''plug_in_info_dc_bidi_flag'' 106 KBool True,
    Field ''plug_in_info_dcp_in_flag'' 426 KBool True,
    Field ''plug_in_info_dcp_dsg_chg_type'' 431 KUint32 True,
    Field ''plug_in_info_dcp_charger_flag'' 435 KBool True,
    Field ''plug_in_info_dcp_type'' 427 KUint32 True,
    Field ''plug_in_info_dcp_detail'' 428 KUint32 True,
    Field ''plug_in_info_dcp_sn'' 433 KString True,
    Field ''plug_in_info_dcp_run_state'' 436 KUint32 True,
    Field ''plug_in_info_dcp_firm_ver'' 434 KUint32 True,
    Field ''plug_in_info_dcp_resv'' 432 KMessage True,
    Field ''plug_in_info_dcp2_in_flag'' 83 KBool True,
    Field ''plug_in_info_dcp2_dsg_chg_type'' 84 KUint32 True,
    Field ''plug_in_info_dcp2_charger_flag'' 85 KBool True,
    Field ''plug_in_info_dcp2_type'' 86 KUint32 True,
    Field ''plug_in_info_dcp2_detail'' 87 KUint32 True,
    Field ''plug_in_info_dcp2_sn'' 88 KString True,
    Field ''plug_in_info_dcp2_run_state'' 89 KUint32 True,
    Field ''plug_in_info_dcp2_firm_ver'' 90 KUint32 True,
    Field ''plug_in_info_dcp2_resv'' 91 KMessage True,
    Field ''plug_in_info_4p8_1_in_flag'' 161 KUint32 True,
    Field ''plug_in_info_4p8_1_dsg_chg_type'' 183 KUint32 True,
    Field ''plug_in_info_4p8_1_charger_flag'' 205 KBool True,
    Field ''plug_in_info_4p8_1_type'' 162 KUint32 True]"

definition pr705_fields_7 :: descriptor where
  "pr705_fields_7 = [
    Field ''plug_in_info_4p8_1_detail'' 163 KUint32 True,
    Field ''plug_in_info_4p8_1_sn'' 185 KString True,
    Field ''plug_in_info_4p8_1_run_state'' 206 KUint32 True,
    Field ''plug_in_info_4p8_1_err_code'' 217 KUint32 True,
    Field ''plug_in_info_4p8_1_firm_ver'' 186 KUint32 True,
    Field ''plug_in_info_4p8_1_resv'' 184 KMessage True,
    Field ''plug_in_info_4p8_2_in_flag'' 164 KUint32 True,
    Field ''plug_in_info_4p8_2_dsg_chg_type'' 187 KUint32 True,
    Field ''plug_in_info_4p8_2_charger_flag'' 207 KBool True,
    Field ''plug_in_info_4p8_2_type'' 165 KUint32 True,
    Field ''plug_in_info_4p8_2_detail'' 166 KUint32 True,
    Field ''plug_in_info_4p8_2_sn'' 189 KString True,
    Field ''plug_in_info_4p8_2_run_state'' 208 KUint32 True,
    Field ''plug_in_info_4p8_2_err_code'' 218 KUint32 True,
    Field ''plug_in_info_4p8_2_firm_ver'' 190 KUint32 True,
    Field ''plug_in_info_4p8_2_resv'' 188 KMessage True,
    Field ''wireless_coordinate_dev_list'' 142 KMessage True,
    Field ''pd_err_code'' 213 KUint32 True, Field ''mppt_err_code'' 215 KUint32 True,
    Field ''llc_err_code'' 214 KUint32 True, Field ''llc_inv_err_code'' 232 KUint32 True,
    Field ''dcdc_err_code'' 437 KUint32 True, Field ''plug_in_info_dcp_err_code'' 438 KUint32 True,
    Field ''plug_in_info_dcp2_err_code'' 439 KUint32 True, Field ''bms_err_code'' 140 KUint32 True,
    Field ''inv_err_code'' 450 KUint32 True, Field ''err_code_record_list'' 141 KMessage True,
    Field ''pcs_fan_level'' 30 KUint32 True, Field ''pcs_fan_err_flag'' 226 KUint32 True,
    Field ''generator_fuels_type'' 299 KUint32 True,
    Field ''generator_remain_time'' 300 KUint32 True,
    Field ''generator_run_time'' 301 KUint32 True,
    Field ''generator_total_output'' 302 KUint32 True,
    Field ''generator_abnormal_state'' 303 KUint32 True, Field ''fuels_oil_val'' 304 KUint32 True,
    Field ''fuels_liquefied_gas_type'' 305 KUint32 True,
    Field ''fuels_liquefied_gas_uint'' 306 KUint32 True]"

definition pr705_fields_8 :: descriptor where
  "pr705_fields_8 = [
    Field ''fuels_liquefied_gas_val'' 307 KFloat True,
    Field ''fuels_liquefied_gas_consume_per_hour'' 308 KFloat True,
    Field ''fuels_liquefied_gas_remain_val'' 309 KUint32 True,
    Field ''fuels_liquefied_gas_lpg_uint'' 131 KUint32 True,
    Field ''fuels_liquefied_gas_lng_uint'' 132 KUint32 True,
    Field ''generator_perf_mode'' 310 KUint32 True,
    Field ''generator_engine_open'' 311 KUint32 True,
    Field ''generator_low_power_en'' 127 KBool True,
    Field ''generator_low_power_threshold'' 128 KUint32 True,
    Field ''generator_lpg_monitor_en'' 129 KBool True,
    Field ''generator_out_pow_max'' 312 KUint32 True,
    Field ''generator_ac_out_pow_max'' 313 KUint32 True,
    Field ''generator_dc_out_pow_max'' 314 KUint32 True,
    Field ''generator_sub_battery_temp'' 315 KInt32 True,
    Field ''generator_sub_battery_soc'' 316 KUint32 True,
    Field ''generator_sub_battery_state'' 317 KUint32 True,
    Field ''generator_maintence_state'' 319 KBool True,
    Field ''generator_pcs_err_code'' 330 KUint32 True,
    Field ''generator_conn_dev_errcode'' 123 KUint32 True,
    Field ''sp_charger_chg_mode'' 581 KEnum True, Field ''sp_charger_chg_open'' 597 KBool True,
    Field ''sp_charger_chg_pow_limit'' 598 KFloat True,
    Field ''sp_charger_chg_pow_max'' 603 KFloat True,
    Field ''sp_charger_run_state'' 582 KUint32 True,
    Field ''sp_charger_is_connect_car'' 583 KBool True,
    Field ''sp_charger_car_batt_vol_setting'' 138 KUint32 True,
    Field ''sp_charger_car_batt_vol'' 139 KFloat True,
    Field ''module_bluetooth_snr'' 599 KFloat True,
    Field ''module_bluetooth_rssi'' 600 KFloat True, Field ''module_wifi_snr'' 601 KFloat True,
    Field ''module_wifi_rssi'' 602 KFloat True,
    Field ''installment_payment_serve_enable'' 591 KBool True,
    Field ''serve_middlemen'' 592 KEnum True,
    Field ''installment_payment_overdue_limit'' 593 KEnum True,
    Field ''installment_payment_state'' 594 KEnum True,
    Field ''installment_payment_start_utc_time'' 595 KUint32 True,
    Field ''installment_payment_overdue_limit_utc_time'' 596 KUint32 True]"

definition pr705_fields :: descriptor where
  "pr705_fields = pr705_fields_1 @ pr705_fields_2 @ pr705_fields_3 @ pr705_fields_4 @ pr705_fields_5 @ pr705_fields_6 @ pr705_fields_7 @ pr705_fields_8"

definition mr521_fields_1 :: descriptor where
  "mr521_fields_1 = [
    Field ''errcode'' 1 KUint32 True, Field ''sys_status'' 2 KUint32 True,
    Field ''dev_online_flag'' 130 KBool True, Field ''utc_timezone'' 133 KInt32 True,
    Field ''utc_timezone_id'' 134 KString True, Field ''utc_set_mode'' 135 KBool True,
    Field ''cms_bms_run_state'' 275 KUint32 True, Field ''cms_batt_soc'' 262 KFloat True,
    Field ''cms_batt_soh'' 263 KFloat True, Field ''cms_chg_dsg_state'' 282 KUint32 True,
    Field ''cms_batt_full_cap'' 287 KUint32 True, Field ''cms_batt_design_cap'' 288 KUint32 True,
    Field ''cms_batt_remain_cap'' 289 KUint32 True,
    Field ''cms_batt_full_energy'' 462 KUint32 True, Field ''cms_dsg_rem_time'' 268 KUint32 True,
    Field ''cms_chg_rem_time'' 269 KUint32 True, Field ''cms_batt_pow_out_max'' 459 KUint32 True,
    Field ''cms_batt_pow_in_max'' 460 KUint32 True, Field ''cms_batt_temp'' 102 KInt32 True,
    Field ''cms_max_chg_soc'' 270 KUint32 True, Field ''cms_min_dsg_soc'' 271 KUint32 True,
    Field ''bms_batt_soc'' 242 KFloat True, Field ''bms_batt_soh'' 243 KFloat True,
    Field ''bms_chg_dsg_state'' 281 KUint32 True, Field ''bms_design_cap'' 248 KUint32 True,
    Field ''bms_dsg_rem_time'' 254 KUint32 True, Field ''bms_chg_rem_time'' 255 KUint32 True,
    Field ''bms_min_cell_temp'' 258 KInt32 True, Field ''bms_max_cell_temp'' 259 KInt32 True,
    Field ''bms_min_mos_temp'' 260 KInt32 True, Field ''bms_max_mos_temp'' 261 KInt32 True,
    Field ''dev_sleep_state'' 212 KUint32 True, Field ''en_beep'' 195 KBool True,
    Field ''lcd_light'' 5 KUint32 True, Field ''ac_out_open'' 298 KBool True,
    Field ''btn_ac_out_lv_switch'' 72 KBool True, Field ''btn_ac_out_hv_switch'' 73 KBool True]"

definition mr521_fields_2 :: descriptor where
  "mr521_fields_2 = [
    Field ''dc_out_open'' 74 KBool True, Field ''btn_dc_12v_out_switch'' 75 KBool True,
    Field ''btn_usb_switch'' 76 KBool True, Field ''dev_standby_time'' 17 KUint32 True,
    Field ''screen_off_time'' 18 KUint32 True, Field ''ac_standby_time'' 19 KUint32 True,
    Field ''dc_standby_time'' 20 KUint32 True, Field ''ble_standby_time'' 290 KUint32 True,
    Field ''ups_alram'' 355 KBool True, Field ''led_mode'' 357 KUint32 True,
    Field ''low_power_alarm'' 358 KUint32 True, Field ''silence_chg_watt'' 359 KUint32 True,
    Field ''ac_out_freq'' 211 KUint32 True, Field ''llc_hv_lv_flag'' 227 KUint32 True,
    Field ''ac_always_on_flag'' 22 KBool True, Field ''ac_hv_always_on'' 283 KBool True,
    Field ''ac_lv_always_on'' 284 KBool True, Field ''ac_always_on_mini_soc'' 23 KUint32 True,
    Field ''xboost_en'' 25 KBool True, Field ''output_power_off_memory'' 147 KBool True,
    Field ''fast_charge_switch'' 182 KUint32 True, Field ''llc_GFCI_flag'' 200 KBool True,
    Field ''ac_energy_saving_open'' 455 KBool True, Field ''bypass_out_disable'' 146 KBool True,
    Field ''pv_dc_chg_setting_list'' 125 KMessage True, Field ''pv_chg_type'' 148 KUint32 True,
    Field ''energy_backup_state'' 6 KUint32 True, Field ''energy_backup_start_soc'' 8 KUint32 True,
    Field ''energy_backup_en'' 7 KBool True, Field ''storm_pattern_enable'' 467 KBool True,
    Field ''storm_pattern_open_flag'' 468 KBool True,
    Field ''storm_pattern_end_time'' 469 KUint32 True,
    Field ''time_task_current'' 219 KMessage True,
    Field ''current_time_task_v2_item'' 126 KMessage True,
    Field ''time_task_conflict_flag'' 285 KUint32 True,
    Field ''time_task_change_cnt'' 286 KUint32 True, Field ''cms_oil_self_start'' 274 KBool True]"

definition mr521_fields_3 :: descriptor where
  "mr521_fields_3 = [
    Field ''cms_oil_on_soc'' 272 KUint32 True, Field ''cms_oil_off_soc'' 273 KUint32 True,
    Field ''wireless_oil_self_start'' 143 KBool True,
    Field ''wireless_oil_on_soc'' 144 KUint32 True,
    Field ''wireless_oil_off_soc'' 145 KUint32 True,
    Field ''generator_pv_hybrid_mode_open'' 451 KBool True,
    Field ''generator_pv_hybrid_mode_soc_max'' 452 KUint32 True,
    Field ''generator_care_mode_open'' 453 KBool True,
    Field ''generator_care_mode_start_time'' 454 KUint32 True,
    Field ''multi_bp_chg_dsg_mode'' 456 KUint32 True, Field ''pow_in_sum_w'' 3 KFloat True,
    Field ''pow_out_sum_w'' 4 KFloat True, Field ''pow_get_qcusb1'' 9 KFloat True,
    Field ''pow_get_qcusb2'' 10 KFloat True, Field ''pow_get_typec1'' 11 KFloat True,
    Field ''pow_get_typec2'' 12 KFloat True, Field ''pow_get_pv_h'' 35 KFloat True,
    Field ''pow_get_pv_l'' 36 KFloat True, Field ''pow_get_pv'' 361 KFloat True,
    Field ''pow_get_pv2'' 70 KFloat True, Field ''pow_get_12v'' 37 KFloat True,
    Field ''pow_get_24v'' 38 KFloat True, Field ''pow_get_llc'' 52 KFloat True,
    Field ''pow_get_ac'' 53 KFloat True, Field ''pow_get_ac_in'' 54 KFloat True,
    Field ''pow_get_ac_out'' 368 KFloat True, Field ''pow_get_ac_hv_out'' 55 KFloat True,
    Field ''pow_get_ac_lv_out'' 56 KFloat True, Field ''pow_get_ac_lv_tt30_out'' 57 KFloat True,
    Field ''pow_get_5p8'' 58 KFloat True, Field ''pow_get_dc'' 297 KFloat True,
    Field ''pow_get_bms'' 158 KFloat True, Field ''pow_get_4p8_1'' 159 KFloat True,
    Field ''pow_get_4p8_2'' 160 KFloat True, Field ''pow_get_dcp'' 425 KFloat True,
    Field ''pow_get_dcp2'' 77 KFloat True, Field ''pow_get_dc_bidi'' 105 KFloat True]"

definition mr521_fields_4 :: descriptor where
  "mr521_fields_4 = [
    Field ''display_statistics_sum'' 463 KMessage True, Field ''flow_info_qcusb1'' 13 KUint32 True,
    Field ''flow_info_qcusb2'' 14 KUint32 True, Field ''flow_info_typec1'' 15 KUint32 True,
    Field ''flow_info_typec2'' 16 KUint32 True, Field ''flow_info_pv_h'' 31 KUint32 True,
    Field ''flow_info_pv_l'' 32 KUint32 True, Field ''flow_info_pv'' 360 KUint32 True,
    Field ''flow_info_pv2'' 414 KUint32 True, Field ''flow_info_12v'' 33 KUint32 True,
    Field ''flow_info_24v'' 34 KUint32 True, Field ''flow_info_ac2dc'' 45 KUint32 True,
    Field ''flow_info_dc2ac'' 46 KUint32 True, Field ''flow_info_ac_in'' 47 KUint32 True,
    Field ''flow_info_ac_hv_out'' 48 KUint32 True, Field ''flow_info_ac_lv_out'' 49 KUint32 True,
    Field ''flow_info_5p8_in'' 50 KUint32 True, Field ''flow_info_5p8_out'' 51 KUint32 True,
    Field ''flow_info_ac_out'' 367 KUint32 True, Field ''flow_info_bms_dsg'' 152 KUint32 True,
    Field ''flow_info_bms_chg'' 153 KUint32 True, Field ''flow_info_4p8_1_in'' 154 KUint32 True,
    Field ''flow_info_4p8_1_out'' 155 KUint32 True, Field ''flow_info_4p8_2_in'' 156 KUint32 True,
    Field ''flow_info_4p8_2_out'' 157 KUint32 True, Field ''flow_info_dcp_in'' 423 KUint32 True,
    Field ''flow_info_dcp_out'' 424 KUint32 True, Field ''flow_info_dcp2_in'' 78 KUint32 True,
    Field ''flow_info_dcp2_out'' 79 KUint32 True, Field ''plug_in_info_pv_h_flag'' 39 KUint32 True,
    Field ''plug_in_info_pv_h_type'' 40 KUint32 True,
    Field ''plug_in_info_pv_h_charger_flag'' 171 KBool True,
    Field ''plug_in_info_pv_h_dc_amp_max'' 181 KUint32 True,
    Field ''plug_in_info_pv_h_chg_amp_max'' 236 KUint32 True,
    Field ''plug_in_info_pv_h_chg_vol_max'' 233 KUint32 True,
    Field ''plug_in_info_pv_l_flag'' 42 KUint32 True,
    Field ''plug_in_info_pv_l_type'' 43 KUint32 True]"

definition mr521_fields_5 :: descriptor where
  "mr521_fields_5 = [
    Field ''plug_in_info_pv_l_charger_flag'' 170 KBool True,
    Field ''plug_in_info_pv_l_dc_amp_max'' 180 KUint32 True,
    Field ''plug_in_info_pv_l_chg_amp_max'' 235 KUint32 True,
    Field ''plug_in_info_pv_l_chg_vol_max'' 234 KUint32 True,
    Field ''plug_in_info_pv_flag'' 362 KBool True, Field ''plug_in_info_pv_type'' 363 KUint32 True,
    Field ''plug_in_info_pv_charger_flag'' 364 KBool True,
    Field ''plug_in_info_pv_dc_amp_max'' 356 KUint32 True,
    Field ''plug_in_info_pv_chg_amp_max'' 365 KUint32 True,
    Field ''plug_in_info_pv_chg_vol_max'' 366 KUint32 True,
    Field ''plug_in_info_pv_chg_max_list'' 136 KMessage True,
    Field ''plug_in_info_pv2_flag'' 421 KBool True,
    Field ''plug_in_info_pv2_type'' 422 KUint32 True,
    Field ''plug_in_info_pv2_charger_flag'' 430 KBool True,
    Field ''plug_in_info_pv2_dc_amp_max'' 80 KUint32 True,
    Field ''plug_in_info_pv2_chg_amp_max'' 81 KUint32 True,
    Field ''plug_in_info_pv2_chg_vol_max'' 82 KUint32 True,
    Field ''plug_in_info_pv2_chg_max_list'' 137 KMessage True,
    Field ''plug_in_info_ac_in_flag'' 61 KUint32 True,
    Field ''plug_in_info_ac_charger_flag'' 202 KBool True,
    Field ''plug_in_info_ac_in_feq'' 62 KUint32 True,
    Field ''plug_in_info_ac_in_chg_pow_max'' 209 KUint32 True,
    Field ''plug_in_info_ac_in_chg_hal_pow_max'' 458 KUint32 True,
    Field ''plug_in_info_ac_in_chg_mode'' 124 KEnum True,
    Field ''plug_in_info_ac_out_dsg_pow_max'' 238 KUint32 True,
    Field ''plug_in_info_5p8_chg_pow_max'' 210 KUint32 True,
    Field ''plug_in_info_5p8_chg_hal_pow_max'' 457 KUint32 True,
    Field ''plug_in_info_5p8_dsg_pow_max'' 237 KUint32 True,
    Field ''plug_in_info_5p8_flag'' 63 KUint32 True,
    Field ''plug_in_info_5p8_dsg_chg'' 191 KUint32 True,
    Field ''plug_in_info_5p8_charger_flag'' 203 KBool True,
    Field ''plug_in_info_5p8_type'' 64 KUint32 True,
    Field ''plug_in_info_5p8_detail'' 65 KUint32 True,
    Field ''plug_in_info_5p8_sn'' 193 KString True,
    Field ''plug_in_info_5p8_run_state'' 204 KUint32 True,
    Field ''plug_in_info_5p8_err_code'' 216 KUint32 True,
    Field ''plug_in_info_5p8_firm_ver'' 194 KUint32 True]"

definition mr521_fields_6 :: descriptor where
  "mr521_fields_6 = [
    Field ''plug_in_info_5p8_resv'' 192 KMessage True,
    Field ''plug_in_info_acp_chg_pow_max'' 107 KUint32 True,
    Field ''plug_in_info_acp_chg_hal_pow_max'' 108 KUint32 True,
    Field ''plug_in_info_acp_dsg_pow_max'' 109 KUint32 True,
    Field ''plug_in_info_acp_flag'' 110 KUint32 True,
    Field ''plug_in_info_acp_dsg_chg'' 111 KUint32 True,
    Field ''plug_in_info_acp_charger_flag'' 112 KBool True,
    Field ''plug_in_info_acp_type'' 113 KUint32 True,
    Field ''plug_in_info_acp_detail'' 114 KUint32 True,
    Field ''plug_in_info_acp_sn'' 115 KString True,
    Field ''plug_in_info_acp_run_state'' 116 KUint32 True,
    Field ''plug_in_info_acp_err_code'' 117 KUint32 True,
    Field ''plug_in_info_acp_firm_ver'' 118 KUint32 True,
    Field ''plug_in_info_acp_resv'' 119 KMessage True,
    Field ''plug_in_info_dc_bidi_flag'' 106 KBool True,
    Field ''plug_in_info_dcp_in_flag'' 426 KBool True,
    Field ''plug_in_info_dcp_dsg_chg_type'' 431 KUint32 True,
    Field ''plug_in_info_dcp_charger_flag'' 435 KBool True,
    Field ''plug_in_info_dcp_type'' 427 KUint32 True,
    Field ''plug_in_info_dcp_detail'' 428 KUint32 True,
    Field ''plug_in_info_dcp_sn'' 433 KString True,
    Field ''plug_in_info_dcp_run_state'' 436 KUint32 True,
    Field ''plug_in_info_dcp_firm_ver'' 434 KUint32 True,
    Field ''plug_in_info_dcp_resv'' 432 KMessage True,
    Field ''plug_in_info_dcp2_in_flag'' 83 KBool True,
    Field ''plug_in_info_dcp2_dsg_chg_type'' 84 KUint32 True,
    Field ''plug_in_info_dcp2_charger_flag'' 85 KBool True,
    Field ''plug_in_info_dcp2_type'' 86 KUint32 True,
    Field ''plug_in_info_dcp2_detail'' 87 KUint32 True,
    Field ''plug_in_info_dcp2_sn'' 88 KString True,
    Field ''plug_in_info_dcp2_run_state'' 89 KUint32 True,
    Field ''plug_in_info_dcp2_firm_ver'' 90 KUint32 True,
    Field ''plug_in_info_dcp2_resv'' 91 KMessage True,
    Field ''plug_in_info_4p8_1_in_flag'' 161 KUint32 True,
    Field ''plug_in_info_4p8_1_dsg_chg_type'' 183 KUint32 True,
    Field ''plug_in_info_4p8_1_charger_flag'' 205 KBool True,
    Field ''plug_in_info_4p8_1_type'' 162 KUint32 True]"

definition mr521_fields_7 :: descriptor where
  "mr521_fields_7 = [
    Field ''plug_in_info_4p8_1_detail'' 163 KUint32 True,
    Field ''plug_in_info_4p8_1_sn'' 185 KString True,
    Field ''plug_in_info_4p8_1_run_state'' 206 KUint32 True,
    Field ''plug_in_info_4p8_1_err_code'' 217 KUint32 True,
    Field ''plug_in_info_4p8_1_firm_ver'' 186 KUint32 True,
    Field ''plug_in_info_4p8_1_resv'' 184 KMessage True,
    Field ''plug_in_info_4p8_2_in_flag'' 164 KUint32 True,
    Field ''plug_in_info_4p8_2_dsg_chg_type'' 187 KUint32 True,
    Field ''plug_in_info_4p8_2_charger_flag'' 207 KBool True,
    Field ''plug_in_info_4p8_2_type'' 165 KUint32 True,
    Field ''plug_in_info_4p8_2_detail'' 166 KUint32 True,
    Field ''plug_in_info_4p8_2_sn'' 189 KString True,
    Field ''plug_in_info_4p8_2_run_state'' 208 KUint32 True,
    Field ''plug_in_info_4p8_2_err_code'' 218 KUint32 True,
    Field ''plug_in_info_4p8_2_firm_ver'' 190 KUint32 True,
    Field ''plug_in_info_4p8_2_resv'' 188 KMessage True,
    Field ''wireless_coordinate_dev_list'' 142 KMessage True,
    Field ''pd_err_code'' 213 KUint32 True, Field ''mppt_err_code'' 215 KUint32 True,
    Field ''llc_err_code'' 214 KUint32 True, Field ''llc_inv_err_code'' 232 KUint32 True,
    Field ''dcdc_err_code'' 437 KUint32 True, Field ''plug_in_info_dcp_err_code'' 438 KUint32 True,
    Field ''plug_in_info_dcp2_err_code'' 439 KUint32 True, Field ''bms_err_code'' 140 KUint32 True,
    Field ''inv_err_code'' 450 KUint32 True, Field ''err_code_record_list'' 141 KMessage True,
    Field ''pcs_fan_level'' 30 KUint32 True, Field ''pcs_fan_err_flag'' 226 KUint32 True,
    Field ''generator_fuels_type'' 299 KUint32 True,
    Field ''generator_remain_time'' 300 KUint32 True,
    Field ''generator_run_time'' 301 KUint32 True,
    Field ''generator_total_output'' 302 KUint32 True,
    Field ''generator_abnormal_state'' 303 KUint32 True, Field ''fuels_oil_val'' 304 KUint32 True,
    Field ''fuels_liquefied_gas_type'' 305 KUint32 True,
    Field ''fuels_liquefied_gas_uint'' 306 KUint32 True]"

definition mr521_fields_8 :: descriptor where
  "mr521_fields_8 = [
    Field ''fuels_liquefied_gas_val'' 307 KFloat True,
    Field ''fuels_liquefied_gas_consume_per_hour'' 308 KFloat True,
    Field ''fuels_liquefied_gas_remain_val'' 309 KUint32 True,
    Field ''fuels_liquefied_gas_lpg_uint'' 131 KUint32 True,
    Field ''fuels_liquefied_gas_lng_uint'' 132 KUint32 True,
    Field ''generator_perf_mode'' 310 KUint32 True,
    Field ''generator_engine_open'' 311 KUint32 True,
    Field ''generator_low_power_en'' 127 KBool True,
    Field ''generator_low_power_threshold'' 128 KUint32 True,
    Field ''generator_lpg_monitor_en'' 129 KBool True,
    Field ''generator_out_pow_max'' 312 KUint32 True,
    Field ''generator_ac_out_pow_max'' 313 KUint32 True,
    Field ''generator_dc_out_pow_max'' 314 KUint32 True,
    Field ''generator_sub_battery_temp'' 315 KInt32 True,
    Field ''generator_sub_battery_soc'' 316 KUint32 True,
    Field ''generator_sub_battery_state'' 317 KUint32 True,
    Field ''generator_maintence_state'' 319 KBool True,
    Field ''generator_pcs_err_code'' 330 KUint32 True,
    Field ''generator_conn_dev_errcode'' 123 KUint32 True,
    Field ''sp_charger_chg_mode'' 581 KEnum True, Field ''sp_charger_chg_open'' 597 KBool True,
    Field ''sp_charger_chg_pow_limit'' 598 KFloat True,
    Field ''sp_charger_chg_pow_max'' 603 KFloat True,
    Field ''sp_charger_run_state'' 582 KUint32 True,
    Field ''sp_charger_is_connect_car'' 583 KBool True,
    Field ''sp_charger_car_batt_vol_setting'' 138 KUint32 True,
    Field ''sp_charger_car_batt_vol'' 139 KFloat True,
    Field ''module_bluetooth_snr'' 599 KFloat True,
    Field ''module_bluetooth_rssi'' 600 KFloat True, Field ''module_wifi_snr'' 601 KFloat True,
    Field ''module_wifi_rssi'' 602 KFloat True,
    Field ''installment_payment_serve_enable'' 591 KBool True,
    Field ''serve_middlemen'' 592 KEnum True,
    Field ''installment_payment_overdue_limit'' 593 KEnum True,
    Field ''installment_payment_state'' 594 KEnum True,
    Field ''installment_payment_start_utc_time'' 595 KUint32 True,
    Field ''installment_payment_overdue_limit_utc_time'' 596 KUint32 True]"

definition mr521_fields :: descriptor where
  "mr521_fields = mr521_fields_1 @ mr521_fields_2 @ mr521_fields_3 @ mr521_fields_4 @ mr521_fields_5 @ mr521_fields_6 @ mr521_fields_7 @ mr521_fields_8"

definition pd335_fields_1 :: descriptor where
  "pd335_fields_1 = [
    Field ''std_proto_version'' 975 KUint32 True, Field ''update_ban_flag'' 977 KUint32 True,
    Field ''utc_timezone'' 133 KInt32 True, Field ''utc_timezone_id'' 134 KString True,
    Field ''utc_set_mode'' 135 KBool True, Field ''timezone_change_list'' 976 KMessage True,
    Field ''errcode'' 1 KUint32 True, Field ''pd_err_code'' 213 KUint32 True,
    Field ''dcdc_err_code'' 437 KUint32 True, Field ''plug_in_info_dcp_err_code'' 438 KUint32 True,
    Field ''plug_in_info_dcp2_err_code'' 439 KUint32 True, Field ''bms_err_code'' 140 KUint32 True,
    Field ''inv_err_code'' 450 KUint32 True, Field ''cms_bms_run_state'' 275 KUint32 True,
    Field ''cms_batt_soc'' 262 KFloat True, Field ''cms_batt_soh'' 263 KFloat True,
    Field ''cms_chg_dsg_state'' 282 KUint32 True, Field ''cms_batt_full_energy'' 462 KUint32 True,
    Field ''cms_dsg_rem_time'' 268 KUint32 True, Field ''cms_chg_rem_time'' 269 KUint32 True,
    Field ''cms_batt_pow_out_max'' 459 KUint32 True,
    Field ''cms_batt_pow_in_max'' 460 KUint32 True, Field ''cms_max_chg_soc'' 270 KUint32 True,
    Field ''cms_min_dsg_soc'' 271 KUint32 True, Field ''bms_batt_soc'' 242 KFloat True,
    Field ''bms_batt_soh'' 243 KFloat True, Field ''bms_chg_dsg_state'' 281 KUint32 True,
    Field ''bms_design_cap'' 248 KUint32 True, Field ''bms_dsg_rem_time'' 254 KUint32 True,
    Field ''bms_chg_rem_time'' 255 KUint32 True, Field ''bms_min_cell_temp'' 258 KInt32 True,
    Field ''bms_max_cell_temp'' 259 KInt32 True, Field ''bms_min_mos_temp'' 260 KInt32 True,
    Field ''bms_max_mos_temp'' 261 KInt32 True, Field ''bms_main_sn'' 392 KString True,
    Field ''dev_sleep_state'' 212 KUint32 True, Field ''en_beep'' 195 KBool True]"

definition pd335_fields_2 :: descriptor where
  "pd335_fields_2 = [
    Field ''lcd_light'' 5 KUint32 True, Field ''dev_standby_time'' 17 KUint32 True,
    Field ''screen_off_time'' 18 KUint32 True, Field ''ac_standby_time'' 19 KUint32 True,
    Field ''ac2_standby_time'' 1460 KUint32 True, Field ''dc_standby_time'' 20 KUint32 True,
    Field ''ups_alram'' 355 KBool True, Field ''ac_out_freq'' 211 KUint32 True,
    Field ''llc_hv_lv_flag'' 227 KUint32 True, Field ''xboost_en'' 25 KBool True,
    Field ''output_power_off_memory'' 147 KBool True,
    Field ''fast_charge_switch'' 182 KUint32 True, Field ''bypass_out_disable'' 146 KBool True,
    Field ''bypass_out_disable_conflict_flag'' 398 KUint32 True,
    Field ''pv_dc_chg_setting_list'' 125 KMessage True,
    Field ''energy_backup_start_soc'' 8 KUint32 True, Field ''energy_backup_en'' 7 KBool True,
    Field ''storm_pattern_enable'' 467 KBool True,
    Field ''storm_pattern_open_flag'' 468 KBool True,
    Field ''storm_pattern_end_time'' 469 KUint32 True,
    Field ''storm_pattern_conflict_flag'' 397 KUint32 True,
    Field ''time_task_current'' 219 KMessage True,
    Field ''time_task_conflict_flag'' 285 KUint32 True,
    Field ''time_task_change_cnt'' 286 KUint32 True,
    Field ''energy_strategy_operate_mode'' 393 KMessage True,
    Field ''backup_reverse_soc'' 461 KUint32 True,
    Field ''energy_backup_conflict_flag'' 394 KUint32 True,
    Field ''self_powered_conflict_flag'' 395 KUint32 True,
    Field ''tou_mode_conflict_flag'' 396 KUint32 True,
    Field ''power_outages_active_flag'' 1279 KUint32 True,
    Field ''power_outages_list'' 968 KMessage True,
    Field ''power_protect_port_select'' 1539 KUint32 True,
    Field ''cms_oil_self_start'' 274 KBool True, Field ''cms_oil_on_soc'' 272 KUint32 True,
    Field ''cms_oil_off_soc'' 273 KUint32 True, Field ''wireless_oil_self_start'' 143 KBool True,
    Field ''wireless_oil_on_soc'' 144 KUint32 True]"

definition pd335_fields_3 :: descriptor where
  "pd335_fields_3 = [
    Field ''wireless_oil_off_soc'' 145 KUint32 True,
    Field ''multi_bp_chg_dsg_mode'' 456 KUint32 True, Field ''pow_in_sum_w'' 3 KFloat True,
    Field ''pow_out_sum_w'' 4 KFloat True, Field ''pow_get_qcusb1'' 9 KFloat True,
    Field ''pow_get_qcusb2'' 10 KFloat True, Field ''pow_get_typec1'' 11 KFloat True,
    Field ''pow_get_typec2'' 12 KFloat True, Field ''pow_get_typec3'' 100 KFloat True,
    Field ''pow_get_pv'' 361 KFloat True, Field ''pow_get_pv2'' 70 KFloat True,
    Field ''pow_get_12v'' 37 KFloat True, Field ''pow_get_12v_list'' 969 KMessage True,
    Field ''pow_get_ac'' 53 KFloat True, Field ''pow_get_ac_in'' 54 KFloat True,
    Field ''pow_get_ac_out'' 368 KFloat True, Field ''pow_get_ac_out_list'' 972 KMessage True,
    Field ''pow_get_dc'' 297 KFloat True, Field ''pow_get_bms'' 158 KFloat True,
    Field ''pow_get_dcp'' 425 KFloat True, Field ''pow_get_dcp2'' 77 KFloat True,
    Field ''flow_info_qcusb1'' 13 KUint32 True, Field ''flow_info_qcusb2'' 14 KUint32 True,
    Field ''flow_info_typec1'' 15 KUint32 True, Field ''flow_info_typec2'' 16 KUint32 True,
    Field ''flow_info_typec3'' 979 KUint32 True, Field ''flow_info_pv'' 360 KUint32 True,
    Field ''flow_info_pv2'' 414 KUint32 True, Field ''flow_info_12v'' 33 KUint32 True,
    Field ''flow_info_ac2dc'' 45 KUint32 True, Field ''flow_info_dc2ac'' 46 KUint32 True,
    Field ''flow_info_ac_in'' 47 KUint32 True, Field ''flow_info_ac_out'' 367 KUint32 True,
    Field ''flow_info_ac2_out'' 971 KUint32 True, Field ''flow_info_bms_dsg'' 152 KUint32 True,
    Field ''flow_info_bms_chg'' 153 KUint32 True, Field ''flow_info_dcp_in'' 423 KUint32 True]"

definition pd335_fields_4 :: descriptor where
  "pd335_fields_4 = [
    Field ''flow_info_dcp_out'' 424 KUint32 True, Field ''flow_info_dcp2_in'' 78 KUint32 True,
    Field ''flow_info_dcp2_out'' 79 KUint32 True, Field ''plug_in_info_pv_flag'' 362 KBool True,
    Field ''plug_in_info_pv_type'' 363 KUint32 True,
    Field ''plug_in_info_pv_charger_flag'' 364 KBool True,
    Field ''plug_in_info_pv_chg_amp_max'' 365 KUint32 True,
    Field ''plug_in_info_pv_chg_vol_max'' 366 KUint32 True,
    Field ''plug_in_info_pv_chg_max_list'' 136 KMessage True,
    Field ''plug_in_info_pv2_flag'' 421 KBool True,
    Field ''plug_in_info_pv2_type'' 422 KUint32 True,
    Field ''plug_in_info_pv2_charger_flag'' 430 KBool True,
    Field ''plug_in_info_pv2_dc_amp_max'' 80 KUint32 True,
    Field ''plug_in_info_pv2_chg_amp_max'' 81 KUint32 True,
    Field ''plug_in_info_pv2_chg_vol_max'' 82 KUint32 True,
    Field ''plug_in_info_pv2_chg_max_list'' 137 KMessage True,
    Field ''plug_in_info_pv_vol_low_flag'' 1264 KUint32 True,
    Field ''plug_in_info_pv_weak_source_flag'' 1265 KUint32 True,
    Field ''plug_in_info_ac_in_flag'' 61 KUint32 True,
    Field ''plug_in_info_ac_charger_flag'' 202 KBool True,
    Field ''plug_in_info_ac_in_feq'' 62 KUint32 True,
    Field ''plug_in_info_ac_in_chg_pow_max'' 209 KUint32 True,
    Field ''plug_in_info_ac_in_chg_hal_pow_max'' 458 KUint32 True,
    Field ''plug_in_info_ac_in_chg_mode'' 124 KEnum True,
    Field ''plug_in_info_ac_out_dsg_pow_max'' 238 KUint32 True,
    Field ''plug_in_info_dcp_in_flag'' 426 KBool True,
    Field ''plug_in_info_dcp_dsg_chg_type'' 431 KUint32 True,
    Field ''plug_in_info_dcp_charger_flag'' 435 KBool True,
    Field ''plug_in_info_dcp_type'' 427 KUint32 True,
    Field ''plug_in_info_dcp_detail'' 428 KUint32 True,
    Field ''plug_in_info_dcp_sn'' 433 KString True,
    Field ''plug_in_info_dcp_run_state'' 436 KUint32 True,
    Field ''plug_in_info_dcp_firm_ver'' 434 KUint32 True,
    Field ''plug_in_info_dcp_resv'' 432 KMessage True,
    Field ''plug_in_info_dcp2_in_flag'' 83 KBool True,
    Field ''plug_in_info_dcp2_dsg_chg_type'' 84 KUint32 True,
    Field ''plug_in_info_dcp2_charger_flag'' 85 KBool True]"

definition pd335_fields_5 :: descriptor where
  "pd335_fields_5 = [
    Field ''plug_in_info_dcp2_type'' 86 KUint32 True,
    Field ''plug_in_info_dcp2_detail'' 87 KUint32 True,
    Field ''plug_in_info_dcp2_sn'' 88 KString True,
    Field ''plug_in_info_dcp2_run_state'' 89 KUint32 True,
    Field ''plug_in_info_dcp2_firm_ver'' 90 KUint32 True,
    Field ''plug_in_info_dcp2_resv'' 91 KMessage True,
    Field ''wireless_coordinate_dev_list'' 142 KMessage True,
    Field ''pcs_fan_level'' 30 KUint32 True, Field ''pcs_fan_err_flag'' 226 KUint32 True,
    Field ''module_wifi_rssi'' 602 KFloat True]"

definition pd335_fields :: descriptor where
  "pd335_fields = pd335_fields_1 @ pd335_fields_2 @ pd335_fields_3 @ pd335_fields_4 @ pd335_fields_5"

definition yj751_fields_1 :: descriptor where
  "yj751_fields_1 = [
    Field ''plug_in_info_pv_h_flag'' 39 KUint32 True,
    Field ''plug_in_info_pv_h_type'' 40 KUint32 True, Field ''pow_get_pv_h'' 35 KFloat True,
    Field ''plug_in_info_pv_l_flag'' 42 KUint32 True,
    Field ''plug_in_info_pv_l_type'' 43 KUint32 True, Field ''pow_get_pv_l'' 36 KFloat True,
    Field ''oil_max_charge_power'' 793 KUint32 True,
    Field ''plug_in_info_5p8_flag'' 63 KUint32 True,
    Field ''plug_in_info_5p8_type'' 64 KUint32 True,
    Field ''plug_in_info_5p8_detail'' 65 KUint32 True,
    Field ''plug_in_info_5p8_sn'' 193 KString True,
    Field ''plug_in_info_acp_run_state'' 116 KUint32 True,
    Field ''plug_in_info_acp_err_code'' 117 KUint32 True,
    Field ''plug_in_info_acp_firm_ver'' 118 KUint32 True,
    Field ''plug_in_info_acp_resv'' 119 KMessage True, Field ''cms_batt_soc'' 262 KFloat True,
    Field ''cms_max_chg_soc'' 270 KUint32 True, Field ''cms_min_dsg_soc'' 271 KUint32 True,
    Field ''cms_batt_pow_out_max'' 459 KUint32 True,
    Field ''cms_batt_pow_in_max'' 460 KUint32 True, Field ''backup_reverse_soc'' 461 KUint32 True,
    Field ''cms_batt_full_energy'' 462 KUint32 True, Field ''storm_pattern_enable'' 467 KBool True,
    Field ''storm_pattern_open_flag'' 468 KBool True,
    Field ''storm_pattern_end_time'' 469 KUint32 True,
    Field ''storm_pattern_conflict_flag'' 397 KUint32 True,
    Field ''energy_strategy_operate_mode'' 393 KMessage True,
    Field ''ev_chg_amp_max'' 538 KUint32 True, Field ''ev_chg_mode'' 539 KEnum True,
    Field ''ev_chg_soc_min'' 540 KUint32 True, Field ''ev_chg_manual_ctrl'' 541 KBool True,
    Field ''ev_chg_manual_wait_reason'' 1552 KUint32 True,
    Field ''installment_payment_serve_enable'' 591 KBool True,
    Field ''serve_middlemen'' 592 KEnum True,
    Field ''installment_payment_overdue_limit'' 593 KEnum True,
    Field ''installment_payment_state'' 594 KEnum True,
    Field ''installment_payment_start_utc_time'' 595 KUint32 True]"

definition yj751_fields_2 :: descriptor where
  "yj751_fields_2 = [
    Field ''installment_payment_overdue_limit_utc_time'' 596 KUint32 True,
    Field ''cms_soc_cali_state'' 756 KUint32 True,
    Field ''plug_in_info_pv_vol_low_flag'' 1264 KUint32 True,
    Field ''plug_in_info_pv_weak_source_flag'' 1265 KUint32 True]"

definition yj751_fields :: descriptor where
  "yj751_fields = yj751_fields_1 @ yj751_fields_2"

definition heartbeat_fields_1 :: descriptor where
  "heartbeat_fields_1 = [
    Field ''proto_ver'' 1 KUint32 True, Field ''show_flag'' 2 KUint32 True,
    Field ''access_type'' 3 KUint32 True, Field ''wireless_4g_on'' 10 KSint32 True,
    Field ''wireless_4G_sta'' 11 KSint32 True, Field ''access_5p8_in_type'' 12 KUint32 True,
    Field ''access_5p8_out_type'' 13 KUint32 True, Field ''wireless_4g_con'' 14 KSint32 True,
    Field ''wirlesss_4g_err_code'' 15 KSint32 True, Field ''sim_iccid'' 16 KString True,
    Field ''soc'' 21 KUint32 True, Field ''bp_num'' 22 KUint32 True,
    Field ''pcs_type'' 23 KUint32 True, Field ''c20_chg_max_watts'' 24 KUint32 True,
    Field ''para_chg_max_watts'' 25 KUint32 True, Field ''remain_time'' 26 KUint32 True,
    Field ''sys_err_code'' 27 KUint32 True, Field ''full_combo'' 28 KUint32 True,
    Field ''remain_combo'' 29 KUint32 True, Field ''watts_in_sum'' 41 KFloat True,
    Field ''watts_out_sum'' 42 KFloat True, Field ''out_usb1_pwr'' 43 KFloat True,
    Field ''out_usb2_pwr'' 44 KFloat True, Field ''out_typec1_pwr'' 45 KFloat True,
    Field ''out_typec2_pwr'' 46 KFloat True, Field ''out_ads_pwr'' 47 KFloat True,
    Field ''out_ac_l1_1_pwr'' 48 KFloat True, Field ''out_ac_l1_2_pwr'' 49 KFloat True,
    Field ''out_ac_l2_1_pwr'' 50 KFloat True, Field ''out_ac_l2_2_pwr'' 51 KFloat True,
    Field ''out_ac_tt_pwr'' 52 KFloat True, Field ''out_ac_l14_pwr'' 53 KFloat True,
    Field ''out_ac_5p8_pwr'' 54 KFloat True, Field ''in_ac_5p8_pwr'' 55 KFloat True,
    Field ''in_ac_c20_pwr'' 56 KFloat True, Field ''in_lv_mppt_pwr'' 57 KFloat True,
    Field ''in_hv_mppt_pwr'' 58 KFloat True]"

definition heartbeat_fields_2 :: descriptor where
  "heartbeat_fields_2 = [
    Field ''out_pr_pwr'' 59 KFloat True, Field ''time_task_change_cnt'' 100 KUint32 True,
    Field ''time_task_conflict_flag'' 101 KUint32 True,
    Field ''chg_time_task_notice'' 102 KUint32 True, Field ''chg_time_task_type'' 103 KUint32 True,
    Field ''chg_time_task_index'' 104 KUint32 True, Field ''chg_time_task_mode'' 105 KUint32 True,
    Field ''chg_time_task_param'' 106 KUint32 True,
    Field ''chg_time_task_table_0'' 107 KUint32 True,
    Field ''chg_time_task_table_1'' 108 KUint32 True,
    Field ''chg_time_task_table_2'' 109 KUint32 True,
    Field ''chg_time_task_addparam'' 110 KUint32 True,
    Field ''dsg_time_task_notice'' 121 KUint32 True, Field ''dsg_time_task_type'' 122 KUint32 True,
    Field ''dsg_time_task_index'' 123 KUint32 True, Field ''dsg_time_task_mode'' 124 KUint32 True,
    Field ''dsg_time_task_param'' 125 KUint32 True,
    Field ''dsg_time_task_table_0'' 126 KUint32 True,
    Field ''dsg_time_task_table_1'' 127 KUint32 True,
    Field ''dsg_time_task_table_2'' 128 KUint32 True,
    Field ''dsg_time_task_addparam'' 129 KUint32 True]"

definition heartbeat_fields :: descriptor where
  "heartbeat_fields = heartbeat_fields_1 @ heartbeat_fields_2"

definition param_get_fields :: descriptor where
  "param_get_fields = [
    Field ''get_param_type'' 1 KUint32 False]"

definition utc_sync_fields :: descriptor where
  "utc_sync_fields = [
    Field ''sys_utc_time'' 1 KUint32 True]"

end
