(* ===== verification/Decode_V3.thy ===== *)
theory Decode_V3
  imports Proto_Tables Decode_V2
begin

text \<open>
  \<open>internal/ecoflow/decode_v3.go\<close> and \<open>proto.go\<close>: the handlers of the version 3 devices,
  whose packets carry protobuf messages.  The protobuf library is a parameter (\<open>Unmarshal\<close>,
  \<open>Marshal\<close>); what a decoded message holds is a map from the names of its populated fields,
  and the reflection accessors look fields up in the generated tables of \<open>Proto_Tables\<close>.
  An accessor of the wrong kind panics (\<open>None\<close>).
\<close>

section \<open>Messages and reflection\<close>

text \<open>
  The values of populated fields.  Kinds that no accessor of the program reads (strings,
  messages, enums, signed integers) carry no content here.
\<close>

datatype pvalue = PBool bool | PUint "32 word" | PFloat "32 word" | POther kind

type_synonym message = "pvalue gomap"

record proto_lib =
  Unmarshal :: "descriptor \<Rightarrow> bytes \<Rightarrow> go_error + message"
  Marshal :: "descriptor \<Rightarrow> message \<Rightarrow> go_error + bytes"

definition ByName :: "descriptor \<Rightarrow> string \<Rightarrow> field option" where
  "ByName d n = find (\<lambda>f. fd_name f = n) d"

definition Has :: "message \<Rightarrow> field \<Rightarrow> bool" where
  "Has m f \<longleftrightarrow> map_get m (fd_name f) \<noteq> None"

text \<open>\<open>m.Get(fd)\<close> returns the default of the kind when the field is not populated.\<close>

fun default_value :: "kind \<Rightarrow> pvalue" where
  "default_value KBool = PBool False"
| "default_value KUint32 = PUint 0"
| "default_value KFloat = PFloat 0"
| "default_value k = POther k"

definition GetField :: "message \<Rightarrow> field \<Rightarrow> pvalue" where
  "GetField m f = (case map_get m (fd_name f) of Some v \<Rightarrow> v | None \<Rightarrow> default_value (fd_kind f))"

fun as_float :: "pvalue \<Rightarrow> (32 word) option" where
  "as_float (PFloat b) = Some b" | "as_float v = None"

fun as_uint :: "pvalue \<Rightarrow> (32 word) option" where
  "as_uint (PUint w) = Some w" | "as_uint v = None"

fun as_bool :: "pvalue \<Rightarrow> bool option" where
  "as_bool (PBool b) = Some b" | "as_bool v = None"

text \<open>
  The three accessors have the same body but for the reader of the value: the outer
  \<open>None\<close> is a panic, the inner one the result \<open>ok = false\<close>.
\<close>

fun proto_field :: "(pvalue \<Rightarrow> 'a option) \<Rightarrow> descriptor \<Rightarrow> message \<Rightarrow> string list \<Rightarrow> 'a option option" where
  "proto_field as_kind d m [] = Some None"
| "proto_field as_kind d m (n # ns) =
     (case ByName d n of
        None \<Rightarrow> proto_field as_kind d m ns
      | Some fd \<Rightarrow>
          (if fd_presence fd \<and> \<not> Has m fd then proto_field as_kind d m ns
           else map_option Some (as_kind (GetField m fd))))"

definition protoFloat32Field :: "descriptor \<Rightarrow> message \<Rightarrow> string list \<Rightarrow> (32 word) option option" where
  "protoFloat32Field = proto_field as_float"

definition protoUint32Field :: "descriptor \<Rightarrow> message \<Rightarrow> string list \<Rightarrow> (32 word) option option" where
  "protoUint32Field = proto_field as_uint"

definition protoBoolField :: "descriptor \<Rightarrow> message \<Rightarrow> string list \<Rightarrow> bool option option" where
  "protoBoolField = proto_field as_bool"

section \<open>Telemetry\<close>

definition positive_power :: "Telemetry \<Rightarrow> Telemetry" where
  "positive_power t =
     (case InputPower t of None \<Rightarrow> t | Some w \<Rightarrow> t\<lparr>InputPresent := Some (w > 0)\<rparr>)"

definition telemetryFromProto :: "target \<Rightarrow> descriptor \<Rightarrow> message \<Rightarrow> Telemetry option" where
  "telemetryFromProto tgt d m = do {
     soc \<leftarrow> protoFloat32Field d m [''cms_batt_soc'', ''bms_batt_soc''];
     charge \<leftarrow> (case soc of
         Some v \<Rightarrow> Some (Some (roundFloat32 tgt v))
       | None \<Rightarrow> map_option (map_option (int_of_u32 tgt)) (protoUint32Field d m [''soc'']));
     runtime \<leftarrow> protoUint32Field d m [''cms_dsg_rem_time'', ''generator_remain_time'', ''remain_time''];
     inp \<leftarrow> protoFloat32Field d m [''pow_in_sum_w'', ''watts_in_sum''];
     outp \<leftarrow> protoFloat32Field d m [''pow_out_sum_w'', ''watts_out_sum''];
     plug \<leftarrow> protoBoolField d m [''plug_in_info_ac_charger_flag''];
     let t = \<lparr>Charge = charge, RuntimeSeconds = map_option (int_of_u32 tgt) runtime,
       InputPower = map_option (roundFloat32 tgt) inp, OutputPower = map_option (roundFloat32 tgt) outp,
       InputPresent = None\<rparr>;
     Some (case plug of Some b \<Rightarrow> t\<lparr>InputPresent := Some b\<rparr> | None \<Rightarrow> positive_power t) }"

definition dpuHeartbeatTelemetry :: "target \<Rightarrow> message \<Rightarrow> Telemetry option" where
  "dpuHeartbeatTelemetry tgt m = do {
     let d = heartbeat_fields;
     soc \<leftarrow> protoUint32Field d m [''soc''];
     runtime \<leftarrow> protoUint32Field d m [''remain_time''];
     inp \<leftarrow> protoFloat32Field d m [''watts_in_sum''];
     outp \<leftarrow> protoFloat32Field d m [''watts_out_sum''];
     Some (positive_power
       \<lparr>Charge = map_option (int_of_u32 tgt) soc, RuntimeSeconds = map_option (int_of_u32 tgt) runtime,
        InputPower = map_option (roundFloat32 tgt) inp, OutputPower = map_option (roundFloat32 tgt) outp,
        InputPresent = None\<rparr>) }"

definition marshalDPUHeartbeatRequest :: "proto_lib \<Rightarrow> go_error + Packet" where
  "marshalDPUHeartbeatRequest lib =
     (case Marshal lib param_get_fields [(''get_param_type'', PUint 8)] of
        Inl e \<Rightarrow> Inl e
      | Inr payload \<Rightarrow> Inr (zero_packet\<lparr>Src := 0x21, Dst := 0x02, CmdSet := 0x02, CmdID := 0x67,
          Payload := payload, DSrc := 0x01, DDst := 0x01, Version := 0x13\<rparr>))"

section \<open>The handlers\<close>

record v3Handler =
  v3_kind :: ProfileKind

definition newV3Handler :: "ProfileKind \<Rightarrow> v3Handler" where
  "newV3Handler kind = \<lparr>v3_kind = kind\<rparr>"

text \<open>The common shape of the display handlers: decode, then derive the telemetry.\<close>

definition decode_display ::
  "target \<Rightarrow> proto_lib \<Rightarrow> descriptor \<Rightarrow> string \<Rightarrow> Packet \<Rightarrow> handled option" where
  "decode_display tgt lib d what packet =
     (case Unmarshal lib d (Payload packet) of
        Inl e \<Rightarrow> Some (Inl (DecodeFailed what e))
      | Inr msg \<Rightarrow> map_option (\<lambda>t. Inr (Some t, [], True)) (telemetryFromProto tgt d msg))"

definition is_display :: "Packet \<Rightarrow> bool" where
  "is_display packet \<longleftrightarrow> Src packet = 0x02 \<and> CmdSet packet = 0xFE \<and> CmdID packet = 0x15"

definition handleRiver3 :: "target \<Rightarrow> proto_lib \<Rightarrow> Packet \<Rightarrow> handled option" where
  "handleRiver3 tgt lib packet =
     (if \<not> is_display packet then Some (Inr (None, [], False))
      else decode_display tgt lib pr705_fields ''decode river3 packet'' packet)"

definition handleDelta3 :: "target \<Rightarrow> proto_lib \<Rightarrow> Packet \<Rightarrow> handled option" where
  "handleDelta3 tgt lib packet =
     (if \<not> is_display packet then Some (Inr (None, [], False))
      else decode_display tgt lib pd335_fields ''decode delta3 packet'' packet)"

definition handleDeltaPro3 :: "target \<Rightarrow> proto_lib \<Rightarrow> Packet \<Rightarrow> handled option" where
  "handleDeltaPro3 tgt lib packet =
     (if \<not> is_display packet then Some (Inr (None, [], False))
      else decode_display tgt lib mr521_fields ''decode delta pro 3 packet'' packet)"

definition handleDeltaProUltra :: "target \<Rightarrow> proto_lib \<Rightarrow> Packet \<Rightarrow> handled option" where
  "handleDeltaProUltra tgt lib packet =
     (if Src packet = 0x02 \<and> CmdSet packet = 0x02 \<and> CmdID packet = 0x01 then
        case Unmarshal lib heartbeat_fields (Payload packet) of
          Inl e \<Rightarrow> Some (Inl (DecodeFailed ''decode dpu heartbeat'' e))
        | Inr msg \<Rightarrow> do {
            t \<leftarrow> dpuHeartbeatTelemetry tgt msg;
            Some (case marshalDPUHeartbeatRequest lib of
                Inl e \<Rightarrow> Inl e
              | Inr outbound \<Rightarrow> Inr (Some t, [outbound], True)) }
      else if is_display packet then
        decode_display tgt lib yj751_fields ''decode dpu display packet'' packet
      else Some (Inr (None, [], False)))"

definition v3_HandlePacket :: "target \<Rightarrow> proto_lib \<Rightarrow> v3Handler \<Rightarrow> Packet \<Rightarrow> handled option" where
  "v3_HandlePacket tgt lib h packet =
     (case v3_kind h of
        ProfileRiver3 \<Rightarrow> handleRiver3 tgt lib packet
      | ProfileDelta3 \<Rightarrow> handleDelta3 tgt lib packet
      | ProfileDeltaPro3 \<Rightarrow> handleDeltaPro3 tgt lib packet
      | ProfileDeltaProUltra \<Rightarrow> handleDeltaProUltra tgt lib packet
      | _ \<Rightarrow> Some (Inr (None, [], False)))"

section \<open>The interface \<open>PacketHandler\<close>\<close>

datatype PacketHandler = V2Handler v2Handler | V3Handler v3Handler

fun HandlePacket :: "target \<Rightarrow> proto_lib \<Rightarrow> PacketHandler \<Rightarrow> Packet \<Rightarrow> (handled \<times> PacketHandler) option" where
  "HandlePacket tgt lib (V2Handler h) p = Some (map_prod id V2Handler (v2_HandlePacket tgt h p))"
| "HandlePacket tgt lib (V3Handler h) p = map_option (\<lambda>r. (r, V3Handler h)) (v3_HandlePacket tgt lib h p)"

fun run_ctor :: "HandlerCtor \<Rightarrow> PacketHandler" where
  "run_ctor (CtorV2 kind) = V2Handler (newV2Handler kind)"
| "run_ctor (CtorV3 kind) = V3Handler (newV3Handler kind)"

definition newHandler :: "ProfileKind \<Rightarrow> PacketHandler option" where
  "newHandler kind = map_option run_ctor (handler_ctor kind)"

section \<open>The tables fit the accessors\<close>

definition float_names :: "string list" where
  "float_names = [''cms_batt_soc'', ''bms_batt_soc'', ''pow_in_sum_w'', ''watts_in_sum'',
     ''pow_out_sum_w'', ''watts_out_sum'']"

definition uint_names :: "string list" where
  "uint_names = [''soc'', ''cms_dsg_rem_time'', ''generator_remain_time'', ''remain_time'']"

definition bool_names :: "string list" where
  "bool_names = [''plug_in_info_ac_charger_flag'']"

text \<open>A field that an accessor reads has the accessor's kind and tracks presence.\<close>

definition field_ok :: "field \<Rightarrow> bool" where
  "field_ok f \<longleftrightarrow>
     (fd_name f \<in> set float_names \<longrightarrow> fd_kind f = KFloat \<and> fd_presence f) \<and>
     (fd_name f \<in> set uint_names \<longrightarrow> fd_kind f = KUint32 \<and> fd_presence f) \<and>
     (fd_name f \<in> set bool_names \<longrightarrow> fd_kind f = KBool \<and> fd_presence f)"

lemmas field_ok_names = field_ok_def float_names_def uint_names_def bool_names_def

definition fits_accessors :: "descriptor \<Rightarrow> bool" where
  "fits_accessors d \<longleftrightarrow> list_all field_ok d"

lemma pr705_fields_1_ok: "fits_accessors pr705_fields_1"
  by (simp add: fits_accessors_def pr705_fields_1_def field_ok_names)

lemma pr705_fields_2_ok: "fits_accessors pr705_fields_2"
  by (simp add: fits_accessors_def pr705_fields_2_def field_ok_names)

lemma pr705_fields_3_ok: "fits_accessors pr705_fields_3"
  by (simp add: fits_accessors_def pr705_fields_3_def field_ok_names)

lemma pr705_fields_4_ok: "fits_accessors pr705_fields_4"
  by (simp add: fits_accessors_def pr705_fields_4_def field_ok_names)

lemma pr705_fields_5_ok: "fits_accessors pr705_fields_5"
  by (simp add: fits_accessors_def pr705_fields_5_def field_ok_names)

lemma pr705_fields_6_ok: "fits_accessors pr705_fields_6"
  by (simp add: fits_accessors_def pr705_fields_6_def field_ok_names)

lemma pr705_fields_7_ok: "fits_accessors pr705_fields_7"
  by (simp add: fits_accessors_def pr705_fields_7_def field_ok_names)

lemma pr705_fields_8_ok: "fits_accessors pr705_fields_8"
  by (simp add: fits_accessors_def pr705_fields_8_def field_ok_names)

lemma pr705_fields_ok: "fits_accessors pr705_fields"
  using pr705_fields_1_ok pr705_fields_2_ok pr705_fields_3_ok pr705_fields_4_ok
    pr705_fields_5_ok pr705_fields_6_ok pr705_fields_7_ok pr705_fields_8_ok
  by (simp add: fits_accessors_def pr705_fields_def)

lemma mr521_fields_1_ok: "fits_accessors mr521_fields_1"
  by (simp add: fits_accessors_def mr521_fields_1_def field_ok_names)

lemma mr521_fields_2_ok: "fits_accessors mr521_fields_2"
  by (simp add: fits_accessors_def mr521_fields_2_def field_ok_names)

lemma mr521_fields_3_ok: "fits_accessors mr521_fields_3"
  by (simp add: fits_accessors_def mr521_fields_3_def field_ok_names)

lemma mr521_fields_4_ok: "fits_accessors mr521_fields_4"
  by (simp add: fits_accessors_def mr521_fields_4_def field_ok_names)

lemma mr521_fields_5_ok: "fits_accessors mr521_fields_5"
  by (simp add: fits_accessors_def mr521_fields_5_def field_ok_names)

lemma mr521_fields_6_ok: "fits_accessors mr521_fields_6"
  by (simp add: fits_accessors_def mr521_fields_6_def field_ok_names)

lemma mr521_fields_7_ok: "fits_accessors mr521_fields_7"
  by (simp add: fits_accessors_def mr521_fields_7_def field_ok_names)

lemma mr521_fields_8_ok: "fits_accessors mr521_fields_8"
  by (simp add: fits_accessors_def mr521_fields_8_def field_ok_names)

lemma mr521_fields_ok: "fits_accessors mr521_fields"
  using mr521_fields_1_ok mr521_fields_2_ok mr521_fields_3_ok mr521_fields_4_ok
    mr521_fields_5_ok mr521_fields_6_ok mr521_fields_7_ok mr521_fields_8_ok
  by (simp add: fits_accessors_def mr521_fields_def)

lemma pd335_fields_1_ok: "fits_accessors pd335_fields_1"
  by (simp add: fits_accessors_def pd335_fields_1_def field_ok_names)

lemma pd335_fields_2_ok: "fits_accessors pd335_fields_2"
  by (simp add: fits_accessors_def pd335_fields_2_def field_ok_names)

lemma pd335_fields_3_ok: "fits_accessors pd335_fields_3"
  by (simp add: fits_accessors_def pd335_fields_3_def field_ok_names)

lemma pd335_fields_4_ok: "fits_accessors pd335_fields_4"
  by (simp add: fits_accessors_def pd335_fields_4_def field_ok_names)

lemma pd335_fields_5_ok: "fits_accessors pd335_fields_5"
  by (simp add: fits_accessors_def pd335_fields_5_def field_ok_names)

lemma pd335_fields_ok: "fits_accessors pd335_fields"
  using pd335_fields_1_ok pd335_fields_2_ok pd335_fields_3_ok pd335_fields_4_ok
    pd335_fields_5_ok
  by (simp add: fits_accessors_def pd335_fields_def)

lemma yj751_fields_1_ok: "fits_accessors yj751_fields_1"
  by (simp add: fits_accessors_def yj751_fields_1_def field_ok_names)

lemma yj751_fields_2_ok: "fits_accessors yj751_fields_2"
  by (simp add: fits_accessors_def yj751_fields_2_def field_ok_names)

lemma yj751_fields_ok: "fits_accessors yj751_fields"
  using yj751_fields_1_ok yj751_fields_2_ok
  by (simp add: fits_accessors_def yj751_fields_def)

lemma heartbeat_fields_1_ok: "fits_accessors heartbeat_fields_1"
  by (simp add: fits_accessors_def heartbeat_fields_1_def field_ok_names)

lemma heartbeat_fields_2_ok: "fits_accessors heartbeat_fields_2"
  by (simp add: fits_accessors_def heartbeat_fields_2_def field_ok_names)

lemma heartbeat_fields_ok: "fits_accessors heartbeat_fields"
  using heartbeat_fields_1_ok heartbeat_fields_2_ok
  by (simp add: fits_accessors_def heartbeat_fields_def)

section \<open>The accessors on decoded messages\<close>

fun has_kind :: "pvalue \<Rightarrow> kind \<Rightarrow> bool" where
  "has_kind (PBool b) k = (k = KBool)"
| "has_kind (PUint w) k = (k = KUint32)"
| "has_kind (PFloat b) k = (k = KFloat)"
| "has_kind (POther j) k = (k = j \<and> j \<notin> {KBool, KUint32, KFloat})"

text \<open>
  What the library documents of \<open>Unmarshal\<close>: the populated fields of a message are fields
  of its descriptor and hold values of their kinds.
\<close>

definition wf_message :: "descriptor \<Rightarrow> message \<Rightarrow> bool" where
  "wf_message d m \<longleftrightarrow>
     (\<forall>n v. map_get m n = Some v \<longrightarrow> (\<exists>f. ByName d n = Some f \<and> has_kind v (fd_kind f)))"

definition typed_lib :: "proto_lib \<Rightarrow> bool" where
  "typed_lib lib \<longleftrightarrow> (\<forall>d b m. Unmarshal lib d b = Inr m \<longrightarrow> wf_message d m)"

text \<open>The specification of an accessor: the value of the first populated name.\<close>

definition first_populated :: "message \<Rightarrow> string list \<Rightarrow> pvalue option" where
  "first_populated m ns = Option.bind (find (\<lambda>n. map_get m n \<noteq> None) ns) (map_get m)"

lemma first_populated_Cons:
  "first_populated m (n # ns) = (case map_get m n of None \<Rightarrow> first_populated m ns | Some v \<Rightarrow> Some v)"
  by (simp add: first_populated_def split: option.split)

lemma first_populated_Nil [simp]: "first_populated m [] = None"
  by (simp add: first_populated_def)

lemma ByName_Some: "ByName d n = Some f \<Longrightarrow> f \<in> set d \<and> fd_name f = n"
  by (auto simp: ByName_def find_Some_iff in_set_conv_nth)

lemma fits_ByName: "fits_accessors d \<Longrightarrow> ByName d n = Some f \<Longrightarrow> field_ok f \<and> fd_name f = n"
  using ByName_Some by (fastforce simp: fits_accessors_def list_all_iff)

lemma wf_message_lookup:
  "wf_message d m \<Longrightarrow> map_get m n = Some v \<Longrightarrow> \<exists>f. ByName d n = Some f \<and> has_kind v (fd_kind f)"
  by (simp add: wf_message_def)

locale accessor =
  fixes as_kind :: "pvalue \<Rightarrow> 'a option" and k :: kind and names :: "string list"
  assumes as_kind: "has_kind v k \<Longrightarrow> as_kind v \<noteq> None"
    and names_kind: "field_ok f \<Longrightarrow> fd_name f \<in> set names \<Longrightarrow> fd_kind f = k \<and> fd_presence f"
begin

definition pick :: "message \<Rightarrow> string list \<Rightarrow> 'a option" where
  "pick m ns = Option.bind (first_populated m ns) as_kind"

lemma proto_field_pick:
  assumes "fits_accessors d" "wf_message d m" "set ns \<subseteq> set names"
  shows "proto_field as_kind d m ns = Some (pick m ns)"
  using assms(3)
proof (induction ns)
  case (Cons n ns)
  show ?case
  proof (cases "map_get m n")
    case None
    then show ?thesis
      using Cons fits_ByName [OF assms(1), of n] names_kind
      by (auto simp: pick_def first_populated_Cons Has_def split: option.split)
  next
    case (Some v)
    from wf_message_lookup [OF assms(2) this] obtain f where f: "ByName d n = Some f" "has_kind v (fd_kind f)"
      by blast
    with fits_ByName [OF assms(1) f(1)] Cons.prems names_kind [of f] have "fd_name f = n" "fd_kind f = k"
      by auto
    with f Some as_kind [of v] show ?thesis
      by (auto simp: pick_def first_populated_Cons Has_def GetField_def)
  qed
qed (simp add: pick_def)

end

interpretation float: accessor as_float KFloat float_names
proof
  show "as_float v \<noteq> None" if "has_kind v KFloat" for v using that by (cases v) auto
qed (simp add: field_ok_def)

interpretation uint: accessor as_uint KUint32 uint_names
proof
  show "as_uint v \<noteq> None" if "has_kind v KUint32" for v using that by (cases v) auto
qed (simp add: field_ok_def)

interpretation flag: accessor as_bool KBool bool_names
proof
  show "as_bool v \<noteq> None" if "has_kind v KBool" for v using that by (cases v) auto
qed (simp add: field_ok_def)

text \<open>The lookups the handlers make.\<close>

lemma lookups:
  assumes "fits_accessors d" "wf_message d m"
  shows "protoFloat32Field d m [''cms_batt_soc'', ''bms_batt_soc''] =
      Some (float.pick m [''cms_batt_soc'', ''bms_batt_soc''])"
    "protoFloat32Field d m [''pow_in_sum_w'', ''watts_in_sum''] =
      Some (float.pick m [''pow_in_sum_w'', ''watts_in_sum''])"
    "protoFloat32Field d m [''pow_out_sum_w'', ''watts_out_sum''] =
      Some (float.pick m [''pow_out_sum_w'', ''watts_out_sum''])"
    "protoFloat32Field d m [''watts_in_sum''] = Some (float.pick m [''watts_in_sum''])"
    "protoFloat32Field d m [''watts_out_sum''] = Some (float.pick m [''watts_out_sum''])"
    "protoUint32Field d m [''soc''] = Some (uint.pick m [''soc''])"
    "protoUint32Field d m [''remain_time''] = Some (uint.pick m [''remain_time''])"
    "protoUint32Field d m [''cms_dsg_rem_time'', ''generator_remain_time'', ''remain_time''] =
      Some (uint.pick m [''cms_dsg_rem_time'', ''generator_remain_time'', ''remain_time''])"
    "protoBoolField d m [''plug_in_info_ac_charger_flag''] =
      Some (flag.pick m [''plug_in_info_ac_charger_flag''])"
  unfolding protoFloat32Field_def protoUint32Field_def protoBoolField_def
  by (rule float.proto_field_pick [OF assms] uint.proto_field_pick [OF assms]
      flag.proto_field_pick [OF assms], simp add: float_names_def uint_names_def bool_names_def)+

section \<open>The telemetry of a message\<close>

text \<open>The telemetry as the first populated field of each list.\<close>

definition display_telemetry :: "target \<Rightarrow> message \<Rightarrow> Telemetry" where
  "display_telemetry tgt m =
     (let power = map_option (roundFloat32 tgt) (float.pick m [''pow_in_sum_w'', ''watts_in_sum'']) in
      \<lparr>Charge = (case float.pick m [''cms_batt_soc'', ''bms_batt_soc''] of
          Some v \<Rightarrow> Some (roundFloat32 tgt v)
        | None \<Rightarrow> map_option (int_of_u32 tgt) (uint.pick m [''soc''])),
       RuntimeSeconds = map_option (int_of_u32 tgt)
         (uint.pick m [''cms_dsg_rem_time'', ''generator_remain_time'', ''remain_time'']),
       InputPower = power,
       OutputPower = map_option (roundFloat32 tgt) (float.pick m [''pow_out_sum_w'', ''watts_out_sum'']),
       InputPresent = (case flag.pick m [''plug_in_info_ac_charger_flag''] of
          Some b \<Rightarrow> Some b
        | None \<Rightarrow> map_option (\<lambda>w. w > 0) power)\<rparr>)"

definition heartbeat_telemetry :: "target \<Rightarrow> message \<Rightarrow> Telemetry" where
  "heartbeat_telemetry tgt m =
     (let power = map_option (roundFloat32 tgt) (float.pick m [''watts_in_sum'']) in
      \<lparr>Charge = map_option (int_of_u32 tgt) (uint.pick m [''soc'']),
       RuntimeSeconds = map_option (int_of_u32 tgt) (uint.pick m [''remain_time'']),
       InputPower = power,
       OutputPower = map_option (roundFloat32 tgt) (float.pick m [''watts_out_sum'']),
       InputPresent = map_option (\<lambda>w. w > 0) power\<rparr>)"

lemma telemetryFromProto_display:
  assumes "fits_accessors d" "wf_message d m"
  shows "telemetryFromProto tgt d m = Some (display_telemetry tgt m)"
  unfolding telemetryFromProto_def lookups [OF assms]
  by (simp add: display_telemetry_def positive_power_def Let_def split: option.split)

lemma dpuHeartbeatTelemetry_spec:
  assumes "wf_message heartbeat_fields m"
  shows "dpuHeartbeatTelemetry tgt m = Some (heartbeat_telemetry tgt m)"
  unfolding dpuHeartbeatTelemetry_def Let_def lookups [OF heartbeat_fields_ok assms]
  by (simp add: heartbeat_telemetry_def positive_power_def Let_def split: option.split)

lemma typed_libD: "typed_lib lib \<Longrightarrow> Unmarshal lib d b = Inr m \<Longrightarrow> wf_message d m"
  by (simp add: typed_lib_def)

lemma decode_display_spec:
  assumes "typed_lib lib" "fits_accessors d"
  shows "decode_display tgt lib d what p = Some (case Unmarshal lib d (Payload p) of
      Inl e \<Rightarrow> Inl (DecodeFailed what e) | Inr m \<Rightarrow> Inr (Some (display_telemetry tgt m), [], True))"
  using telemetryFromProto_display [OF assms(2)] typed_libD [OF assms(1)]
  by (auto simp: decode_display_def split: sum.split)

lemma HandlePacket_total:
  assumes "typed_lib lib"
  shows "\<exists>r h'. HandlePacket tgt lib h p = Some (r, h')"
proof (cases h)
  case (V2Handler x)
  then show ?thesis by (cases "v2_HandlePacket tgt x p") simp
next
  case (V3Handler x)
  have "\<exists>r. v3_HandlePacket tgt lib x p = Some r"
    using decode_display_spec [OF assms pr705_fields_ok] decode_display_spec [OF assms pd335_fields_ok]
      decode_display_spec [OF assms mr521_fields_ok] decode_display_spec [OF assms yj751_fields_ok]
      dpuHeartbeatTelemetry_spec typed_libD [OF assms]
    by (cases "v3_kind x") (auto simp: v3_HandlePacket_def handleRiver3_def handleDelta3_def
        handleDeltaPro3_def handleDeltaProUltra_def split: sum.split)
  with V3Handler show ?thesis by auto
qed

section \<open>Properties\<close>

text \<open>C13: With a library that decodes into fields of the right kinds, no packet makes a handler
  of any profile panic: every field the accessors look up has the kind they read, in all five
  generated message tables.\<close>

theorem handlers_never_panic:
  assumes "typed_lib lib"
  shows "(\<exists>r h'. HandlePacket tgt lib h p = Some (r, h')) \<and> (\<exists>h. newHandler kind = Some h)"
  using HandlePacket_total [OF assms] handler_ctor_known [of kind] by (auto simp: newHandler_def)

text \<open>C29: A display packet of the River 3, Delta 3 and Delta Pro 3 families reports, for each
  value, the first populated field of its list of names, and a decoding error otherwise.\<close>

theorem v3_display_packets:
  assumes "typed_lib lib" "is_display p"
    "(kind, d) \<in> {(ProfileRiver3, pr705_fields), (ProfileDelta3, pd335_fields),
      (ProfileDeltaPro3, mr521_fields), (ProfileDeltaProUltra, yj751_fields)}"
  shows "\<exists>what. HandlePacket tgt lib (V3Handler (newV3Handler kind)) p =
    Some (case Unmarshal lib d (Payload p) of
        Inl e \<Rightarrow> Inl (DecodeFailed what e) | Inr m \<Rightarrow> Inr (Some (display_telemetry tgt m), [], True),
      V3Handler (newV3Handler kind))"
  using assms decode_display_spec [OF assms(1) pr705_fields_ok]
    decode_display_spec [OF assms(1) pd335_fields_ok] decode_display_spec [OF assms(1) mr521_fields_ok]
    decode_display_spec [OF assms(1) yj751_fields_ok]
  by (auto simp: v3_HandlePacket_def newV3Handler_def handleRiver3_def handleDelta3_def
      handleDeltaPro3_def handleDeltaProUltra_def is_display_def)

text \<open>A heartbeat of the Delta Pro Ultra reports its values and is answered by exactly one
  request for parameter 8, unless encoding that request fails.\<close>

theorem dpu_heartbeat_answered:
  assumes "typed_lib lib" "Src p = 0x02" "CmdSet p = 0x02" "CmdID p = 0x01"
    "Unmarshal lib heartbeat_fields (Payload p) = Inr m"
    "Marshal lib param_get_fields [(''get_param_type'', PUint 8)] = Inr b"
  shows "\<exists>q. HandlePacket tgt lib (V3Handler (newV3Handler ProfileDeltaProUltra)) p =
      Some (Inr (Some (heartbeat_telemetry tgt m), [q], True), V3Handler (newV3Handler ProfileDeltaProUltra)) \<and>
    Payload q = b \<and> CmdSet q = 0x02 \<and> CmdID q = 0x67 \<and> Dst q = 0x02"
  using assms dpuHeartbeatTelemetry_spec [OF typed_libD [OF assms(1,5)], of tgt]
  by (simp add: v3_HandlePacket_def newV3Handler_def handleDeltaProUltra_def
      marshalDPUHeartbeatRequest_def zero_packet_def)

text \<open>A library that decodes every message of the tables as one with no populated field, but for
  the River 3 display message, which carries a charge.\<close>

definition sample_lib :: proto_lib where
  "sample_lib = \<lparr>Unmarshal = (\<lambda>d b. Inr (if d = pr705_fields then [(''cms_batt_soc'', PFloat 0x42C70000)] else [])),
     Marshal = (\<lambda>d m. Inr [0x08, 0x08])\<rparr>"

lemma ByName_append: "ByName (xs @ ys) n = (case ByName xs n of None \<Rightarrow> ByName ys n | Some f \<Rightarrow> Some f)"
  by (induction xs) (auto simp: ByName_def)

lemma sample_lib_typed: "typed_lib sample_lib"
proof -
  have "ByName pr705_fields_1 ''cms_batt_soc'' = Some (Field ''cms_batt_soc'' 262 KFloat True)"
    by (simp add: ByName_def pr705_fields_1_def)
  then have "ByName pr705_fields ''cms_batt_soc'' = Some (Field ''cms_batt_soc'' 262 KFloat True)"
    by (simp add: pr705_fields_def ByName_append)
  then show ?thesis
    by (simp add: typed_lib_def sample_lib_def wf_message_def map_get_def)
qed

theorem handlers_never_panic_witness:
  "\<exists>r h'. HandlePacket host64 sample_lib (V3Handler (newV3Handler ProfileRiver3)) zero_packet = Some (r, h')"
  using handlers_never_panic [OF sample_lib_typed] by blast

theorem v3_display_packets_witness:
  "HandlePacket host64 sample_lib (V3Handler (newV3Handler ProfileRiver3))
     (zero_packet\<lparr>Src := 0x02, CmdSet := 0xFE, CmdID := 0x15\<rparr>) =
   Some (Inr (Some (display_telemetry host64 [(''cms_batt_soc'', PFloat 0x42C70000)]), [], True),
     V3Handler (newV3Handler ProfileRiver3))"
  using v3_display_packets [OF sample_lib_typed,
      of "zero_packet\<lparr>Src := 0x02, CmdSet := 0xFE, CmdID := 0x15\<rparr>" ProfileRiver3 pr705_fields host64]
  by (simp add: is_display_def zero_packet_def sample_lib_def)

theorem dpu_heartbeat_answered_witness:
  "\<exists>q m. HandlePacket host64 sample_lib (V3Handler (newV3Handler ProfileDeltaProUltra))
      (zero_packet\<lparr>Src := 0x02, CmdSet := 0x02, CmdID := 0x01\<rparr>) =
    Some (Inr (Some (heartbeat_telemetry host64 m), [q], True), V3Handler (newV3Handler ProfileDeltaProUltra)) \<and>
    Payload q = [0x08, 0x08]"
proof -
  let ?p = "zero_packet\<lparr>Src := 0x02, CmdSet := 0x02, CmdID := 0x01\<rparr>"
  obtain m where "Unmarshal sample_lib heartbeat_fields (Payload ?p) = Inr m"
    by (simp add: sample_lib_def)
  from dpu_heartbeat_answered [OF sample_lib_typed _ _ _ this, of "[0x08, 0x08]" host64] show ?thesis
    by (auto simp: zero_packet_def sample_lib_def)
qed

end
