(* ===== verification/Time_Sync.thy ===== *)
theory Time_Sync
  imports Decode_V2 Proto_Tables Store
begin

text \<open>
  \<open>internal/ecoflow/time.go\<close>: the answer to a device's request for the time, at most once
  every 30 seconds.  A point in time is its nanoseconds since the epoch and the offset of its
  zone; the protobuf encoder is a parameter.
\<close>

definition Second :: int where "Second = 1000000000"

record clock =
  nanos :: time
  seconds_east :: int

record timeResponder =
  lastSent :: "time option"

definition Unix :: "clock \<Rightarrow> int" where
  "Unix now = nanos now div Second"

definition put_le32 :: "32 word \<Rightarrow> bytes" where
  "put_le32 w = put_le16 (ucast w) @ put_le16 (ucast (drop_bit 16 w))"

text \<open>
  Division that truncates towards zero, as Go's conversion of the float quotient does.  The
  quotient of a whole number of quarter hours is exact in a \<open>float64\<close>; every zone in use
  has such an offset.
\<close>

definition trunc_div :: "int \<Rightarrow> int \<Rightarrow> int" where
  "trunc_div a b = sgn a * (\<bar>a\<bar> div b)"

definition timezoneOffset :: "clock \<Rightarrow> int \<times> int" where
  "timezoneOffset now =
     (let major = trunc_div (seconds_east now) 3600;
          minor = trunc_div ((seconds_east now - major * 3600) * 100) 3600
      in (major, minor))"

definition rtc_payload :: "clock \<Rightarrow> bytes" where
  "rtc_payload now =
     (let (major, minor) = timezoneOffset now
      in put_le32 (word_of_int (Unix now)) @ [word_of_int major, word_of_int minor])"

text \<open>The parameter encodes \<open>SysUTCSync{SysUtcTime: &utcTime}\<close>.\<close>

definition Packets ::
  "(32 word \<Rightarrow> go_error + bytes) \<Rightarrow> timeResponder \<Rightarrow> clock \<Rightarrow>
   (go_error + (Packet list \<times> bool)) \<times> timeResponder" where
  "Packets marshal_sync t now =
     (if (case lastSent t of None \<Rightarrow> False | Some s \<Rightarrow> nanos now - s < 30 * Second)
      then (Inr ([], False), t)
      else
        let t' = t\<lparr>lastSent := Some (nanos now)\<rparr>; utcTime = word_of_int (Unix now) in
        case marshal_sync utcTime of
          Inl e \<Rightarrow> (Inl e, t')
        | Inr payload \<Rightarrow>
            (Inr ([zero_packet\<lparr>Src := 0x21, Dst := 0x0B, CmdSet := 0x01, CmdID := 0x55,
                Payload := payload, DSrc := 0x01, DDst := 0x01, Version := 0x13\<rparr>,
              zero_packet\<lparr>Src := 0x21, Dst := 0x35, CmdSet := 0x01, CmdID := 0x52,
                Payload := rtc_payload now, DSrc := 0x01, DDst := 0x01, Version := 0x03\<rparr>,
              zero_packet\<lparr>Src := 0x21, Dst := 0x35, CmdSet := 0x01, CmdID := 0x53,
                Payload := rtc_payload now, DSrc := 0x01, DDst := 0x01, Version := 0x03\<rparr>], True), t'))"

definition isTimeRequest :: "Packet \<Rightarrow> bool" where
  "isTimeRequest packet \<longleftrightarrow>
     Src packet = 0x35 \<and> CmdSet packet = 0x01 \<and> CmdID packet = 0x52 \<and> length (Payload packet) = 0"

section \<open>The clock setting\<close>

lemma le32_put: "put_le32 w = [a, b, c, d] \<Longrightarrow> le32 a b c d = w"
proof -
  assume "put_le32 w = [a, b, c, d]"
  then have "le16 a b = ucast w" "le16 c d = ucast (drop_bit 16 w)"
    using le16_split [of "ucast w"] le16_split [of "ucast (drop_bit 16 w)"]
    by (auto simp: put_le32_def put_le16_def)
  then show "le32 a b c d = w"
    by (simp add: le32_def) (rule bit_word_eqI, auto simp: bit_simps)
qed

lemma put_le32_word_at: "word_at (put_le32 w @ xs) 0 = w"
proof -
  have "length (put_le32 w) = 4" by (simp add: put_le32_def)
  then obtain a b c d where abcd: "put_le32 w = [a, b, c, d]"
    by (auto simp: numeral_eq_Suc length_Suc_conv)
  then show ?thesis using le32_put [OF abcd] by (simp add: word_at_def)
qed

lemma trunc_div_mult: "b > 0 \<Longrightarrow> b dvd a \<Longrightarrow> trunc_div a b * b = a"
  by (auto simp: trunc_div_def abs_mult sgn_mult mult_sgn_abs elim!: dvdE)

lemma timezoneOffset_quarters:
  assumes "seconds_east now = 900 * q" "timezoneOffset now = (major, minor)"
  shows "seconds_east now = major * 3600 + minor * 36"
proof -
  from assms(2) have m: "major = trunc_div (seconds_east now) 3600"
    "minor = trunc_div ((seconds_east now - major * 3600) * 100) 3600"
    by (auto simp: timezoneOffset_def Let_def)
  have "(seconds_east now - major * 3600) * 100 = 3600 * (25 * (q - 4 * major))"
    using assms(1) by simp
  then have "minor * 3600 = (seconds_east now - major * 3600) * 100"
    unfolding m(2) by (intro trunc_div_mult) simp_all
  then show ?thesis by simp
qed

text \<open>The requests answered, as the times they were answered at.\<close>

fun answered :: "(32 word \<Rightarrow> go_error + bytes) \<Rightarrow> timeResponder \<Rightarrow> clock list \<Rightarrow> time list" where
  "answered ms t [] = []"
| "answered ms t (now # nows) =
     (case Packets ms t now of
        (Inr (ps, True), t') \<Rightarrow> nanos now # answered ms t' nows
      | (_, t') \<Rightarrow> answered ms t' nows)"

lemma Packets_cases:
  "Packets ms t now = (Inr ([], False), t) \<or>
   (\<exists>r. Packets ms t now = (r, t\<lparr>lastSent := Some (nanos now)\<rparr>) \<and>
     (\<forall>s. lastSent t = Some s \<longrightarrow> 30 * Second \<le> nanos now - s) \<and>
     (\<forall>ps send. r = Inr (ps, send) \<longrightarrow> send))"
  by (auto simp: Packets_def Let_def split: option.splits sum.splits if_splits)

lemma answered_spaced:
  "(\<forall>s. lastSent t = Some s \<longrightarrow> (\<forall>a \<in> set (answered ms t nows). 30 * Second \<le> a - s)) \<and>
   sorted_wrt (\<lambda>a b. 30 * Second \<le> b - a) (answered ms t nows)"
proof (induction nows arbitrary: t)
  case (Cons now nows)
  consider "Packets ms t now = (Inr ([], False), t)"
    | r where "Packets ms t now = (r, t\<lparr>lastSent := Some (nanos now)\<rparr>)"
      "\<forall>s. lastSent t = Some s \<longrightarrow> 30 * Second \<le> nanos now - s" "\<forall>ps send. r = Inr (ps, send) \<longrightarrow> send"
    using Packets_cases by metis
  then show ?case
  proof cases
    case 1
    then show ?thesis using Cons.IH [of t] by simp
  next
    case 2
    from Cons.IH [of "t\<lparr>lastSent := Some (nanos now)\<rparr>"]
    have later: "\<forall>a \<in> set (answered ms (t\<lparr>lastSent := Some (nanos now)\<rparr>) nows). 30 * Second \<le> a - nanos now"
      and sorted: "sorted_wrt (\<lambda>a b. 30 * Second \<le> b - a) (answered ms (t\<lparr>lastSent := Some (nanos now)\<rparr>) nows)"
      by simp_all
    have far: "30 * Second \<le> a - s"
      if "lastSent t = Some s" "a \<in> set (answered ms (t\<lparr>lastSent := Some (nanos now)\<rparr>) nows)" for a s
    proof -
      have "30 * Second \<le> nanos now - s" using 2(2) that(1) by blast
      moreover have "30 * Second \<le> a - nanos now" using later that(2) by blast
      ultimately show ?thesis by (simp add: Second_def)
    qed
    show ?thesis
      using 2 later sorted far by (cases r) (auto split: bool.splits)
  qed
qed simp

section \<open>Properties\<close>

text \<open>However often a device asks for the time, two answers are at least 30 seconds apart.\<close>

theorem time_rate_limited:
  "sorted_wrt (\<lambda>a b. 30 * Second \<le> b - a) (answered marshal_sync t nows)"
  using answered_spaced by blast

text \<open>The clock setting sent to a device carries the Unix time modulo \<open>2 ^ 32\<close> and, for a zone
  offset of whole quarter hours, hours and hundredths of an hour that add up to the offset.\<close>

theorem rtc_payload_time:
  assumes "seconds_east now = 900 * q"
  shows "word_at (rtc_payload now) 0 = word_of_int (Unix now) \<and> length (rtc_payload now) = 6 \<and>
    (\<exists>major minor. drop 4 (rtc_payload now) = [word_of_int major, word_of_int minor] \<and>
      seconds_east now = major * 3600 + minor * 36)"
proof -
  obtain major minor where mm: "timezoneOffset now = (major, minor)" by (cases "timezoneOffset now")
  then have r: "rtc_payload now = put_le32 (word_of_int (Unix now)) @ [word_of_int major, word_of_int minor]"
    by (simp add: rtc_payload_def)
  then show ?thesis
    using timezoneOffset_quarters [OF assms mm] put_le32_word_at
    by (auto simp: put_le32_def)
qed

theorem rtc_payload_time_witness:
  "\<exists>major minor. drop 4 (rtc_payload \<lparr>nanos = 1700000000000000000, seconds_east = -12600\<rparr>) =
     [word_of_int major, word_of_int minor] \<and> -12600 = major * 3600 + minor * 36"
  using rtc_payload_time [of "\<lparr>nanos = 1700000000000000000, seconds_east = -12600\<rparr>" "-14"] by simp

end
