(* ===== verification/Md5.thy ===== *)
theory Md5
  imports Gostr Packet Decode_V2
begin

text \<open>
  \<open>crypto/md5\<close> and \<open>encoding/hex\<close>, which the key derivations and the authentication token
  use: RFC 1321 on 32-bit words.
\<close>

section \<open>Tables\<close>

definition md5_k :: "32 word list" where
  "md5_k = [
     0xD76AA478, 0xE8C7B756, 0x242070DB, 0xC1BDCEEE, 0xF57C0FAF, 0x4787C62A, 0xA8304613, 0xFD469501,
     0x698098D8, 0x8B44F7AF, 0xFFFF5BB1, 0x895CD7BE, 0x6B901122, 0xFD987193, 0xA679438E, 0x49B40821,
     0xF61E2562, 0xC040B340, 0x265E5A51, 0xE9B6C7AA, 0xD62F105D, 0x02441453, 0xD8A1E681, 0xE7D3FBC8,
     0x21E1CDE6, 0xC33707D6, 0xF4D50D87, 0x455A14ED, 0xA9E3E905, 0xFCEFA3F8, 0x676F02D9, 0x8D2A4C8A,
     0xFFFA3942, 0x8771F681, 0x6D9D6122, 0xFDE5380C, 0xA4BEEA44, 0x4BDECFA9, 0xF6BB4B60, 0xBEBFBC70,
     0x289B7EC6, 0xEAA127FA, 0xD4EF3085, 0x04881D05, 0xD9D4D039, 0xE6DB99E5, 0x1FA27CF8, 0xC4AC5665,
     0xF4292244, 0x432AFF97, 0xAB9423A7, 0xFC93A039, 0x655B59C3, 0x8F0CCC92, 0xFFEFF47D, 0x85845DD1,
     0x6FA87E4F, 0xFE2CE6E0, 0xA3014314, 0x4E0811A1, 0xF7537E82, 0xBD3AF235, 0x2AD7D2BB, 0xEB86D391]"

definition md5_shifts :: "nat list" where
  "md5_shifts = concat (map (\<lambda>r. r @ r @ r @ r) [[7, 12, 17, 22], [5, 9, 14, 20], [4, 11, 16, 23], [6, 10, 15, 21]])"

section \<open>The compression function\<close>

type_synonym md5_state = "32 word \<times> 32 word \<times> 32 word \<times> 32 word"

definition rotate_left :: "nat \<Rightarrow> 32 word \<Rightarrow> 32 word" where
  "rotate_left n w = push_bit n w OR drop_bit (32 - n) w"

text \<open>The mixing function and the message word of step \<open>i\<close>.\<close>

definition md5_mix :: "nat \<Rightarrow> 32 word \<Rightarrow> 32 word \<Rightarrow> 32 word \<Rightarrow> 32 word" where
  "md5_mix i b c d =
     (if i < 16 then (b AND c) OR (NOT b AND d)
      else if i < 32 then (d AND b) OR (NOT d AND c)
      else if i < 48 then b XOR c XOR d
      else c XOR (b OR NOT d))"

definition md5_word :: "nat \<Rightarrow> nat" where
  "md5_word i =
     (if i < 16 then i
      else if i < 32 then (5 * i + 1) mod 16
      else if i < 48 then (3 * i + 5) mod 16
      else (7 * i) mod 16)"

fun md5_step :: "32 word list \<Rightarrow> nat \<Rightarrow> md5_state \<Rightarrow> md5_state" where
  "md5_step m i (a, b, c, d) =
     (let f = md5_mix i b c d + a + md5_k ! i + m ! md5_word i
      in (d, b + rotate_left (md5_shifts ! i) f, b, c))"

fun md5_add :: "md5_state \<Rightarrow> md5_state \<Rightarrow> md5_state" where
  "md5_add (a, b, c, d) (a', b', c', d') = (a + a', b + b', c + c', d + d')"

text \<open>The sixteen little-endian words of a block.\<close>

definition block_words :: "bytes \<Rightarrow> 32 word list" where
  "block_words b = map (\<lambda>i. word_at b (4 * i)) [0..<16]"

definition md5_block :: "bytes \<Rightarrow> md5_state \<Rightarrow> md5_state" where
  "md5_block b s = md5_add s (fold (md5_step (block_words b)) [0..<64] s)"

section \<open>Padding and the digest\<close>

definition put_le :: "nat \<Rightarrow> nat \<Rightarrow> bytes" where
  "put_le n v = map (\<lambda>i. word_of_nat (v div 256 ^ i mod 256)) [0..<n]"

definition md5_pad :: "bytes \<Rightarrow> bytes" where
  "md5_pad msg =
     msg @ [0x80] @ replicate ((55 + (64 - length msg mod 64)) mod 64) 0 @
     put_le 8 (8 * length msg mod 2 ^ 64)"

function md5_blocks :: "bytes \<Rightarrow> md5_state \<Rightarrow> md5_state" where
  "md5_blocks b s = (if length b < 64 then s else md5_blocks (drop 64 b) (md5_block (take 64 b) s))"
  by pat_completeness auto
termination
  by (relation "measure (\<lambda>(b, s). length b)") auto

declare md5_blocks.simps [simp del]

definition put_word :: "32 word \<Rightarrow> bytes" where
  "put_word w = map (\<lambda>i. ucast (drop_bit (8 * i) w)) [0..<4]"

definition md5 :: "bytes \<Rightarrow> bytes" where
  "md5 msg =
     (case md5_blocks (md5_pad msg) (0x67452301, 0xEFCDAB89, 0x98BADCFE, 0x10325476) of
        (a, b, c, d) \<Rightarrow> put_word a @ put_word b @ put_word c @ put_word d)"

lemma length_md5 [simp]: "length (md5 msg) = 16"
  by (simp add: md5_def put_word_def split: prod.split)

text \<open>The padded message is whole blocks, so no byte is left out of the digest.\<close>

lemma md5_pad_blocks: "length (md5_pad msg) mod 64 = 0"
proof -
  define l where "l = length msg mod 64"
  have l: "l < 64" by (simp add: l_def)
  have "length (md5_pad msg) = length msg + 9 + (55 + (64 - l)) mod 64"
    by (simp add: md5_pad_def put_le_def l_def)
  moreover have "(length msg + 9 + (55 + (64 - l)) mod 64) mod 64 = (length msg + 9 + (55 + (64 - l))) mod 64"
    by (rule mod_add_right_eq)
  moreover have "length msg + 9 + (55 + (64 - l)) = length msg + (128 - l)" using l by linarith
  moreover have "(length msg + (128 - l)) mod 64 = (l + (128 - l)) mod 64"
    unfolding l_def by (rule mod_add_left_eq [symmetric])
  moreover have "l + (128 - l) = 128" using l by linarith
  ultimately show ?thesis by (simp add: add.commute)
qed

section \<open>Hexadecimal\<close>

definition hex_digit :: "nat \<Rightarrow> char" where
  "hex_digit n = ''0123456789abcdef'' ! n"

definition EncodeToString :: "bytes \<Rightarrow> string" where
  "EncodeToString bs = concat (map (\<lambda>b. [hex_digit (unat b div 16), hex_digit (unat b mod 16)]) bs)"

lemma length_EncodeToString [simp]: "length (EncodeToString bs) = 2 * length bs"
  by (induction bs) (simp_all add: EncodeToString_def)

end
