(* ===== verification/Session_Key.thy ===== *)
theory Session_Key
  imports Md5 Encryption
begin

text \<open>
  \<open>internal/ecoflow/session_key.go\<close>: the keys of the encrypted sessions.  The curve
  secp160r1, a third-party package, and the random source are parameters; the embedded key
  table is the decoded asset.
\<close>

section \<open>Base64\<close>

text \<open>The letters, digits, \<open>+\<close> and \<open>/\<close>, by their codes.\<close>

definition b64_char :: "nat \<Rightarrow> char" where
  "b64_char n = char_of (if n < 26 then n + 65 else if n < 52 then n + 71 else if n < 62 then n - 4
     else if n = 62 then 43 else 47)"

definition b64_value :: "char \<Rightarrow> nat option" where
  "b64_value c =
     (let n = of_char c in
      if 65 \<le> n \<and> n \<le> 90 then Some (n - 65)
      else if 97 \<le> n \<and> n \<le> 122 then Some (n - 71)
      else if 48 \<le> n \<and> n \<le> 57 then Some (n + 4)
      else if n = 43 then Some 62 else if n = 47 then Some 63 else None)"

text \<open>\<open>base64.StdEncoding.EncodeToString\<close>.\<close>

fun b64_encode :: "bytes \<Rightarrow> string" where
  "b64_encode [] = []"
| "b64_encode [a] =
     (let n = unat a * 65536 in [b64_char (n div 262144), b64_char (n div 4096 mod 64)] @ ''=='')"
| "b64_encode [a, b] =
     (let n = unat a * 65536 + unat b * 256
      in [b64_char (n div 262144), b64_char (n div 4096 mod 64), b64_char (n div 64 mod 64)] @ ''='')"
| "b64_encode (a # b # c # bs) =
     (let n = unat a * 65536 + unat b * 256 + unat c
      in [b64_char (n div 262144), b64_char (n div 4096 mod 64), b64_char (n div 64 mod 64),
          b64_char (n mod 64)] @ b64_encode bs)"

text \<open>\<open>DecodeString\<close>: line breaks are skipped, padding is required and only at the end.\<close>

fun b64_quads :: "string \<Rightarrow> bytes option" where
  "b64_quads [] = Some []"
| "b64_quads (a # b # c # d # cs) = do {
     x \<leftarrow> b64_value a; y \<leftarrow> b64_value b;
     if c = CHR ''='' then
       (if d = CHR ''='' \<and> cs = []
        then Some [word_of_nat ((x * 262144 + y * 4096) div 65536)] else None)
     else do {
       z \<leftarrow> b64_value c;
       if d = CHR ''='' then
         (if cs = []
          then (let n = x * 262144 + y * 4096 + z * 64
                in Some [word_of_nat (n div 65536), word_of_nat (n div 256 mod 256)])
          else None)
       else do {
         w \<leftarrow> b64_value d;
         rest \<leftarrow> b64_quads cs;
         let n = x * 262144 + y * 4096 + z * 64 + w;
         Some (word_of_nat (n div 65536) # word_of_nat (n div 256 mod 256) #
           word_of_nat (n mod 256) # rest) } } }"
| "b64_quads _ = None"

definition DecodeString :: "string \<Rightarrow> bytes option" where
  "DecodeString s = b64_quads (filter (\<lambda>c. c \<noteq> CHR 0x0A \<and> c \<noteq> CHR 0x0D) s)"

section \<open>Keys\<close>

text \<open>\<open>loadKeyData\<close> decodes the embedded asset once; decoding it again gives the same.\<close>

definition loadKeyData :: "string \<Rightarrow> go_error + bytes" where
  "loadKeyData keyDataBase64 =
     (case DecodeString keyDataBase64 of
        None \<Rightarrow> Inl (DecodeFailed ''decode embedded EcoFlow key data'' (LibraryError ''illegal base64 data''))
      | Some d \<Rightarrow> Inr d)"

definition leftPad :: "bytes \<Rightarrow> nat \<Rightarrow> bytes" where
  "leftPad inp n =
     (if length inp \<ge> n then drop (length inp - n) inp else replicate (n - length inp) 0 @ inp)"

text \<open>\<open>big.Int\<close>: the minimal big-endian bytes and back.\<close>

fun big_Bytes :: "nat \<Rightarrow> bytes" where
  "big_Bytes n = (if n = 0 then [] else big_Bytes (n div 256) @ [word_of_nat (n mod 256)])"

declare big_Bytes.simps [simp del]

definition SetBytes :: "bytes \<Rightarrow> nat" where
  "SetBytes bs = foldl (\<lambda>n b. n * 256 + unat b) 0 bs"

record curve_lib =
  GenerateKey :: "go_error + (bytes \<times> nat \<times> nat)"
  IsOnCurve :: "nat \<Rightarrow> nat \<Rightarrow> bool"
  ScalarMult :: "nat \<Rightarrow> nat \<Rightarrow> bytes \<Rightarrow> nat \<times> nat"

definition generateSECP160KeyPair :: "curve_lib \<Rightarrow> go_error + (bytes \<times> bytes)" where
  "generateSECP160KeyPair curve =
     (case GenerateKey curve of
        Inl e \<Rightarrow> Inl e
      | Inr (privateKey, x, y) \<Rightarrow>
          Inr (privateKey, leftPad (big_Bytes x) 20 @ leftPad (big_Bytes y) 20))"

definition deriveSharedSecret :: "curve_lib \<Rightarrow> bytes \<Rightarrow> bytes \<Rightarrow> go_error + bytes" where
  "deriveSharedSecret curve privateKey devicePubKey =
     (if length devicePubKey \<noteq> 40
      then Inl (SessionError (UnsupportedPublicKeySize (length devicePubKey)))
      else
        let x = SetBytes (take 20 devicePubKey); y = SetBytes (drop 20 devicePubKey) in
        if \<not> IsOnCurve curve x y then Inl (SessionError PublicKeyNotOnCurve)
        else Inr (leftPad (big_Bytes (fst (ScalarMult curve x y privateKey))) 20))"

text \<open>The slice \<open>sharedSecret[:16]\<close> panics on a shorter secret.\<close>

definition type7SessionSeed :: "bytes \<Rightarrow> (bytes \<times> bytes) option" where
  "type7SessionSeed sharedSecret = do {
     key \<leftarrow> go_slice sharedSecret 0 16;
     Some (key, md5 sharedSecret) }"

definition key_pos :: "byte \<Rightarrow> byte \<Rightarrow> nat" where
  "key_pos s0 s1 = unat s0 * 0x10 + unat ((s1 - 1) AND 0xFF) * 0x100"

definition deriveFinalSessionKey :: "(go_error + bytes) \<Rightarrow> bytes \<Rightarrow> bytes \<Rightarrow> (go_error + bytes) option" where
  "deriveFinalSessionKey loaded seed srand =
     (case loaded of
        Inl e \<Rightarrow> Some (Inl e)
      | Inr keyData \<Rightarrow>
          (if length seed < 2 \<or> length srand < 16 then Some (Inl (SessionError InvalidKeyInfo))
           else
             let pos = key_pos (seed ! 0) (seed ! 1) in
             if pos + 16 > length keyData then Some (Inl (SessionError KeyDataOutOfRange))
             else do {
               k0 \<leftarrow> go_slice keyData pos (pos + 8);
               k1 \<leftarrow> go_slice keyData (pos + 8) (pos + 16);
               r0 \<leftarrow> go_slice srand 0 8;
               r1 \<leftarrow> go_slice srand 8 16;
               Some (Inr (md5 (k0 @ k1 @ r0 @ r1))) }))"

definition type1Session :: "string \<Rightarrow> bytes \<times> bytes" where
  "type1Session serial = (md5 (bytes_of_string serial), md5 (rev (bytes_of_string serial)))"

definition getECDHTypeSize :: "byte \<Rightarrow> nat" where
  "getECDHTypeSize curveNum =
     (if curveNum = 1 then 52 else if curveNum = 2 then 56
      else if curveNum = 3 \<or> curveNum = 4 then 64 else 40)"

definition parseUint64LE :: "bytes \<Rightarrow> nat option" where
  "parseUint64LE data = map_option (\<lambda>b. SetBytes (rev b)) (go_slice data 0 8)"

section \<open>Big integers\<close>

lemma SetBytes_append: "SetBytes (xs @ ys) = SetBytes xs * 256 ^ length ys + SetBytes ys"
proof (induction ys rule: rev_induct)
  case (snoc y ys)
  have "SetBytes (zs @ [y]) = SetBytes zs * 256 + unat y" for zs by (simp add: SetBytes_def)
  with snoc show ?case by (simp flip: append_assoc add: algebra_simps)
qed (simp add: SetBytes_def)

lemma SetBytes_zeros [simp]: "SetBytes (replicate n 0) = 0"
  by (induction n) (simp_all add: SetBytes_def)

lemma SetBytes_big_Bytes [simp]: "SetBytes (big_Bytes n) = n"
proof (induction n rule: big_Bytes.induct)
  case (1 n)
  show ?case
  proof (cases "n = 0")
    case False
    with 1 have "SetBytes (big_Bytes (n div 256)) = n div 256" by simp
    moreover have "SetBytes [word_of_nat (n mod 256)] = n mod 256"
      by (simp add: SetBytes_def unat_of_nat8)
    ultimately show ?thesis using False by (subst big_Bytes.simps) (simp add: SetBytes_append)
  qed (simp add: big_Bytes.simps SetBytes_def)
qed

lemma big_Bytes_length: "n < 256 ^ k \<Longrightarrow> length (big_Bytes n) \<le> k"
proof (induction k arbitrary: n)
  case (Suc k)
  show ?case
  proof (cases "n = 0")
    case False
    have "n div 256 < 256 ^ k" using Suc.prems by (simp add: less_mult_imp_div_less)
    from Suc.IH [OF this] False show ?thesis by (subst big_Bytes.simps) simp
  qed (simp add: big_Bytes.simps)
qed (simp add: big_Bytes.simps)

lemma length_leftPad [simp]: "length (leftPad b n) = n"
  by (simp add: leftPad_def)

lemma SetBytes_leftPad: "n < 256 ^ k \<Longrightarrow> SetBytes (leftPad (big_Bytes n) k) = n"
  using big_Bytes_length [of n k] by (auto simp: leftPad_def SetBytes_append le_antisym)

section \<open>Base64 round trip\<close>

lemma char_neq_of_char: "of_char c \<noteq> (of_char d :: nat) \<Longrightarrow> c \<noteq> d"
  by blast

lemma b64_char_props:
  assumes "n < 64"
  shows "b64_value (b64_char n) = Some n" "b64_char n \<noteq> CHR ''=''" "b64_char n \<noteq> CHR 0x0A"
    "b64_char n \<noteq> CHR 0x0D"
proof -
  have code: "of_char (b64_char n) = (if n < 26 then n + 65 else if n < 52 then n + 71
      else if n < 62 then n - 4 else if n = 62 then 43 else (47 :: nat))"
    using assms by (simp add: b64_char_def of_char_of)
  then show "b64_value (b64_char n) = Some n"
    using assms unfolding b64_value_def Let_def code by auto
  show "b64_char n \<noteq> CHR ''=''" "b64_char n \<noteq> CHR 0x0A" "b64_char n \<noteq> CHR 0x0D"
    by (rule char_neq_of_char, simp add: code split: if_splits, linarith?)+
qed

lemma sextets_sum:
  fixes n :: nat
  shows "m * 64 + d = n \<Longrightarrow> k * 64 + c = m \<Longrightarrow> a * 64 + b = k \<Longrightarrow>
    a * 262144 + b * 4096 + c * 64 + d = n"
  by simp

lemma sextets:
  fixes n :: nat
  shows "n div 262144 * 262144 + n div 4096 mod 64 * 4096 + n div 64 mod 64 * 64 + n mod 64 = n"
proof (rule sextets_sum)
  show "n div 262144 * 64 + n div 4096 mod 64 = n div 4096"
    using div_mult_mod_eq [of "n div 4096" 64] by (simp add: div_mult2_eq [symmetric])
  show "n div 4096 * 64 + n div 64 mod 64 = n div 64"
    using div_mult_mod_eq [of "n div 64" 64] by (simp add: div_mult2_eq [symmetric])
qed (rule div_mult_mod_eq)

lemma sextets_dvd:
  fixes n :: nat
  shows "n mod 64 = 0 \<Longrightarrow> n div 262144 * 262144 + n div 4096 mod 64 * 4096 + n div 64 mod 64 * 64 = n"
    "n mod 64 = 0 \<Longrightarrow> n div 64 mod 64 = 0 \<Longrightarrow> n div 262144 * 262144 + n div 4096 mod 64 * 4096 = n"
  using sextets [of n] by simp_all

text \<open>The four characters of a group of three bytes \<open>n\<close>.\<close>

lemma b64_group:
  assumes "n < 16777216"
  shows "b64_value (b64_char (n div 262144)) = Some (n div 262144)"
    "b64_value (b64_char (n div 4096 mod 64)) = Some (n div 4096 mod 64)"
    "b64_value (b64_char (n div 64 mod 64)) = Some (n div 64 mod 64)"
    "b64_value (b64_char (n mod 64)) = Some (n mod 64)"
    "b64_char (n div 64 mod 64) \<noteq> CHR ''=''" "b64_char (n mod 64) \<noteq> CHR ''=''"
proof -
  have "n div 262144 < 64" using assms by (simp add: less_mult_imp_div_less)
  then show "b64_value (b64_char (n div 262144)) = Some (n div 262144)" by (rule b64_char_props)
qed (auto intro!: b64_char_props)

lemma three_bytes:
  fixes a b c :: byte
  defines "n \<equiv> unat a * 65536 + unat b * 256 + unat c"
  shows "n < 16777216" "n div 65536 = unat a" "n div 256 mod 256 = unat b" "n mod 256 = unat c"
proof -
  have h: "unat a < 256" "unat b < 256" "unat c < 256"
    using unsigned_less [where 'a = nat and 'b = 8] by simp_all
  have n: "n = (unat a * 256 + unat b) * 256 + unat c" by (simp add: n_def)
  show "n < 16777216" using h unfolding n_def by linarith
  have digit: "(k * 256 + r) div 256 = k \<and> (k * 256 + r) mod 256 = r" if "r < 256" for k r :: nat
    using that by (metis div_mult_self3 mod_mult_self3 div_less mod_less add_0_right zero_neq_numeral)
  show "n mod 256 = unat c" unfolding n using digit h by blast
  have d: "n div 256 = unat a * 256 + unat b" unfolding n using digit h by blast
  show "n div 256 mod 256 = unat b" unfolding d using digit h by blast
  have "n div 65536 = n div 256 div 256" by (simp add: div_mult2_eq [symmetric])
  then show "n div 65536 = unat a" unfolding d using digit h by metis
qed

lemma b64_quads_4:
  assumes "b64_value a = Some x" "b64_value b = Some y" "b64_value c = Some z" "b64_value d = Some w"
    "c \<noteq> CHR ''=''" "d \<noteq> CHR ''=''" "x * 262144 + y * 4096 + z * 64 + w = n"
  shows "b64_quads (a # b # c # d # cs) = map_option (\<lambda>r. word_of_nat (n div 65536) #
    word_of_nat (n div 256 mod 256) # word_of_nat (n mod 256) # r) (b64_quads cs)"
  unfolding assms(7) [symmetric] using assms(1-6) by (cases "b64_quads cs") (simp_all add: Let_def)

lemma b64_quads_3:
  assumes "b64_value a = Some x" "b64_value b = Some y" "b64_value c = Some z"
    "c \<noteq> CHR ''=''" "x * 262144 + y * 4096 + z * 64 = n"
  shows "b64_quads [a, b, c, CHR ''=''] = Some [word_of_nat (n div 65536), word_of_nat (n div 256 mod 256)]"
  unfolding assms(5) [symmetric] using assms(1-4) by (simp add: Let_def)

lemma b64_quads_2:
  assumes "b64_value a = Some x" "b64_value b = Some y" "x * 262144 + y * 4096 = n"
  shows "b64_quads [a, b, CHR ''='', CHR ''=''] = Some [word_of_nat (n div 65536)]"
  unfolding assms(3) [symmetric] using assms(1,2) by simp

lemma b64_quads_encode: "b64_quads (b64_encode bs) = Some bs"
proof (induction bs rule: b64_encode.induct)
  case (2 a)
  define n where "n = unat a * 65536"
  have m: "n mod 64 = 0" by (simp add: n_def)
  have "n div 64 = unat a * 1024" by (simp add: n_def)
  then have m': "n div 64 mod 64 = 0" by simp
  have n: "n < 16777216" "n div 65536 = unat a" using three_bytes [of a 0 0] by (simp_all add: n_def)
  note b64_quads_2 [OF b64_group(1,2) [OF n(1)] sextets_dvd(2) [OF m m']]
  then show ?case by (simp only: b64_encode.simps Let_def append.simps n_def [symmetric] n(2)) simp
next
  case (3 a b)
  define n where "n = unat a * 65536 + unat b * 256"
  have m: "n mod 64 = 0" by (simp add: n_def)
  have n: "n < 16777216" "n div 65536 = unat a" "n div 256 mod 256 = unat b"
    using three_bytes [of a b 0] by (simp_all add: n_def)
  note b64_quads_3 [OF b64_group(1,2,3,5) [OF n(1)] sextets_dvd(1) [OF m]]
  then show ?case by (simp only: b64_encode.simps Let_def append.simps n_def [symmetric] n(2,3)) simp
next
  case (4 a b c bs)
  define n where "n = unat a * 65536 + unat b * 256 + unat c"
  have n: "n < 16777216" "n div 65536 = unat a" "n div 256 mod 256 = unat b" "n mod 256 = unat c"
    using three_bytes [of a b c] by (simp_all add: n_def)
  note b64_quads_4 [OF b64_group [OF n(1)] sextets]
  then show ?case
    by (simp only: b64_encode.simps Let_def append.simps n_def [symmetric] n(2-4) "4.IH") simp
qed simp

lemma b64_char_plain: "n < 64 \<Longrightarrow> b64_char n \<noteq> CHR 0x0A \<and> b64_char n \<noteq> CHR 0x0D"
  using b64_char_props by blast

lemma b64_encode_plain: "filter (\<lambda>c. c \<noteq> CHR 0x0A \<and> c \<noteq> CHR 0x0D) (b64_encode bs) = b64_encode bs"
proof (induction bs rule: b64_encode.induct)
  case (2 a)
  have "unat a * 65536 div 262144 < 64" using three_bytes [of a 0 0] by (simp add: less_mult_imp_div_less)
  then show ?case by (simp add: Let_def b64_char_plain)
next
  case (3 a b)
  have "(unat a * 65536 + unat b * 256) div 262144 < 64"
    using three_bytes [of a b 0] by (simp add: less_mult_imp_div_less)
  then show ?case by (simp add: Let_def b64_char_plain)
next
  case (4 a b c bs)
  have "(unat a * 65536 + unat b * 256 + unat c) div 262144 < 64"
    using three_bytes [of a b c] by (simp add: less_mult_imp_div_less)
  then show ?case using "4.IH" by (simp add: Let_def b64_char_plain)
qed simp

lemma DecodeString_encode: "DecodeString (b64_encode bs) = Some bs"
  by (simp add: DecodeString_def b64_encode_plain b64_quads_encode)

section \<open>Properties\<close>

text \<open>The embedded key table round-trips: whatever line breaks the asset is wrapped with,
  loading the Base64 of a table gives the table.\<close>

theorem key_table_loads:
  assumes "filter (\<lambda>c. c \<noteq> CHR 0x0A \<and> c \<noteq> CHR 0x0D) asset = b64_encode table"
  shows "loadKeyData asset = Inr table"
  using assms by (simp add: loadKeyData_def DecodeString_def b64_quads_encode)

theorem key_table_loads_witness: "loadKeyData (''AAEC'' @ [CHR 0x0A] @ ''/w=='' @ [CHR 0x0A]) = Inr [0, 1, 2, 255]"
  by (rule key_table_loads) (simp add: Let_def b64_char_def char_of_def bit_Suc_0_iff bit_0)

text \<open>Where the sixteen bytes of the table start.\<close>

lemma key_pos_unat: "key_pos s0 s1 = 16 * unat s0 + 256 * unat (s1 - 1)"
proof -
  have "(0xFF :: byte) = - 1" by code_simp
  then have "(s1 - 1) AND 0xFF = s1 - 1" by (simp only: and.right_neutral)
  then show ?thesis by (simp add: key_pos_def)
qed

lemma deriveFinalSessionKey_eq:
  "deriveFinalSessionKey (Inr table) seed srand = Some (
     if length seed < 2 \<or> length srand < 16 then Inl (SessionError InvalidKeyInfo)
     else if length table < key_pos (seed ! 0) (seed ! 1) + 16 then Inl (SessionError KeyDataOutOfRange)
     else Inr (md5 (take 16 (drop (key_pos (seed ! 0) (seed ! 1)) table) @ take 16 srand)))"
proof -
  define pos where "pos = key_pos (seed ! 0) (seed ! 1)"
  have "take 8 (drop pos table) @ take 8 (drop (pos + 8) table) = take 16 (drop pos table)"
    using take_add [of 8 8 "drop pos table"] by (simp add: add.commute)
  moreover have "take 8 srand @ take 8 (drop 8 srand) = take 16 srand"
    using take_add [of 8 8 srand] by simp
  ultimately have "take 8 (drop pos table) @ take 8 (drop (pos + 8) table) @ take 8 srand @ take 8 (drop 8 srand) =
      take 16 (drop pos table) @ take 16 srand" by (metis append_assoc)
  then show ?thesis
    by (simp add: deriveFinalSessionKey_def Let_def go_slice_in flip: pos_def del: One_nat_def)
qed

text \<open>C34: The final session key is computed without a panic, and exactly when the key info has
  two seed and sixteen random bytes and the seed points into the table: with the 65280 bytes of
  the embedded table, when \<open>16 * ((s1 - 1) mod 256) + s0 \<le> 4079\<close>; it always has sixteen bytes.\<close>

theorem final_key_exact:
  assumes "length table = 65280"
  shows "\<exists>r. deriveFinalSessionKey (Inr table) seed srand = Some r \<and>
    (case r of
       Inr key \<Rightarrow> length key = 16 \<and> 2 \<le> length seed \<and> 16 \<le> length srand \<and>
         16 * unat (seed ! 1 - 1) + unat (seed ! 0) \<le> 4079 \<and>
         key = md5 (take 16 (drop (key_pos (seed ! 0) (seed ! 1)) table) @ take 16 srand)
     | Inl e \<Rightarrow> length seed < 2 \<or> length srand < 16 \<or>
         4079 < 16 * unat (seed ! 1 - 1) + unat (seed ! 0))"
  unfolding deriveFinalSessionKey_eq key_pos_unat using assms by simp

theorem final_key_exact_witness:
  "\<exists>key. deriveFinalSessionKey (Inr (replicate 65280 7)) [1, 1] (replicate 16 9) = Some (Inr key) \<and> length key = 16"
proof -
  define r where "r = the (deriveFinalSessionKey (Inr (replicate 65280 7)) [1, 1] (replicate 16 9))"
  have "deriveFinalSessionKey (Inr (replicate 65280 7)) [1, 1] (replicate 16 9) = Some r"
    "case r of Inr key \<Rightarrow> length key = 16 | Inl _ \<Rightarrow> False"
    unfolding r_def using final_key_exact [of "replicate 65280 7" "[1, 1]" "replicate 16 9"]
    by (fastforce split: sum.splits)+
  then show ?thesis by (cases r) auto
qed

text \<open>What the handshake needs of the curve, whose base point has the order \<open>n\<close>: a scalar that is not
  a multiple of \<open>n\<close> takes the base point to a point on the curve with coordinates of 20 bytes, and
  multiplying with two such scalars commutes.  Nothing is asked of the point at infinity.\<close>

definition curve_key :: "nat \<Rightarrow> bytes \<Rightarrow> bool" where
  "curve_key n k \<longleftrightarrow> 0 < SetBytes k \<and> SetBytes k < n"

definition curve_laws :: "curve_lib \<Rightarrow> nat \<times> nat \<Rightarrow> nat \<Rightarrow> bool" where
  "curve_laws c base n \<longleftrightarrow>
     (\<forall>k. curve_key n k \<longrightarrow> (let (x, y) = ScalarMult c (fst base) (snd base) k
          in IsOnCurve c x y \<and> x < 256 ^ 20 \<and> y < 256 ^ 20)) \<and>
     (\<forall>k l. curve_key n k \<and> curve_key n l \<longrightarrow>
        (let (x, y) = ScalarMult c (fst base) (snd base) k; (x', y') = ScalarMult c (fst base) (snd base) l
         in ScalarMult c x y l = ScalarMult c x' y' k))"

text \<open>A curve whose key generation has drawn the scalar \<open>k\<close>.\<close>

definition draws :: "curve_lib \<Rightarrow> nat \<times> nat \<Rightarrow> bytes \<Rightarrow> curve_lib" where
  "draws c base k = c\<lparr>GenerateKey := Inr (k, ScalarMult c (fst base) (snd base) k)\<rparr>"

lemma deriveSharedSecret_generated:
  assumes "curve_laws c base n" "curve_key n k"
  shows "\<exists>pub. generateSECP160KeyPair (draws c base k) = Inr (k, pub) \<and> length pub = 40 \<and>
    deriveSharedSecret c l pub =
      Inr (leftPad (big_Bytes (fst (case ScalarMult c (fst base) (snd base) k of (x, y) \<Rightarrow> ScalarMult c x y l))) 20)"
proof -
  obtain x y where xy: "ScalarMult c (fst base) (snd base) k = (x, y)" by force
  then have ok: "IsOnCurve c x y" "x < 256 ^ 20" "y < 256 ^ 20"
    using assms unfolding curve_laws_def by (auto simp: Let_def dest!: spec [of _ k])
  have "generateSECP160KeyPair (draws c base k) = Inr (k, leftPad (big_Bytes x) 20 @ leftPad (big_Bytes y) 20)"
    by (simp add: generateSECP160KeyPair_def draws_def xy)
  moreover have "deriveSharedSecret c l (leftPad (big_Bytes x) 20 @ leftPad (big_Bytes y) 20) =
      Inr (leftPad (big_Bytes (fst (ScalarMult c x y l))) 20)"
    using ok(1) SetBytes_leftPad [OF ok(2)] SetBytes_leftPad [OF ok(3)] by (simp add: deriveSharedSecret_def Let_def)
  ultimately show ?thesis using xy by simp
qed

lemma shared_secret:
  assumes "curve_laws c base n" "curve_key n a" "curve_key n b"
  shows "\<exists>pubA pubB secret key iv.
    generateSECP160KeyPair (draws c base a) = Inr (a, pubA) \<and> generateSECP160KeyPair (draws c base b) = Inr (b, pubB) \<and>
    deriveSharedSecret c a pubB = Inr secret \<and> deriveSharedSecret c b pubA = Inr secret \<and>
    type7SessionSeed secret = Some (key, iv) \<and> wf_type7 (Type7Encryption key iv)"
proof -
  obtain xa ya where A: "ScalarMult c (fst base) (snd base) a = (xa, ya)" by force
  obtain xb yb where B: "ScalarMult c (fst base) (snd base) b = (xb, yb)" by force
  have comm: "ScalarMult c xb yb a = ScalarMult c xa ya b"
    using assms(1) [unfolded curve_laws_def Let_def, THEN conjunct2, THEN spec [of _ b], THEN spec [of _ a]] assms(2,3)
    by (simp add: A B)
  define secret where "secret = leftPad (big_Bytes (fst (ScalarMult c xa ya b))) 20"
  obtain pubA where "generateSECP160KeyPair (draws c base a) = Inr (a, pubA)"
    "deriveSharedSecret c b pubA = Inr secret"
    using deriveSharedSecret_generated [OF assms(1,2), of b] by (auto simp: A secret_def)
  moreover obtain pubB where "generateSECP160KeyPair (draws c base b) = Inr (b, pubB)"
    "deriveSharedSecret c a pubB = Inr secret"
    using deriveSharedSecret_generated [OF assms(1,3), of a] by (auto simp: B secret_def comm)
  moreover have "length secret = 20" by (simp add: secret_def)
  then have "type7SessionSeed secret = Some (take 16 secret, md5 secret) \<and>
      wf_type7 (Type7Encryption (take 16 secret) (md5 secret))"
    by (simp add: type7SessionSeed_def go_slice_in wf_type7_def wf_strategy_def valid_aes_key_def)
  ultimately show ?thesis by blast
qed

text \<open>A small elliptic curve: \<open>y\<^sup>2 = x\<^sup>3 + 2x + 2\<close> over the integers modulo 17, whose base point
  \<open>(5, 1)\<close> has the prime order 19.  The multiples of the base point are listed; \<open>(0, 0)\<close> stands for
  the point at infinity and is not on the curve.\<close>

definition small_points :: "(nat \<times> nat) list" where
  "small_points = [(0, 0), (5, 1), (6, 3), (10, 6), (3, 1), (9, 16), (16, 13), (0, 6), (13, 7), (7, 6),
     (7, 11), (13, 10), (0, 11), (16, 4), (9, 1), (3, 16), (10, 11), (6, 14), (5, 16)]"

definition small_on_curve :: "nat \<Rightarrow> nat \<Rightarrow> bool" where
  "small_on_curve x y \<longleftrightarrow> x < 17 \<and> y < 17 \<and> (y * y) mod 17 = (x * x * x + 2 * x + 2) mod 17"

definition small_index :: "nat \<times> nat \<Rightarrow> nat" where
  "small_index p = length (takeWhile (\<lambda>q. q \<noteq> p) small_points)"

definition small_curve :: curve_lib where
  "small_curve = \<lparr>GenerateKey = Inr ([3], 10, 6), IsOnCurve = small_on_curve,
     ScalarMult = (\<lambda>x y k. small_points ! (small_index (x, y) * SetBytes k mod 19))\<rparr>"

lemma small_points_on_curve:
  "list_all (\<lambda>(x, y). small_on_curve x y) (tl small_points)" "\<not> small_on_curve 0 0" "length small_points = 19"
  by (simp_all add: small_points_def small_on_curve_def)

lemma small_index_nth: "i < 19 \<Longrightarrow> small_index (small_points ! i) = i"
proof -
  have "list_all (\<lambda>i. small_index (small_points ! i) = i) [0..<19]"
    by code_simp
  then show "i < 19 \<Longrightarrow> ?thesis" by (simp add: list_all_iff)
qed

lemma small_point: "0 < i \<Longrightarrow> i < 19 \<Longrightarrow> case small_points ! i of (x, y) \<Rightarrow> small_on_curve x y"
  using small_points_on_curve(1) nth_mem [of "i - 1" "tl small_points"]
  by (fastforce simp: list_all_iff nth_tl small_points_on_curve(3))

lemma small_curve_laws: "curve_laws small_curve (5, 1) 19"
proof -
  have base: "small_index (5, Suc 0) = 1" by (simp add: small_index_def small_points_def)
  have mult: "ScalarMult small_curve 5 1 k = small_points ! SetBytes k" if "curve_key 19 k" for k
    using that by (simp add: small_curve_def base curve_key_def)
  have on: "case small_points ! SetBytes k of (x, y) \<Rightarrow> small_on_curve x y" if "curve_key 19 k" for k
    using that small_point by (simp add: curve_key_def)
  have bounds: "x < 256 ^ 20 \<and> y < 256 ^ 20" if "small_on_curve x y" for x y
  proof -
    from that have "x < 17" "y < 17" by (simp_all add: small_on_curve_def)
    then show ?thesis by simp
  qed
  have comm: "ScalarMult small_curve x y l = small_points ! (SetBytes k * SetBytes l mod 19)"
    if "curve_key 19 k" "small_points ! SetBytes k = (x, y)" for k l x y
    using that small_index_nth [of "SetBytes k"] by (simp add: small_curve_def curve_key_def)
  show ?thesis
    unfolding curve_laws_def Let_def
  proof (intro conjI allI impI, goal_cases)
    case (1 k)
    obtain x y where xy: "small_points ! SetBytes k = (x, y)" by force
    with 1 on [of k] have "small_on_curve x y" by simp
    with 1 xy mult [of k] bounds [of x y] show ?case by (simp add: small_curve_def)
  next
    case (2 k l)
    obtain x y x' y' where "small_points ! SetBytes k = (x, y)" "small_points ! SetBytes l = (x', y')" by force
    with 2 mult [of k] mult [of l] comm [of k x y l] comm [of l x' y' k] show ?case
      by (simp add: mult.commute)
  qed
qed

lemma small_keys: "curve_key 19 [3]" "curve_key 19 [5]"
  by (simp_all add: curve_key_def SetBytes_def)

text \<open>C35: Two parties whose key generation drew scalars that are not multiples of the order, and
  that exchange the 40-byte public keys, derive the same 20-byte secret, also when a coordinate
  has leading zero bytes, and the session that type 7 seeds from it can encrypt and decrypt.\<close>

theorem shared_secret_agrees:
  assumes "curve_laws c base n" "curve_key n a" "curve_key n b"
  shows "\<exists>pubA pubB secret key iv.
    generateSECP160KeyPair (draws c base a) = Inr (a, pubA) \<and> generateSECP160KeyPair (draws c base b) = Inr (b, pubB) \<and>
    deriveSharedSecret c a pubB = Inr secret \<and> deriveSharedSecret c b pubA = Inr secret \<and>
    type7SessionSeed secret = Some (key, iv) \<and> wf_type7 (Type7Encryption key iv)"
  using assms by (rule shared_secret)

theorem shared_secret_agrees_witness:
  "\<exists>pubA pubB secret.
    generateSECP160KeyPair (draws small_curve (5, 1) [3]) = Inr ([3], pubA) \<and>
    generateSECP160KeyPair (draws small_curve (5, 1) [5]) = Inr ([5], pubB) \<and>
    deriveSharedSecret small_curve [3] pubB = Inr secret \<and> deriveSharedSecret small_curve [5] pubA = Inr secret"
  using shared_secret_agrees [OF small_curve_laws small_keys] by blast

end
