(* ===== verification/Telemetry_Vars.thy ===== *)
theory Telemetry_Vars
  imports Store Config Device_Types
begin

text \<open>
  The variables a session publishes (\<open>liveVars\<close>, \<open>staleVars\<close>, \<open>identityVars\<close> and
  \<open>lowBattery\<close> of \<open>internal/ecoflow/provider.go\<close>), and what a NUT client can read off
  them.
\<close>

section \<open>Building the variables\<close>

definition lowBattery :: "Device \<Rightarrow> Telemetry \<Rightarrow> bool" where
  "lowBattery device telemetry \<longleftrightarrow>
     (case Charge telemetry of Some c \<Rightarrow> c \<le> LowBatteryPercent device | None \<Rightarrow> False) \<or>
     (case RuntimeSeconds telemetry of Some r \<Rightarrow> r \<le> LowRuntimeSeconds device | None \<Rightarrow> False)"

definition identityVars :: "Device \<Rightarrow> string \<Rightarrow> string \<Rightarrow> string \<Rightarrow> string gomap" where
  "identityVars device fallbackModel serial status =
     (let model = d_Model device;
          model = (if model = [] then fallbackModel else model);
          model = (if model = [] then ''EcoFlow'' else model);
          serial = (if serial = [] then d_Serial device else serial);
          serial = (if serial = [] then d_MAC device else serial)
      in [(''device.mfr'', ''EcoFlow''), (''device.model'', model), (''device.serial'', serial),
          (''ups.mfr'', ''EcoFlow''), (''ups.model'', model), (''ups.serial'', serial),
          (''ups.status'', status), (''ups.realpower.nominal'', ''0'')])"

definition staleVars :: "Device \<Rightarrow> string \<Rightarrow> string \<Rightarrow> string gomap" where
  "staleVars device model serial = identityVars device model serial ''WAIT''"

definition live_status :: "Device \<Rightarrow> Telemetry \<Rightarrow> string" where
  "live_status device telemetry =
     (let status = (if InputPresent telemetry = Some True then ''OL'' else ''OB'')
      in if lowBattery device telemetry then status @ '' LB'' else status)"

definition put_int :: "string \<Rightarrow> int option \<Rightarrow> string gomap \<Rightarrow> string gomap" where
  "put_int key v vars = (case v of None \<Rightarrow> vars | Some n \<Rightarrow> map_set vars key (FormatInt n))"

definition liveVars :: "Device \<Rightarrow> DeviceDescriptor \<Rightarrow> Telemetry \<Rightarrow> string gomap" where
  "liveVars device desc telemetry =
     (let vars = identityVars device (Model desc) (Serial desc) (live_status device telemetry);
          vars = put_int ''battery.charge'' (Charge telemetry) vars;
          vars = put_int ''battery.runtime'' (RuntimeSeconds telemetry) vars;
          vars = put_int ''input.power'' (InputPower telemetry) vars
      in put_int ''output.power'' (OutputPower telemetry) vars)"

section \<open>Reading them back\<close>

lemma map_get_put_int [simp]:
  "map_get (put_int key v vars) k =
     (if k = key \<and> v \<noteq> None then map_option FormatInt v else map_get vars k)"
  by (simp add: put_int_def split: option.split)

lemma wf_put_int [simp]: "wf_map vars \<Longrightarrow> wf_map (put_int key v vars)"
  by (simp add: put_int_def split: option.split)

lemma wf_identityVars [simp]: "wf_map (identityVars d m s st)"
  by (simp add: identityVars_def Let_def wf_map_def)

lemma wf_staleVars [simp]: "wf_map (staleVars d m s)"
  by (simp add: staleVars_def)

lemma wf_liveVars [simp]: "wf_map (liveVars d desc t)"
  by (simp add: liveVars_def Let_def)

definition telemetry_keys :: "string list" where
  "telemetry_keys = [''battery.charge'', ''battery.runtime'', ''input.power'', ''output.power'']"

lemma identityVars_status: "map_get (identityVars d m s st) ''ups.status'' = Some st"
  by (simp add: identityVars_def Let_def map_get_def)

lemma identityVars_telemetry: "k \<in> set telemetry_keys \<Longrightarrow> map_get (identityVars d m s st) k = None"
  unfolding identityVars_def Let_def map_get_def telemetry_keys_def
  by (simp split del: if_split) (elim disjE; simp split del: if_split)

lemma identityVars_other_status:
  "k \<noteq> ''ups.status'' \<Longrightarrow> map_get (identityVars d m s st) k = map_get (identityVars d m s st') k"
  by (simp add: identityVars_def Let_def map_get_def)

text \<open>The value of one variable of a telemetry report.\<close>

definition telemetry_value :: "Telemetry \<Rightarrow> string \<Rightarrow> int option" where
  "telemetry_value t k =
     (if k = ''battery.charge'' then Charge t
      else if k = ''battery.runtime'' then RuntimeSeconds t
      else if k = ''input.power'' then InputPower t
      else if k = ''output.power'' then OutputPower t else None)"

lemma liveVars_get:
  "map_get (liveVars d desc t) k =
     (if k \<in> set telemetry_keys then map_option FormatInt (telemetry_value t k)
      else if k = ''ups.status'' then Some (live_status d t)
      else map_get (staleVars d (Model desc) (Serial desc)) k)"
proof (cases "k \<in> set telemetry_keys")
  case True
  then show ?thesis
    using identityVars_telemetry [OF True]
    by (auto simp: liveVars_def Let_def telemetry_keys_def telemetry_value_def)
next
  case False
  then have "map_get (liveVars d desc t) k = map_get (identityVars d (Model desc) (Serial desc) (live_status d t)) k"
    by (simp add: liveVars_def Let_def telemetry_keys_def)
  with False show ?thesis
    using identityVars_status identityVars_other_status
    by (auto simp: staleVars_def telemetry_keys_def)
qed

lemma live_status_cases:
  "live_status d t \<in> {''OL'', ''OB'', ''OL LB'', ''OB LB''}"
  by (simp add: live_status_def Let_def)

section \<open>Properties\<close>

lemma liveVars_inject:
  "liveVars d desc t = liveVars d desc t' \<longleftrightarrow> live_status d t = live_status d t' \<and>
     Charge t = Charge t' \<and> RuntimeSeconds t = RuntimeSeconds t' \<and>
     InputPower t = InputPower t' \<and> OutputPower t = OutputPower t'" (is "?l = ?r")
proof
  assume ?l
  then have g: "map_get (liveVars d desc t) k = map_get (liveVars d desc t') k" for k by simp
  have inj: "m = n" if "map_option FormatInt m = map_option FormatInt n" for m n
    using that by (rule option.inj_map_strong [rotated]) (simp add: FormatInt_def)
  show ?r
    using g [of "''ups.status''"] g [of "''battery.charge''"] g [of "''battery.runtime''"]
      g [of "''input.power''"] g [of "''output.power''"]
    by (auto simp: liveVars_get telemetry_keys_def telemetry_value_def dest: inj)
qed (simp add: liveVars_def)

text \<open>C33: The live variables are exactly: the charge, the runtime and the powers that the telemetry
  has, in decimal; a status that is \<open>OL\<close> when input is reported present and \<open>OB\<close> otherwise, with
  \<open>LB\<close> when the charge or the runtime is at or under the limit of the device; and the identity of
  the device, as in the waiting state, whose status is \<open>WAIT\<close>.  Nothing is lost: telemetry with the
  same variables agrees in every value shown and in the status.\<close>

theorem live_vars_faithful:
  assumes "low \<longleftrightarrow> (\<exists>c. Charge t = Some c \<and> c \<le> LowBatteryPercent d) \<or>
      (\<exists>r. RuntimeSeconds t = Some r \<and> r \<le> LowRuntimeSeconds d)"
  shows "map_get (liveVars d desc t) ''ups.status'' =
      Some ((if InputPresent t = Some True then ''OL'' else ''OB'') @ (if low then '' LB'' else [])) \<and>
    map_get (liveVars d desc t) ''battery.charge'' = map_option Itoa (Charge t) \<and>
    map_get (liveVars d desc t) ''battery.runtime'' = map_option Itoa (RuntimeSeconds t) \<and>
    map_get (liveVars d desc t) ''input.power'' = map_option Itoa (InputPower t) \<and>
    map_get (liveVars d desc t) ''output.power'' = map_option Itoa (OutputPower t) \<and>
    (\<forall>k. k \<notin> {''ups.status'', ''battery.charge'', ''battery.runtime'', ''input.power'', ''output.power''} \<longrightarrow>
      map_get (liveVars d desc t) k = map_get (staleVars d (Model desc) (Serial desc)) k) \<and>
    map_get (staleVars d m s) ''ups.status'' = Some ''WAIT'' \<and>
    (liveVars d desc t = liveVars d desc t' \<longrightarrow> Charge t = Charge t' \<and> RuntimeSeconds t = RuntimeSeconds t' \<and>
      InputPower t = InputPower t' \<and> OutputPower t = OutputPower t' \<and>
      (InputPresent t = Some True \<longleftrightarrow> InputPresent t' = Some True))"
proof -
  have low: "lowBattery d t \<longleftrightarrow> low" using assms by (auto simp: lowBattery_def split: option.split)
  have "map_get (liveVars d desc t) ''ups.status'' =
      Some ((if InputPresent t = Some True then ''OL'' else ''OB'') @ (if low then '' LB'' else []))"
    by (simp add: liveVars_get telemetry_keys_def live_status_def Let_def low)
  moreover have "InputPresent t = Some True \<longleftrightarrow> InputPresent t' = Some True" if "live_status d t = live_status d t'"
    using that by (auto simp: live_status_def Let_def split: if_splits)
  moreover have "FormatInt = Itoa" by (simp add: fun_eq_iff FormatInt_def)
  ultimately show ?thesis
    by (simp add: liveVars_get telemetry_keys_def telemetry_value_def staleVars_def identityVars_status liveVars_inject)
qed

theorem live_vars_faithful_witness:
  "\<forall>desc. map_get (liveVars (sample_device\<lparr>LowBatteryPercent := 20\<rparr>) desc (no_telemetry\<lparr>Charge := Some 20\<rparr>)) ''ups.status'' =
     Some ''OB LB''"
proof
  fix desc
  have "True \<longleftrightarrow> (\<exists>c. Charge (no_telemetry\<lparr>Charge := Some 20\<rparr>) = Some c \<and> c \<le> LowBatteryPercent (sample_device\<lparr>LowBatteryPercent := 20\<rparr>)) \<or>
      (\<exists>r. RuntimeSeconds (no_telemetry\<lparr>Charge := Some 20\<rparr>) = Some r \<and>
        r \<le> LowRuntimeSeconds (sample_device\<lparr>LowBatteryPercent := 20\<rparr>))"
    by simp
  from live_vars_faithful [OF this, of desc "[]" "[]" no_telemetry] show
    "map_get (liveVars (sample_device\<lparr>LowBatteryPercent := 20\<rparr>) desc (no_telemetry\<lparr>Charge := Some 20\<rparr>)) ''ups.status'' =
     Some ''OB LB''"
    by (simp add: no_telemetry_def)
qed

end
