(* ===== verification/Session_Auth.thy ===== *)
theory Session_Auth
  imports Session_Key Assembler Device_Types Time_Sync Gostr Decode_V3
begin

text \<open>
  The handshake of a session (\<open>bootstrapSession\<close>, \<open>finishAuthentication\<close>,
  \<open>waitForSimplePayload\<close> and their helpers, \<open>internal/ecoflow/provider.go\<close>).  The blocking
  selects consume a list of events, the choices in the order they were made; a stage that has
  used up its events is still waiting.  The Bluetooth link and the clock are operations on a
  world state.
\<close>

section \<open>The world of a session\<close>

text \<open>A select of the session waits for the context, the channel of notifications and one
  timer: the time-out of a handshake stage or the poll ticker.\<close>

datatype event = CtxDone | Chunk bytes | Timer

record 'w env =
  conn_Write :: "bytes \<Rightarrow> bool \<Rightarrow> 'w \<Rightarrow> go_error option \<times> 'w"
  Now :: "'w \<Rightarrow> clock \<times> 'w"
  FindByMAC :: "string \<Rightarrow> string \<Rightarrow> int \<Rightarrow> 'w \<Rightarrow> (go_error + Discovery) \<times> 'w"
  Connect :: "string \<Rightarrow> Discovery \<Rightarrow> int \<Rightarrow> 'w \<Rightarrow> go_error option \<times> 'w"
  StartNotifications :: "'w \<Rightarrow> go_error option \<times> 'w"
  conn_Close :: "'w \<Rightarrow> 'w"
  ctx_Err :: "'w \<Rightarrow> bool"
  curve :: curve_lib
  keydata :: "go_error + bytes"
  proto :: proto_lib
  platform :: target

text \<open>\<open>SysUTCSync{SysUtcTime: &utcTime}\<close>.\<close>

definition marshal_utc :: "'w env \<Rightarrow> 32 word \<Rightarrow> go_error + bytes" where
  "marshal_utc env t = Marshal (proto env) utc_sync_fields [(''sys_utc_time'', PUint t)]"

datatype 'a awaited = Waiting | Failed go_error | Got 'a

type_synonym ('a, 'w) stage = "('a awaited \<times> event list \<times> 'w) option"

text \<open>Sequencing: a stage that waits or fails ends the function.\<close>

definition and_then :: "('a, 'w) stage \<Rightarrow> ('a \<Rightarrow> event list \<Rightarrow> 'w \<Rightarrow> ('b, 'w) stage) \<Rightarrow> ('b, 'w) stage" where
  "and_then m f =
     (case m of
        None \<Rightarrow> None
      | Some (Waiting, es, w) \<Rightarrow> Some (Waiting, es, w)
      | Some (Failed e, es, w) \<Rightarrow> Some (Failed e, es, w)
      | Some (Got a, es, w) \<Rightarrow> f a es w)"

fun attempt :: "go_error + 'a \<Rightarrow> event list \<Rightarrow> 'w \<Rightarrow> ('a, 'w) stage" where
  "attempt (Inl e) es w = Some (Failed e, es, w)"
| "attempt (Inr a) es w = Some (Got a, es, w)"

section \<open>Authentication messages\<close>

definition authStatusPacket :: "DeviceDescriptor \<Rightarrow> Packet" where
  "authStatusPacket desc =
     zero_packet\<lparr>Src := 0x21, Dst := AuthHeaderDst desc, CmdSet := 0x35, CmdID := 0x89,
       DSrc := 0x01, DDst := 0x01, Version := PacketVersion desc\<rparr>"

definition authPacket :: "DeviceDescriptor \<Rightarrow> string \<Rightarrow> Packet" where
  "authPacket desc userID =
     (let sum = md5 (bytes_of_string (userID @ Serial desc));
          payload = ToUpper (EncodeToString sum)
      in zero_packet\<lparr>Src := 0x21, Dst := AuthHeaderDst desc, CmdSet := 0x35, CmdID := 0x86,
           Payload := bytes_of_string payload, DSrc := 0x01, DDst := 0x01,
           Version := PacketVersion desc\<rparr>)"

definition isAuthReply :: "Packet \<Rightarrow> bool" where
  "isAuthReply packet \<longleftrightarrow> Src packet = 0x35 \<and> CmdSet packet = 0x35 \<and> CmdID packet = 0x86"

text \<open>The message of the error is a function of the code.\<close>

definition authErrorFromPayload :: "bytes \<Rightarrow> go_error option" where
  "authErrorFromPayload payload =
     (if payload = [] \<or> hd payload = 0x00 then None
      else Some (SessionError (AuthenticationFailed (hd payload))))"

definition writePacket ::
  "'w env \<Rightarrow> FrameAssembler \<Rightarrow> Packet \<Rightarrow> 'w \<Rightarrow> (go_error option \<times> 'w) option" where
  "writePacket env a packet w =
     (case Encode a packet of
        None \<Rightarrow> None
      | Some (Inl e) \<Rightarrow> Some (Some e, w)
      | Some (Inr data) \<Rightarrow> Some (conn_Write env data (WriteWithResponse a) w))"

section \<open>Waiting for a handshake message\<close>

text \<open>
  Draining the buffer with \<open>Parse(nil)\<close>: messages with another command are skipped.
\<close>

lemma parse_loop_shorter: "parse_loop d = Inr (p, r) \<Longrightarrow> length r < length d"
proof (induction d rule: length_induct)
  case (1 d)
  then show ?case
    by (auto simp: parse_loop_step [of d] split: if_splits outcome.splits
        dest: outer_body_shorter less_trans)
qed

lemma simple_Parse_shorter:
  "simple_Parse a [] = (Some p, a') \<Longrightarrow> length (simple_buffer a') < length (simple_buffer a)"
  by (cases a) (auto simp: simple_Parse_def split: sum.splits if_splits dest: parse_loop_shorter)

function drain :: "SimplePacketAssembler \<Rightarrow> byte \<Rightarrow> bytes option \<times> SimplePacketAssembler" where
  "drain a command =
     (case simple_Parse a [] of
        (None, a') \<Rightarrow> (None, a')
      | (Some payload, a') \<Rightarrow>
          if payload \<noteq> [] \<and> hd payload = command then (Some payload, a') else drain a' command)"
  by pat_completeness auto
termination
  by (relation "measure (\<lambda>(a, c). length (simple_buffer a))") (auto dest: simple_Parse_shorter [OF sym])

declare drain.simps [simp del]

fun waitForSimplePayload ::
  "byte \<Rightarrow> SimplePacketAssembler \<Rightarrow> event list \<Rightarrow> 'w \<Rightarrow> (bytes \<times> SimplePacketAssembler, 'w) stage" where
  "waitForSimplePayload command a es w =
     (case drain a command of
        (Some payload, a') \<Rightarrow> Some (Got (payload, a'), es, w)
      | (None, a') \<Rightarrow>
          (case es of
             [] \<Rightarrow> Some (Waiting, [], w)
           | CtxDone # es' \<Rightarrow> Some (Failed Canceled, es', w)
           | Timer # es' \<Rightarrow> Some (Failed (SessionError HandshakeTimeout), es', w)
           | Chunk chunk # es' \<Rightarrow>
               (case simple_Parse a' chunk of
                  (Some payload, a'') \<Rightarrow>
                    if payload \<noteq> [] \<and> hd payload = command then Some (Got (payload, a''), es', w)
                    else waitForSimplePayload command a'' es' w
                | (None, a'') \<Rightarrow> waitForSimplePayload command a'' es' w)))"

section \<open>Authentication\<close>

text \<open>The packets of one notification: the error of an authentication reply, or the packets
  that are not replies and whether there was a reply.\<close>

fun auth_payloads :: "bool \<Rightarrow> bytes list \<Rightarrow> (go_error + (Packet list \<times> bool)) option" where
  "auth_payloads xorPayload [] = Some (Inr ([], False))"
| "auth_payloads xorPayload (payload # payloads) =
     (case ParsePacket payload xorPayload of
        None \<Rightarrow> None
      | Some (Inl e) \<Rightarrow> auth_payloads xorPayload payloads
      | Some (Inr packet) \<Rightarrow>
          if isAuthReply packet then
            (case authErrorFromPayload (Payload packet) of
               Some e \<Rightarrow> Some (Inl e)
             | None \<Rightarrow> map_option (map_sum id (\<lambda>(ps, _). (ps, True))) (auth_payloads xorPayload payloads))
          else map_option (map_sum id (\<lambda>(ps, ok). (packet # ps, ok))) (auth_payloads xorPayload payloads))"

fun await_auth ::
  "DeviceDescriptor \<Rightarrow> FrameAssembler \<Rightarrow> event list \<Rightarrow> 'w \<Rightarrow> (FrameAssembler \<times> Packet list, 'w) stage" where
  "await_auth desc a [] w = Some (Waiting, [], w)"
| "await_auth desc a (CtxDone # es) w = Some (Failed Canceled, es, w)"
| "await_auth desc a (Timer # es) w = Some (Failed (SessionError AuthenticationTimeout), es, w)"
| "await_auth desc a (Chunk chunk # es) w =
     (case Reassemble a chunk of
        None \<Rightarrow> None
      | Some (Inl e, a') \<Rightarrow> Some (Failed e, es, w)
      | Some (Inr payloads, a') \<Rightarrow>
          (case auth_payloads (XORPayload desc) payloads of
             None \<Rightarrow> None
           | Some (Inl e) \<Rightarrow> Some (Failed e, es, w)
           | Some (Inr (pend, authenticated)) \<Rightarrow>
               if authenticated \<or> pend \<noteq> [] then Some (Got (a', pend), es, w)
               else await_auth desc a' es w))"

text \<open>A write, as a stage that gives nothing.\<close>

definition written :: "(go_error option \<times> 'w) option \<Rightarrow> event list \<Rightarrow> (unit, 'w) stage" where
  "written r es =
     (case r of
        None \<Rightarrow> None
      | Some (Some e, w) \<Rightarrow> Some (Failed e, es, w)
      | Some (None, w) \<Rightarrow> Some (Got (), es, w))"

definition finishAuthentication ::
  "'w env \<Rightarrow> DeviceDescriptor \<Rightarrow> string \<Rightarrow> FrameAssembler \<Rightarrow> event list \<Rightarrow> 'w \<Rightarrow>
   (FrameAssembler \<times> Packet list, 'w) stage" where
  "finishAuthentication env desc userID a es w =
     and_then (written (writePacket env a (authStatusPacket desc) w) es) (\<lambda>_ es w.
     and_then (written (writePacket env a (authPacket desc userID) w) es) (\<lambda>_ es w.
     await_auth desc a es w))"

section \<open>The handshake\<close>

definition device_key :: "bytes \<Rightarrow> (go_error + bytes) option" where
  "device_key payload =
     (if length payload < 3 \<or> hd payload \<noteq> 0x01 then Some (Inl (SessionError InvalidPublicKeyResponse))
      else
        let keySize = getECDHTypeSize (payload ! 2) in
        if keySize \<noteq> 40 then Some (Inl (SessionError (UnsupportedCurve keySize)))
        else if length payload < 3 + keySize
        then Some (Inl (SessionError (PublicKeyResponseTooShort (length payload) (3 + keySize))))
        else map_option Inr (go_slice payload 3 (3 + keySize)))"

text \<open>The final key from the key info message, with the key and IV of the handshake.\<close>

definition final_key :: "(go_error + bytes) \<Rightarrow> bytes \<Rightarrow> bytes \<Rightarrow> bytes \<Rightarrow> (go_error + bytes) option" where
  "final_key table initialKey iv keyInfo =
     (if length keyInfo < 17 \<or> hd keyInfo \<noteq> 0x02 then Some (Inl (SessionError InvalidKeyInfoResponse))
      else
        case Decrypt (Type7Encryption initialKey iv) (drop 1 keyInfo) of
          None \<Rightarrow> None
        | Some (Inl e) \<Rightarrow> Some (Inl e)
        | Some (Inr decrypted) \<Rightarrow>
            if length decrypted < 18 then Some (Inl (SessionError KeyInfoTooShort))
            else do {
              seed \<leftarrow> go_slice decrypted 16 18;
              srand \<leftarrow> go_slice decrypted 0 16;
              deriveFinalSessionKey table seed srand })"

definition attempt_panic :: "(go_error + 'a) option \<Rightarrow> event list \<Rightarrow> 'w \<Rightarrow> ('a, 'w) stage" where
  "attempt_panic r es w = (case r of None \<Rightarrow> None | Some v \<Rightarrow> attempt v es w)"

definition type7_handshake ::
  "'w env \<Rightarrow> event list \<Rightarrow> 'w \<Rightarrow> (bytes \<times> bytes, 'w) stage" where
  "type7_handshake env es w =
     and_then (attempt (generateSECP160KeyPair (curve env)) es w) (\<lambda>(privateKey, publicKey) es w.
     and_then (attempt (simple_Encode ([0x01, 0x00] @ publicKey)) es w) (\<lambda>publicKeyRequest es w.
     and_then (written (Some (conn_Write env publicKeyRequest True w)) es) (\<lambda>_ es w.
     and_then (waitForSimplePayload 0x01 \<lparr>simple_buffer = []\<rparr> es w) (\<lambda>(payload, simple) es w.
     and_then (attempt_panic (device_key payload) es w) (\<lambda>deviceKey es w.
     and_then (attempt (deriveSharedSecret (curve env) privateKey deviceKey) es w) (\<lambda>sharedSecret es w.
     and_then (attempt_panic (map_option Inr (type7SessionSeed sharedSecret)) es w) (\<lambda>(initialKey, iv) es w.
     and_then (attempt (simple_Encode [0x02]) es w) (\<lambda>keyInfoRequest es w.
     and_then (written (Some (conn_Write env keyInfoRequest True w)) es) (\<lambda>_ es w.
     and_then (waitForSimplePayload 0x02 simple es w) (\<lambda>(keyInfo, simple) es w.
     and_then (attempt_panic (final_key (keydata env) initialKey iv keyInfo) es w) (\<lambda>finalKey es w.
     Some (Got (finalKey, iv), es, w))))))))))))"

definition bootstrapSession ::
  "'w env \<Rightarrow> DeviceDescriptor \<Rightarrow> string \<Rightarrow> event list \<Rightarrow> 'w \<Rightarrow> (FrameAssembler \<times> Packet list, 'w) stage" where
  "bootstrapSession env desc userID es w =
     (if EncryptType desc = 0 then
        finishAuthentication env desc userID (PassAssembler \<lparr>pass_buffer = []\<rparr>) es w
      else if EncryptType desc = 1 then
        (case type1Session (Serial desc) of
           (sessionKey, iv) \<Rightarrow>
             finishAuthentication env desc userID
               (RawAssembler \<lparr>raw_buffer = [], raw_encryption = Type1Encryption sessionKey iv\<rparr>) es w)
      else if EncryptType desc = 7 then
        and_then (type7_handshake env es w) (\<lambda>(finalKey, iv) es w.
          finishAuthentication env desc userID
            (EncAssembler \<lparr>enc_buffer = [], enc_encryption = Some (Type7Encryption finalKey iv)\<rparr>) es w)
      else Some (Failed (SessionError (UnsupportedEncryptType (EncryptType desc))), es, w))"

section \<open>Sequencing\<close>

lemma and_then_cases:
  "and_then m f = r \<Longrightarrow>
   (m = None \<and> r = None) \<or>
   (\<exists>es w. m = Some (Waiting, es, w) \<and> r = Some (Waiting, es, w)) \<or>
   (\<exists>e es w. m = Some (Failed e, es, w) \<and> r = Some (Failed e, es, w)) \<or>
   (\<exists>a es w. m = Some (Got a, es, w) \<and> f a es w = r)"
  by (auto simp: and_then_def split: option.splits prod.splits awaited.splits)

lemma and_then_Got:
  "and_then m f = Some (Got b, es', w') \<longleftrightarrow>
     (\<exists>a es w. m = Some (Got a, es, w) \<and> f a es w = Some (Got b, es', w'))"
  by (auto simp: and_then_def split: option.splits prod.splits awaited.splits)

lemma and_then_total:
  assumes "m \<noteq> None" "\<And>a es w. m = Some (Got a, es, w) \<Longrightarrow> f a es w \<noteq> None"
  shows "and_then m f \<noteq> None"
  using assms by (auto simp: and_then_def split: option.splits prod.splits awaited.splits)

lemma attempt_Got: "attempt r es w = Some (Got a, es', w') \<longleftrightarrow> r = Inr a \<and> es' = es \<and> w' = w"
  by (cases r) auto

lemma attempt_total [simp]: "attempt r es w \<noteq> None"
  by (cases r) auto

lemma attempt_panic_Got:
  "attempt_panic r es w = Some (Got a, es', w') \<longleftrightarrow> r = Some (Inr a) \<and> es' = es \<and> w' = w"
  by (auto simp: attempt_panic_def attempt_Got split: option.splits)

lemma attempt_panic_total [simp]: "r \<noteq> None \<Longrightarrow> attempt_panic r es w \<noteq> None"
  by (cases r; cases "the r") (simp_all add: attempt_panic_def)

lemma written_Got: "written r es = Some (Got a, es', w') \<longleftrightarrow> r = Some (None, w') \<and> es' = es"
  by (auto simp: written_def split: option.splits prod.splits)

lemma written_total [simp]: "r \<noteq> None \<Longrightarrow> written r es \<noteq> None"
  by (auto simp: written_def split: option.splits prod.splits)

section \<open>What a stage may do\<close>

text \<open>
  A stage started with the events \<open>es\<close> does not panic, consumes a prefix of them, gives only
  values that satisfy \<open>P\<close>, and goes on or keeps waiting only over notifications; it fails at
  the first other event.
\<close>

fun is_chunk :: "event \<Rightarrow> bool" where
  "is_chunk (Chunk c) = True"
| "is_chunk _ = False"

definition runs :: "event list \<Rightarrow> ('a, 'w) stage \<Rightarrow> ('a \<Rightarrow> bool) \<Rightarrow> bool" where
  "runs es m P \<longleftrightarrow> (\<exists>r pre es' w'. m = Some (r, es', w') \<and> es = pre @ es' \<and>
     (case r of
        Waiting \<Rightarrow> es' = [] \<and> list_all is_chunk pre
      | Failed e \<Rightarrow> list_all is_chunk (butlast pre)
      | Got a \<Rightarrow> list_all is_chunk pre \<and> P a))"

named_theorems run_rules \<open>introduction rules for stages\<close>

lemma runs_Failed [run_rules]: "runs es (Some (Failed e, es, w)) P"
  by (auto simp: runs_def intro: exI [of _ "[]"])

lemma runs_Got [run_rules]: "P a \<Longrightarrow> runs es (Some (Got a, es, w)) P"
  by (auto simp: runs_def intro: exI [of _ "[]"])

lemma runs_Waiting [run_rules]: "runs [] (Some (Waiting, [], w)) P"
  by (simp add: runs_def)

lemma runs_Cons: "runs es m P \<Longrightarrow> runs (Chunk c # es) m P"
proof -
  assume "runs es m P"
  then obtain r pre es' w' where "m = Some (r, es', w')" "es = pre @ es'"
    "case r of Waiting \<Rightarrow> es' = [] \<and> list_all is_chunk pre | Failed e \<Rightarrow> list_all is_chunk (butlast pre)
      | Got a \<Rightarrow> list_all is_chunk pre \<and> P a"
    unfolding runs_def by blast
  then show ?thesis
    unfolding runs_def
    by (intro exI [of _ r] exI [of _ "Chunk c # pre"] exI [of _ es'] exI [of _ w']) (auto split: awaited.splits)
qed

lemma runs_Cons_Failed: "runs (e # es) (Some (Failed x, es, w)) P"
  by (auto simp: runs_def intro: exI [of _ "[e]"])

lemma runs_Cons_Got: "P a \<Longrightarrow> runs (Chunk c # es) (Some (Got a, es, w)) P"
  by (intro runs_Cons runs_Got)

lemma runs_and_then:
  assumes "runs es m P" "\<And>a es w. P a \<Longrightarrow> runs es (f a es w) Q"
  shows "runs es (and_then m f) Q"
proof -
  from assms(1) obtain r pre es' w' where m: "m = Some (r, es', w')" "es = pre @ es'"
    and r: "case r of Waiting \<Rightarrow> es' = [] \<and> list_all is_chunk pre | Failed e \<Rightarrow> list_all is_chunk (butlast pre)
      | Got a \<Rightarrow> list_all is_chunk pre \<and> P a"
    unfolding runs_def by blast
  show ?thesis
  proof (cases r)
    case (Got a)
    with r have pre: "list_all is_chunk pre" and "P a" by simp_all
    from assms(2) [OF this(2)] obtain r2 pre2 es2 w2 where "f a es' w' = Some (r2, es2, w2)" "es' = pre2 @ es2"
      "case r2 of Waiting \<Rightarrow> es2 = [] \<and> list_all is_chunk pre2 | Failed e \<Rightarrow> list_all is_chunk (butlast pre2)
        | Got a \<Rightarrow> list_all is_chunk pre2 \<and> Q a"
      unfolding runs_def by blast
    with m Got pre show ?thesis
      unfolding runs_def and_then_def
      by (intro exI [of _ r2] exI [of _ "pre @ pre2"] exI [of _ es2] exI [of _ w2])
        (auto simp: butlast_append list_all_iff dest: in_set_butlastD split: awaited.splits)
  qed (use m r in \<open>auto simp: runs_def and_then_def\<close>)
qed

lemma runs_attempt [run_rules]: "(\<And>a. r = Inr a \<Longrightarrow> P a) \<Longrightarrow> runs es (attempt r es w) P"
  by (cases r) (auto intro: run_rules)

lemma runs_attempt_panic [run_rules]:
  "r \<noteq> None \<Longrightarrow> (\<And>a. r = Some (Inr a) \<Longrightarrow> P a) \<Longrightarrow> runs es (attempt_panic r es w) P"
  by (auto simp: attempt_panic_def intro!: runs_attempt)

lemma runs_written [run_rules]: "r \<noteq> None \<Longrightarrow> runs es (written r es) (\<lambda>_. True)"
  by (auto simp: written_def intro: run_rules split: option.split)

section \<open>Nothing a peer sends makes the handshake panic\<close>

lemma Encode_total:
  assumes "wf_assembler a"
  shows "Encode a p \<noteq> None"
proof (cases a)
  case (EncAssembler x)
  then have "\<exists>r. Encrypt c m = Some r" if "enc_encryption x = Some c" for c m
    using assms that by (auto intro: type7.encrypt_total)
  then show ?thesis
    using EncAssembler
    by (cases "enc_encryption x"; cases "MarshalBinary p")
      (simp_all add: enc_Encode_def, metis (no_types, lifting) bind.bind_lunit option.distinct(1))
next
  case (RawAssembler x)
  then have "\<exists>r. Encrypt (raw_encryption x) m = Some r" for m
    using assms by (auto intro: type1.encrypt_total)
  moreover have "5 \<le> length raw" if "MarshalBinary p = Inr raw" for raw
    using that by (auto simp: MarshalBinary_def packet_content_def packet_header_def Let_def put_le16_def
        split: if_splits)
  ultimately show ?thesis
    using RawAssembler
    by (cases "MarshalBinary p")
      (simp_all add: raw_Encode_def go_slice_in, metis bind.bind_lunit option.distinct(1))
qed (simp add: pass_Encode_def)

lemma writePacket_total: "wf_assembler a \<Longrightarrow> writePacket env a p w \<noteq> None"
  using Encode_total [of a p] by (auto simp: writePacket_def split: sum.split)

lemma Reassemble_wf:
  assumes "wf_assembler a"
  obtains r a' where "Reassemble a d = Some (r, a')" "wf_assembler a'"
proof (cases "assembler_loop a (pending a @ d)")
  case (Scanned ps b)
  then show ?thesis using assms that by (auto simp: Reassemble_loop reassembled_def)
qed (use assms assembler_loop_total [OF assms] that in \<open>auto simp: Reassemble_loop reassembled_def\<close>)

lemma auth_payloads_total: "\<exists>r. auth_payloads x ps = Some r"
proof (induction ps)
  case (Cons p ps)
  obtain r where "ParsePacket p x = Some r" using ParsePacket_total by blast
  with Cons show ?case by (cases r) (auto split: option.split)
qed simp

lemma runs_await_auth: "wf_assembler a \<Longrightarrow> runs es (await_auth desc a es w) (\<lambda>(a', pend). wf_assembler a')"
proof (induction es arbitrary: a)
  case (Cons e es)
  show ?case
  proof (cases e)
    case (Chunk c)
    from Reassemble_wf [OF Cons.prems] obtain r a' where R: "Reassemble a c = Some (r, a')" "wf_assembler a'" .
    show ?thesis
    proof (cases r)
      case (Inr payloads)
      obtain v where "auth_payloads (XORPayload desc) payloads = Some v" using auth_payloads_total by blast
      then show ?thesis using Chunk R Inr Cons.IH [OF R(2)]
        by (cases v) (auto intro: runs_Cons_Failed runs_Cons_Got runs_Cons)
    qed (use Chunk R in \<open>simp add: runs_Cons_Failed\<close>)
  qed (simp_all add: runs_Cons_Failed)
qed (simp add: runs_Waiting)

lemma runs_finishAuthentication:
  assumes "wf_assembler a"
  shows "runs es (finishAuthentication env desc userID a es w) (\<lambda>(a', pend). wf_assembler a')"
  unfolding finishAuthentication_def
  by (intro runs_and_then [where P = "\<lambda>_. True"] runs_written runs_await_auth writePacket_total assms)

lemma device_key_total: "device_key payload \<noteq> None"
  by (auto simp: device_key_def Let_def go_slice_def)

lemma final_key_total:
  assumes "wf_type7 (Type7Encryption key iv)"
  shows "final_key table key iv m \<noteq> None"
proof -
  obtain r where "Decrypt (Type7Encryption key iv) (drop 1 m) = Some r"
    using type7.decrypt_total [OF assms] by blast
  then show ?thesis
    by (cases r) (auto simp: final_key_def go_slice_def deriveFinalSessionKey_def Let_def split: sum.split)
qed

lemma final_key_length: "final_key table key iv m = Some (Inr k) \<Longrightarrow> length k = 16"
  by (cases table) (auto simp: final_key_def deriveFinalSessionKey_eq bind_eq_Some_conv
      deriveFinalSessionKey_def [of "Inl _"] split: if_splits option.splits sum.splits)

lemma deriveSharedSecret_length: "deriveSharedSecret c k p = Inr s \<Longrightarrow> length s = 20"
  by (auto simp: deriveSharedSecret_def Let_def split: if_splits)

lemma type7SessionSeed_wf:
  "length s = 20 \<Longrightarrow> \<exists>key iv. type7SessionSeed s = Some (key, iv) \<and> wf_type7 (Type7Encryption key iv)"
  by (simp add: type7SessionSeed_def go_slice_in wf_type7_def wf_strategy_def valid_aes_key_def)

lemma runs_waitForSimplePayload: "runs es (waitForSimplePayload command a es w) (\<lambda>_. True)"
proof (induction es arbitrary: a)
  case Nil
  obtain r a' where "drain a command = (r, a')" by force
  then show ?case by (cases r) (auto intro: run_rules)
next
  case (Cons e es)
  obtain r a' where d: "drain a command = (r, a')" by force
  show ?case
  proof (cases r)
    case None
    show ?thesis
    proof (cases e)
      case (Chunk c)
      obtain q a'' where "simple_Parse a' c = (q, a'')" by force
      then show ?thesis
        using None Chunk d Cons.IH [of a'']
        by (cases q) (auto intro: runs_Cons_Got runs_Cons simp del: waitForSimplePayload.simps
            simp: waitForSimplePayload.simps [of command a "Chunk c # es"])
    qed (use None d in \<open>simp_all add: runs_Cons_Failed\<close>)
  qed (use d in \<open>simp add: runs_Got\<close>)
qed

lemma runs_type7_handshake:
  "runs es (type7_handshake env es w) (\<lambda>(k, iv). wf_type7 (Type7Encryption k iv))"
  unfolding type7_handshake_def
  apply (rule runs_and_then [OF runs_attempt [where P = "\<lambda>_. True"]], simp, clarify)
  apply (rule runs_and_then [OF runs_attempt [where P = "\<lambda>_. True"]], simp)
  apply (rule runs_and_then [OF runs_written], simp)
  apply (rule runs_and_then [OF runs_waitForSimplePayload], clarify)
  apply (rule runs_and_then [OF runs_attempt_panic [where P = "\<lambda>_. True"]], rule device_key_total, simp)
  apply (rule runs_and_then [OF runs_attempt [where P = "\<lambda>s. length s = 20"]], erule deriveSharedSecret_length)
  apply (rule runs_and_then [OF runs_attempt_panic [where P = "\<lambda>(k, iv). wf_type7 (Type7Encryption k iv)"]])
    apply (drule type7SessionSeed_wf, fastforce)
   apply (drule type7SessionSeed_wf, fastforce)
  apply clarify
  apply (rule runs_and_then [OF runs_attempt [where P = "\<lambda>_. True"]], simp)
  apply (rule runs_and_then [OF runs_written], simp)
  apply (rule runs_and_then [OF runs_waitForSimplePayload], clarify)
  apply (rule runs_and_then [OF runs_attempt_panic [where P = "\<lambda>k. length k = 16"]])
    apply (erule final_key_total)
   apply (erule final_key_length)
  apply (rule runs_Got)
  apply (simp add: wf_type7_def wf_strategy_def valid_aes_key_def)
  done

lemma type1Session_wf:
  "type1Session s = (key, iv) \<Longrightarrow> wf_type1 (Type1Encryption key iv)"
  by (auto simp: type1Session_def wf_type1_def wf_strategy_def valid_aes_key_def)

lemma runs_bootstrapSession:
  "runs es (bootstrapSession env desc userID es w) (\<lambda>(a, pend). wf_assembler a)"
proof -
  obtain k1 iv1 where t1: "type1Session (Serial desc) = (k1, iv1)" by force
  have raw: "wf_assembler (RawAssembler \<lparr>raw_buffer = [], raw_encryption = Type1Encryption k1 iv1\<rparr>)"
    using type1Session_wf [OF t1] by simp
  have "runs es (and_then (type7_handshake env es w) (\<lambda>(finalKey, iv) es w.
      finishAuthentication env desc userID
        (EncAssembler \<lparr>enc_buffer = [], enc_encryption = Some (Type7Encryption finalKey iv)\<rparr>) es w))
      (\<lambda>(a, pend). wf_assembler a)"
    by (rule runs_and_then [OF runs_type7_handshake]) (auto intro: runs_finishAuthentication)
  then show ?thesis
    unfolding bootstrapSession_def using t1 raw
    by (auto intro!: runs_finishAuthentication runs_Failed)
qed

section \<open>The decision of an authentication\<close>

text \<open>The packets of a notification that parse, in order, and the first error a reply carries.\<close>

definition decoded_packets :: "bool \<Rightarrow> bytes list \<Rightarrow> Packet list" where
  "decoded_packets x ps = concat (map (\<lambda>p. case ParsePacket p x of Some (Inr q) \<Rightarrow> [q] | _ \<Rightarrow> []) ps)"

definition rejection :: "Packet list \<Rightarrow> go_error option" where
  "rejection qs =
     Option.bind (find (\<lambda>q. isAuthReply q \<and> authErrorFromPayload (Payload q) \<noteq> None) qs)
       (\<lambda>q. authErrorFromPayload (Payload q))"

lemma auth_payloads_decoded:
  "auth_payloads x ps = Some (let qs = decoded_packets x ps in
     case rejection qs of
       Some e \<Rightarrow> Inl e
     | None \<Rightarrow> Inr (filter (\<lambda>q. \<not> isAuthReply q) qs, list_ex isAuthReply qs))"
proof (induction ps)
  case (Cons p ps)
  obtain r where r: "ParsePacket p x = Some r" using ParsePacket_total by blast
  show ?case
  proof (cases r)
    case (Inl e)
    then show ?thesis using r Cons by (simp add: decoded_packets_def)
  next
    case (Inr q)
    then have "decoded_packets x (p # ps) = q # decoded_packets x ps"
      using r by (simp add: decoded_packets_def)
    then show ?thesis
      using r Inr Cons by (auto simp: rejection_def Let_def split: option.splits)
  qed
qed (simp add: decoded_packets_def rejection_def)

lemma await_auth_step:
  assumes "Reassemble a chunk = Some (Inr payloads, a')" "qs = decoded_packets (XORPayload desc) payloads"
  shows "await_auth desc a (Chunk chunk # es) w =
    (case rejection qs of
       Some e \<Rightarrow> Some (Failed e, es, w)
     | None \<Rightarrow>
         if qs = [] then await_auth desc a' es w
         else Some (Got (a', filter (\<lambda>q. \<not> isAuthReply q) qs), es, w))"
  using assms
  by (auto simp: auth_payloads_decoded Let_def list_ex_iff filter_empty_conv split: option.split)

text \<open>A reply that rejects the token: its code is not 0.\<close>

definition rejects :: "Packet \<Rightarrow> bool" where
  "rejects q \<longleftrightarrow> isAuthReply q \<and> Payload q \<noteq> [] \<and> hd (Payload q) \<noteq> 0"

lemma rejection_None: "rejection qs = None \<longleftrightarrow> (\<forall>q \<in> set qs. \<not> rejects q)"
  by (induction qs) (auto simp: rejection_def rejects_def authErrorFromPayload_def)

lemma decoded_packets_append: "decoded_packets x (ps @ qs) = decoded_packets x ps @ decoded_packets x qs"
  by (simp add: decoded_packets_def)

lemma await_auth_success:
  assumes "await_auth desc a es w = Some (Got (a', pend), es', w')"
  shows "\<exists>cs raws. es = map Chunk cs @ es' \<and> run_notifications Reassemble a cs = Some (Inr raws, a') \<and>
    (let qs = decoded_packets (XORPayload desc) raws
     in qs \<noteq> [] \<and> (\<forall>q \<in> set qs. \<not> rejects q) \<and> pend = filter (\<lambda>q. \<not> isAuthReply q) qs)"
  using assms
proof (induction es arbitrary: a)
  case (Cons e es)
  then obtain c where e: "e = Chunk c" by (cases e) auto
  with Cons.prems obtain ps a1 where r: "Reassemble a c = Some (Inr ps, a1)"
    by (auto split: option.splits prod.splits sum.splits)
  define qs where "qs = decoded_packets (XORPayload desc) ps"
  note step = Cons.prems [unfolded e await_auth_step [OF r qs_def]]
  show ?case
  proof (cases "qs = []")
    case True
    then have "await_auth desc a1 es w = Some (Got (a', pend), es', w')"
      using step by (simp add: rejection_def)
    from Cons.IH [OF this] obtain cs raws where cs: "es = map Chunk cs @ es'"
      "run_notifications Reassemble a1 cs = Some (Inr raws, a')"
      "decoded_packets (XORPayload desc) raws \<noteq> []"
      "\<forall>q \<in> set (decoded_packets (XORPayload desc) raws). \<not> rejects q"
      "pend = filter (\<lambda>q. \<not> isAuthReply q) (decoded_packets (XORPayload desc) raws)"
      unfolding Let_def by blast
    with r True show ?thesis
      unfolding Let_def by (intro exI [of _ "c # cs"] exI [of _ "ps @ raws"])
        (simp add: e decoded_packets_append qs_def [symmetric])
  next
    case False
    then have "rejection qs = None" "es' = es" "a' = a1" "pend = filter (\<lambda>q. \<not> isAuthReply q) qs"
      using step by (auto split: option.splits)
    with r False show ?thesis
      unfolding Let_def by (intro exI [of _ "[c]"] exI [of _ ps])
        (simp add: e qs_def [symmetric] rejection_None)
  qed
qed simp

section \<open>A handshake with an honest device\<close>

definition unparsed :: "bytes \<Rightarrow> bytes scan" where
  "unparsed d = enc_loop None d"

lemma parse_loop_None: "parse_loop d = Inl b \<longleftrightarrow> unparsed d = Scanned [] b"
  unfolding unparsed_def enc_loop_parse [of d]
  by (cases "parse_loop d"; cases "enc_loop None (snd (projr (parse_loop d)))") auto

lemma parse_loop_Some:
  "unparsed d = Scanned (p # ps) b \<Longrightarrow> \<exists>rest. parse_loop d = Inr (p, rest) \<and> unparsed rest = Scanned ps b"
  unfolding unparsed_def enc_loop_parse [of d]
  by (cases "parse_loop d"; cases "enc_loop None (snd (projr (parse_loop d)))") auto

lemma unparsed_append: "unparsed d = Scanned [] b \<Longrightarrow> unparsed (d @ y) = unparsed (b @ y)"
  using enc.loop_append [of None d y] by (cases "unparsed (b @ y)") (simp_all add: unparsed_def)

lemma simple_Parse_buffer:
  "simple_Parse a c = (case parse_loop (simple_buffer a @ c) of
      Inl b \<Rightarrow> (None, a\<lparr>simple_buffer := b\<rparr>) | Inr (p, b) \<Rightarrow> (Some p, a\<lparr>simple_buffer := b\<rparr>))"
  by (simp add: simple_Parse_def)

lemma parse_loop_append:
  assumes "parse_loop d = Inr (p, r)" "unparsed (d @ y) = Scanned [m] b"
  shows "p = m" "unparsed (r @ y) = Scanned [] b"
proof -
  have "unparsed d = prepend [p] (unparsed r)"
    using assms(1) by (simp add: unparsed_def enc_loop_parse [of d])
  then have "unparsed (d @ y) = prepend [p] (unparsed (r @ y))"
    using enc.loop_append [of None d y] enc.loop_append [of None r y] by (simp add: unparsed_def)
  with assms(2) have "prepend [p] (unparsed (r @ y)) = Scanned [m] b" by simp
  then show "p = m" "unparsed (r @ y) = Scanned [] b"
    by (cases "unparsed (r @ y)"; simp)+
qed

text \<open>A message with the awaited command, in any number of notifications: it is returned, and
  what is left holds no message.\<close>

lemma wait_message:
  assumes "unparsed (simple_buffer a @ concat cs) = Scanned [m] b" "m \<noteq> []" "hd m = command"
  shows "\<exists>r ds. waitForSimplePayload command a (map Chunk cs @ es) w =
      Some (Got (m, \<lparr>simple_buffer = r\<rparr>), map Chunk ds @ es, w) \<and> unparsed (r @ concat ds) = Scanned [] b"
  using assms(1)
proof (induction cs arbitrary: a)
  case Nil
  then obtain r where "parse_loop (simple_buffer a) = Inr (m, r)" "unparsed r = Scanned [] b"
    using parse_loop_Some by force
  then show ?case
    using assms(2,3) by (intro exI [of _ r] exI [of _ "[]"])
      (auto simp: waitForSimplePayload.simps [of command a] drain.simps [of a] simple_Parse_buffer)
next
  case (Cons c cs)
  show ?case
  proof (cases "parse_loop (simple_buffer a)")
    case (Inl b0)
    then have b0: "unparsed (simple_buffer a) = Scanned [] b0" by (simp add: parse_loop_None)
    have d: "drain a command = (None, \<lparr>simple_buffer = b0\<rparr>)"
      using Inl by (simp add: drain.simps [of a] simple_Parse_buffer)
    have rest: "unparsed ((b0 @ c) @ concat cs) = Scanned [m] b"
      using Cons.prems unparsed_append [OF b0] by simp
    show ?thesis
    proof (cases "parse_loop (b0 @ c)")
      case Inl2: (Inl b1)
      then have "unparsed (b1 @ concat cs) = Scanned [m] b"
        using rest unparsed_append [of "b0 @ c" b1 "concat cs"] by (simp add: parse_loop_None)
      with Cons.IH [of "\<lparr>simple_buffer = b1\<rparr>"] Inl2 d show ?thesis
        by (simp add: waitForSimplePayload.simps [of command a] simple_Parse_buffer
            del: waitForSimplePayload.simps)
    next
      case (Inr pr)
      then obtain p r where pr: "parse_loop (b0 @ c) = Inr (p, r)" by (cases pr) auto
      from parse_loop_append [OF this rest] show ?thesis
        using pr d assms(2,3) by (intro exI [of _ r] exI [of _ cs])
          (simp add: waitForSimplePayload.simps [of command a] simple_Parse_buffer)
    qed
  next
    case (Inr pr)
    then obtain p r where pr: "parse_loop (simple_buffer a) = Inr (p, r)" by (cases pr) auto
    from parse_loop_append [OF this Cons.prems] show ?thesis
      using pr assms(2,3) by (intro exI [of _ r] exI [of _ "c # cs"])
        (simp add: waitForSimplePayload.simps [of command a] drain.simps [of a] simple_Parse_buffer)
  qed
qed

lemma unparsed_message: "simple_sendable m \<Longrightarrow> unparsed (simple_wire m) = Scanned [m] []"
  using simple.loop_frames [of "[m]" "[]"] by (simp add: unparsed_def)

text \<open>The second message, behind what the first one left.\<close>

lemma unparsed_behind:
  "unparsed x = Scanned [] [] \<Longrightarrow> simple_sendable m \<Longrightarrow> unparsed (x @ simple_wire m) = Scanned [m] []"
  using unparsed_append [of x "[]" "simple_wire m"] unparsed_message by simp

text \<open>What the device sends: its public key and, encrypted with the seed key, the key info.\<close>

definition key_message :: "byte \<Rightarrow> byte \<Rightarrow> bytes \<Rightarrow> bytes" where
  "key_message x curveNum devPub = [0x01, x, curveNum] @ devPub"

definition writes_succeed :: "'w env \<Rightarrow> bool" where
  "writes_succeed env \<longleftrightarrow> (\<forall>d r w. fst (conn_Write env d r w) = None)"

lemma deriveSharedSecret_draws [simp]: "deriveSharedSecret (draws c base k) l p = deriveSharedSecret c l p"
  by (simp add: deriveSharedSecret_def draws_def Let_def)

lemma simple_Encode_short: "length m \<le> 9998 \<Longrightarrow> \<exists>w. simple_Encode m = Inr w"
  by (simp add: simple_Encode_def enc_MarshalBinary_def packet_consts Let_def)

lemma handshake_agrees:
  assumes curve: "curve_laws c base n" "curve env = draws c base a" and ok: "writes_succeed env"
    and keys: "curve_key n a" "curve_key n b"
    and dev: "generateSECP160KeyPair (draws c base b) = Inr (b, devPub)"
    and app: "generateSECP160KeyPair (draws c base a) = Inr (a, appPub)"
    and secret: "deriveSharedSecret c b appPub = Inr secret" "type7SessionSeed secret = Some (key, iv)"
    and num: "getECDHTypeSize curveNum = 40"
    and info: "length srand = 16" "length seed = 2"
      "Encrypt (Type7Encryption key iv) (srand @ seed) = Some (Inr ct)"
      "deriveFinalSessionKey (keydata env) seed srand = Some (Inr finalKey)"
    and cs: "concat cs = simple_wire (key_message x curveNum devPub)"
    and ds: "concat ds = simple_wire (0x02 # ct)"
  shows "\<exists>rest w'. type7_handshake env (map Chunk cs @ map Chunk ds @ es) w =
    Some (Got (finalKey, iv), map Chunk rest @ es, w')"
proof -
  let ?m1 = "key_message x curveNum devPub"
  obtain pubA pubB s k v where ex: "generateSECP160KeyPair (draws c base a) = Inr (a, pubA)"
    "generateSECP160KeyPair (draws c base b) = Inr (b, pubB)" "deriveSharedSecret c a pubB = Inr s"
    "deriveSharedSecret c b pubA = Inr s" "type7SessionSeed s = Some (k, v)" "wf_type7 (Type7Encryption k v)"
    using shared_secret [OF curve(1) keys] by blast
  then have s: "deriveSharedSecret c a devPub = Inr secret" and wf: "wf_type7 (Type7Encryption key iv)"
    using dev app secret by simp_all
  have len: "length devPub = 40" "length appPub = 40"
    using deriveSharedSecret_generated [OF curve(1) keys(2), of a] deriveSharedSecret_generated [OF curve(1) keys(1), of b]
      dev app by auto
  have ct: "length ct = 32" "Decrypt (Type7Encryption key iv) ct = Some (Inr (srand @ seed))"
    using type7.encrypt_size [OF wf info(3)] type7.decrypt_encrypt [OF wf info(3)] info(1,2) by simp_all
  have wr: "\<exists>w'. conn_Write env d r w = (None, w')" for d r w
    using ok unfolding writes_succeed_def by (metis prod.collapse)
  obtain q1 where q1: "simple_Encode ([0x01, 0x00] @ appPub) = Inr q1"
    using simple_Encode_short [of "[0x01, 0x00] @ appPub"] len by auto
  obtain w1 where w1: "conn_Write env q1 True w = (None, w1)" using wr by blast
  obtain q2 where q2: "simple_Encode [0x02] = Inr q2" using simple_Encode_short [of "[0x02]"] by auto
  obtain w2 where w2: "conn_Write env q2 True w1 = (None, w2)" using wr by blast
  have "unparsed (simple_buffer \<lparr>simple_buffer = []\<rparr> @ concat cs) = Scanned [?m1] []"
    using unparsed_message [of ?m1] len cs by (simp add: simple_sendable_def key_message_def)
  from wait_message [OF this, of 1 "map Chunk ds @ es" w1]
  obtain r1 ds1 where m1: "waitForSimplePayload 1 \<lparr>simple_buffer = []\<rparr> (map Chunk cs @ map Chunk ds @ es) w1 =
      Some (Got (?m1, \<lparr>simple_buffer = r1\<rparr>), map Chunk (ds1 @ ds) @ es, w1)"
    and left: "unparsed (r1 @ concat ds1) = Scanned [] []"
    by (auto simp: key_message_def)
  have "unparsed (simple_buffer \<lparr>simple_buffer = r1\<rparr> @ concat (ds1 @ ds)) = Scanned [0x02 # ct] []"
    using unparsed_behind [OF left, of "0x02 # ct"] ct(1) ds by (simp add: simple_sendable_def)
  from wait_message [OF this, of 2 es w2]
  obtain r2 ds2 where m2: "waitForSimplePayload 2 \<lparr>simple_buffer = r1\<rparr> (map Chunk (ds1 @ ds) @ es) w2 =
      Some (Got (0x02 # ct, \<lparr>simple_buffer = r2\<rparr>), map Chunk ds2 @ es, w2)"
    by auto
  have dk: "device_key ?m1 = Some (Inr devPub)"
    using len num by (simp add: device_key_def key_message_def go_slice_def)
  have fk: "final_key (keydata env) key iv (0x02 # ct) = Some (Inr finalKey)"
    using ct info by (simp add: final_key_def go_slice_in)
  show ?thesis
    using curve(2) app q1 w1 m1 dk s secret(2) q2 w2 m2 fk
    by (simp add: type7_handshake_def and_then_def written_def attempt_panic_def
        del: waitForSimplePayload.simps) blast
qed

section \<open>Properties\<close>

text \<open>C11: Whatever the peer and the links do, the handshake of any device never panics, keeps
  waiting only while notifications arrive, and gives a session an assembler whose encryption
  works.\<close>

theorem handshake_safe:
  "runs es (bootstrapSession env desc userID es w) (\<lambda>(a, pend). wf_assembler a)"
  by (rule runs_bootstrapSession)

text \<open>C26: A rejected token never authenticates: when \<open>finishAuthentication\<close> succeeds, the
  notifications it has used up hold at least one packet and none of their packets is a reply
  with an error code, and it leaves exactly those that are not replies for the session.\<close>

theorem rejection_respected:
  assumes "finishAuthentication env desc userID a es w = Some (Got (a', pend), es', w')"
  shows "\<exists>cs raws. es = map Chunk cs @ es' \<and> run_notifications Reassemble a cs = Some (Inr raws, a') \<and>
    (let qs = decoded_packets (XORPayload desc) raws
     in qs \<noteq> [] \<and>
       (\<forall>q \<in> set qs. isAuthReply q \<longrightarrow> Payload q = [] \<or> hd (Payload q) = 0) \<and>
       pend = filter (\<lambda>q. \<not> isAuthReply q) qs)"
proof -
  from assms obtain w1 where "await_auth desc a es w1 = Some (Got (a', pend), es', w')"
    by (auto simp: finishAuthentication_def and_then_Got written_Got)
  from await_auth_success [OF this] show ?thesis unfolding Let_def rejects_def by blast
qed

text \<open>An authentication reply is not needed: any other packet that parses ends the
  authentication successfully.\<close>

theorem authenticated_without_reply:
  assumes "Reassemble a chunk = Some (Inr [payload], a')" "ParsePacket payload (XORPayload desc) = Some (Inr q)"
    "\<not> isAuthReply q"
  shows "await_auth desc a (Chunk chunk # es) w = Some (Got (a', [q]), es, w)"
  using assms by simp

text \<open>C9: With a device that follows the protocol, both sides having drawn scalars between 0 and the
  order of the curve, and however the radio cuts its two messages, the type 7 handshake arrives
  at the session key and IV the device has.\<close>

theorem handshake_with_device:
  assumes "curve_laws c base n" "curve env = draws c base a" "writes_succeed env"
    and "curve_key n a" "curve_key n b"
    and "generateSECP160KeyPair (draws c base b) = Inr (b, devPub)"
    and "generateSECP160KeyPair (draws c base a) = Inr (a, appPub)"
    and "deriveSharedSecret c b appPub = Inr secret" "type7SessionSeed secret = Some (key, iv)"
    and "getECDHTypeSize curveNum = 40"
    and "length srand = 16" "length seed = 2"
      "Encrypt (Type7Encryption key iv) (srand @ seed) = Some (Inr ct)"
      "deriveFinalSessionKey (keydata env) seed srand = Some (Inr finalKey)"
    and "concat cs = simple_wire (key_message x curveNum devPub)"
    and "concat ds = simple_wire (0x02 # ct)"
  shows "\<exists>rest w'. type7_handshake env (map Chunk cs @ map Chunk ds @ es) w =
    Some (Got (finalKey, iv), map Chunk rest @ es, w')"
  by (rule handshake_agrees [OF assms])

text \<open>A world that records what is written.\<close>

definition sample_env :: "bytes list env" where
  "sample_env = \<lparr>conn_Write = (\<lambda>d r w. (None, w @ [d])), Now = (\<lambda>w. (\<lparr>nanos = 0, seconds_east = 0\<rparr>, w)),
     FindByMAC = (\<lambda>_ _ _ w. (Inr sample_discovery, w)), Connect = (\<lambda>_ _ _ w. (None, w)),
     StartNotifications = (\<lambda>w. (None, w)), conn_Close = (\<lambda>w. w), ctx_Err = (\<lambda>w. False), curve = draws small_curve (5, 1) [3],
     keydata = Inr (replicate 65280 7), proto = sample_lib, platform = host64\<rparr>"

definition sample_descriptor :: DeviceDescriptor where
  "sample_descriptor = \<lparr>Serial = ''R351ZEB4XXXX0001'', Model = ''EcoFlow DELTA 2 family'', PacketVersion = 0x02,
     EncryptType = 0, AuthHeaderDst = 0x35, SupportsWake = True, SupportsTime = False, XORPayload = True,
     Profile = ProfileDelta2, desc_Discovery = sample_discovery,
     desc_ScanRecord = \<lparr>ProtoVersion = 1, SerialNumber = ''R351ZEB4XXXX0001'', Status = 0, ProductType = 0,
       CapabilityFlags = 0, scan_Encrypt = False, SupportVerified = False, Verified = False,
       scan_EncryptType = 0, Support5G = False, ActiveFlag = False\<rparr>,
     ProfileName = ''EcoFlow DELTA 2 family'', UnsupportedMsg = []\<rparr>"

lemma single_notification:
  assumes "run_notifications Reassemble a [c] = Some (Inr ps, a')"
  shows "Reassemble a c = Some (Inr ps, a')"
  using assms by (auto split: option.splits sum.splits prod.splits)

lemma sample_received:
  "Reassemble (PassAssembler \<lparr>pass_buffer = []\<rparr>) (raw_packet sample_packet) =
     Some (Inr [raw_packet sample_packet], PassAssembler \<lparr>pass_buffer = []\<rparr>)"
  "ParsePacket (raw_packet sample_packet) True = Some (Inr (received True sample_packet))"
proof -
  have d: "deliverable (PassAssembler \<lparr>pass_buffer = []\<rparr>) sample_packet"
    by (simp add: crc_format_def sample_packet_def zero_packet_def layout_consistent_def)
  then show "ParsePacket (raw_packet sample_packet) True = Some (Inr (received True sample_packet))"
    by (rule assembler.deliverable_parses)
  show "Reassemble (PassAssembler \<lparr>pass_buffer = []\<rparr>) (raw_packet sample_packet) =
     Some (Inr [raw_packet sample_packet], PassAssembler \<lparr>pass_buffer = []\<rparr>)"
    by (rule single_notification, subst assembler.packets_arrive [of _ "[sample_packet]"])
      (use d in simp_all)
qed

lemma sample_no_reply: "\<not> isAuthReply (received True sample_packet)"
  by (simp add: isAuthReply_def received_def sample_packet_def zero_packet_def)

text \<open>The reply of a device that accepts the token.\<close>

definition sample_reply :: Packet where
  "sample_reply = zero_packet\<lparr>Src := 0x35, Dst := 0x21, CmdSet := 0x35, CmdID := 0x86, Payload := [0], Version := 0x03\<rparr>"

lemma sample_reply_received:
  "Reassemble (PassAssembler \<lparr>pass_buffer = []\<rparr>) (raw_packet sample_reply) =
     Some (Inr [raw_packet sample_reply], PassAssembler \<lparr>pass_buffer = []\<rparr>)"
  "ParsePacket (raw_packet sample_reply) True = Some (Inr (received True sample_reply))"
proof -
  have d: "deliverable (PassAssembler \<lparr>pass_buffer = []\<rparr>) sample_reply"
    by (simp add: crc_format_def sample_reply_def zero_packet_def layout_consistent_def)
  then show "ParsePacket (raw_packet sample_reply) True = Some (Inr (received True sample_reply))"
    by (rule assembler.deliverable_parses)
  show "Reassemble (PassAssembler \<lparr>pass_buffer = []\<rparr>) (raw_packet sample_reply) =
     Some (Inr [raw_packet sample_reply], PassAssembler \<lparr>pass_buffer = []\<rparr>)"
    by (rule single_notification, subst assembler.packets_arrive [of _ "[sample_reply]"])
      (use d in simp_all)
qed

lemma length_ToUpper: "length (ToUpper s) \<le> length s"
  by (induction s rule: ToUpper.induct) auto

theorem rejection_respected_witness:
  "\<exists>w w'. finishAuthentication sample_env sample_descriptor ''user'' (PassAssembler \<lparr>pass_buffer = []\<rparr>)
      [Chunk (raw_packet sample_reply)] w = Some (Got (PassAssembler \<lparr>pass_buffer = []\<rparr>, []), [], w') \<and>
    (\<exists>cs raws. [Chunk (raw_packet sample_reply)] = map Chunk cs @ [] \<and> decoded_packets True raws \<noteq> [])"
proof -
  let ?a = "PassAssembler \<lparr>pass_buffer = []\<rparr>"
  have wf: "wf_assembler ?a" by simp
  have e: "fst (conn_Write sample_env d k w) = None" for d k w by (simp add: sample_env_def)
  have q: "isAuthReply (received True sample_reply)" "Payload (received True sample_reply) = [0]"
    by (simp_all add: isAuthReply_def received_def received_payload_def sample_reply_def zero_packet_def Let_def)
  have x: "XORPayload sample_descriptor" by (simp add: sample_descriptor_def)
  have enc: "\<exists>b. Encode ?a p = Some (Inr b)" if "length (Payload p) \<le> 100" for p
    using that by (auto simp: pass_Encode_def MarshalBinary_def packet_consts Let_def)
  have wr: "\<exists>w'. writePacket sample_env ?a p w = Some (None, w')" if "length (Payload p) \<le> 100" for p w
    using enc [OF that] by (auto simp: writePacket_def sample_env_def)
  obtain w1 where w1: "writePacket sample_env ?a (authStatusPacket sample_descriptor) [] = Some (None, w1)"
    using wr [of "authStatusPacket sample_descriptor"] by (auto simp: authStatusPacket_def zero_packet_def)
  have "length (ToUpper (EncodeToString (md5 b))) \<le> 100" for b
    using length_ToUpper [of "EncodeToString (md5 b)"] by (simp add: length_md5)
  then have "length (Payload (authPacket sample_descriptor ''user'')) \<le> 100"
    by (simp add: authPacket_def Let_def bytes_of_string_def)
  then obtain w2 where w2: "writePacket sample_env ?a (authPacket sample_descriptor ''user'') w1 = Some (None, w2)"
    using wr by blast
  have "await_auth sample_descriptor ?a [Chunk (raw_packet sample_reply)] w2 = Some (Got (?a, []), [], w2)"
    using sample_reply_received q x by (simp add: authErrorFromPayload_def)
  with w1 w2 have run: "finishAuthentication sample_env sample_descriptor ''user'' ?a [Chunk (raw_packet sample_reply)] [] =
      Some (Got (?a, []), [], w2)"
    by (simp add: finishAuthentication_def and_then_def written_def)
  have xored: "XORPayload sample_descriptor = True" using x by simp
  from rejection_respected [OF run, unfolded xored] run show ?thesis unfolding Let_def by blast
qed

theorem authenticated_without_reply_witness:
  "await_auth sample_descriptor (PassAssembler \<lparr>pass_buffer = []\<rparr>) [Chunk (raw_packet sample_packet), CtxDone] [] =
     Some (Got (PassAssembler \<lparr>pass_buffer = []\<rparr>, [received True sample_packet]), [CtxDone], [])"
  by (rule authenticated_without_reply [OF sample_received(1) _ sample_no_reply])
    (simp add: sample_descriptor_def sample_received(2))

theorem handshake_with_device_witness:
  "\<exists>devPub ct finalKey iv rest w'.
     type7_handshake sample_env (map Chunk [simple_wire (key_message 0 0 devPub)] @
       map Chunk [simple_wire (0x02 # ct)] @ []) [] = Some (Got (finalKey, iv), map Chunk rest @ [], w')"
proof -
  obtain appPub devPub secret key iv where g:
    "generateSECP160KeyPair (draws small_curve (5, 1) [5]) = Inr ([5], devPub)"
    "generateSECP160KeyPair (draws small_curve (5, 1) [3]) = Inr ([3], appPub)"
    "deriveSharedSecret small_curve [5] appPub = Inr secret" "type7SessionSeed secret = Some (key, iv)"
    "wf_type7 (Type7Encryption key iv)"
    using shared_secret [OF small_curve_laws small_keys] by blast
  define srand where "srand = replicate 16 (9 :: byte)"
  define seed where "seed = [1, 1 :: byte]"
  obtain ct where ct: "Encrypt (Type7Encryption key iv) (srand @ seed) = Some (Inr ct)"
    using type7_round_total [OF g(5), of "srand @ seed"]
    by (auto simp: srand_def seed_def packet_consts)
  have "key_pos 1 1 = 16" by (simp add: key_pos_unat)
  then obtain finalKey where fk: "deriveFinalSessionKey (keydata sample_env) seed srand = Some (Inr finalKey)"
    by (simp add: sample_env_def deriveFinalSessionKey_eq seed_def srand_def)
  have "curve sample_env = draws small_curve (5, 1) [3]" "writes_succeed sample_env"
    by (simp_all add: sample_env_def writes_succeed_def)
  from handshake_with_device [OF small_curve_laws this small_keys g(1-4) _ _ _ ct fk, of 0
      "[simple_wire (key_message 0 0 devPub)]" 0 "[simple_wire (0x02 # ct)]" "[]" "[]"]
  show ?thesis
    by (fastforce simp: getECDHTypeSize_def srand_def seed_def)
qed

end
