(* ===== verification/Session.thy ===== *)
theory Session
  imports Session_Auth Telemetry_Vars
begin

text \<open>
  A session with a device and the reconnect loop around it (\<open>runSession\<close> and \<open>runDevice\<close>,
  \<open>internal/ecoflow/provider.go\<close>): the packets of the device are answered and decoded, the
  merged telemetry is published in the store, and a silent device is published as stale.
  Cancellation, notifications and the timer arrive as a list of events, the choices of the
  selects; every reading of the clock is an operation of the environment.
\<close>

section \<open>Durations\<close>

text \<open>\<open>time.Duration(n) * time.Second\<close> and \<open>2 * d\<close> wrap at 64 bits.\<close>

definition duration :: "int \<Rightarrow> int" where
  "duration n = sint (word_of_int (n * Second) :: 64 word)"

definition twice :: "int \<Rightarrow> int" where
  "twice d = sint (word_of_int (2 * d) :: 64 word)"

section \<open>The state of a session\<close>

record session =
  sess_assembler :: FrameAssembler
  sess_handler :: PacketHandler
  responder :: timeResponder
  lastPacket :: time
  lastFresh :: "time option"
  isStale :: bool
  latestTelemetry :: Telemetry
  sess_store :: Store

text \<open>A step that returns an error or leaves a state; \<open>None\<close> is a panic.\<close>

type_synonym 's attempted = "(go_error option \<times> 's) option"

definition proceed :: "'s attempted \<Rightarrow> ('s \<Rightarrow> 's attempted) \<Rightarrow> 's attempted" where
  "proceed m f =
     (case m of None \<Rightarrow> None | Some (Some e, s) \<Rightarrow> Some (Some e, s) | Some (None, s) \<Rightarrow> f s)"

text \<open>\<open>store.Upsert\<close> reads the clock itself.\<close>

definition upsert_now :: "'w env \<Rightarrow> Device \<Rightarrow> string gomap \<Rightarrow> Store \<Rightarrow> 'w \<Rightarrow> Store \<times> 'w" where
  "upsert_now env device vars st w =
     (let (now, w) = Now env w
      in (Upsert st (d_Name device) (d_Description device) vars (nanos now), w))"

fun write_all :: "'w env \<Rightarrow> FrameAssembler \<Rightarrow> Packet list \<Rightarrow> 'w \<Rightarrow> 'w attempted" where
  "write_all env a [] w = Some (None, w)"
| "write_all env a (p # ps) w = proceed (writePacket env a p w) (write_all env a ps)"

definition with_session :: "session \<Rightarrow> 'w attempted \<Rightarrow> (session \<times> 'w) attempted" where
  "with_session s r = map_option (\<lambda>(e, w). (e, s, w)) r"

section \<open>Processing a packet\<close>

definition answer_time :: "'w env \<Rightarrow> DeviceDescriptor \<Rightarrow> Packet \<Rightarrow> session \<times> 'w \<Rightarrow> (session \<times> 'w) attempted" where
  "answer_time env desc packet = (\<lambda>(s, w).
     if SupportsTime desc \<and> isTimeRequest packet then
       let (now, w) = Now env w in
       case Packets (marshal_utc env) (responder s) now of
         (Inl e, r) \<Rightarrow> Some (Some e, s\<lparr>responder := r\<rparr>, w)
       | (Inr (packets, send), r) \<Rightarrow>
           if send then with_session (s\<lparr>responder := r\<rparr>) (write_all env (sess_assembler s) packets w)
           else Some (None, s\<lparr>responder := r\<rparr>, w)
     else Some (None, s, w))"

definition take_telemetry ::
  "'w env \<Rightarrow> Device \<Rightarrow> DeviceDescriptor \<Rightarrow> Telemetry \<Rightarrow> session \<times> 'w \<Rightarrow> session \<times> 'w" where
  "take_telemetry env device desc telemetry = (\<lambda>(s, w).
     let (now, w) = Now env w;
         s = s\<lparr>lastFresh := Some (nanos now), isStale := False,
               latestTelemetry := Merge (latestTelemetry s) telemetry\<rparr>;
         (st, w) = upsert_now env device (liveVars device desc (latestTelemetry s)) (sess_store s) w
     in (s\<lparr>sess_store := st\<rparr>, w))"

definition handle_packet ::
  "'w env \<Rightarrow> Device \<Rightarrow> DeviceDescriptor \<Rightarrow> Packet \<Rightarrow> session \<times> 'w \<Rightarrow> (session \<times> 'w) attempted" where
  "handle_packet env device desc packet = (\<lambda>(s, w).
     case HandlePacket (platform env) (proto env) (sess_handler s) packet of
       None \<Rightarrow> None
     | Some (r, h) \<Rightarrow>
         let s = s\<lparr>sess_handler := h\<rparr> in
         case r of
           Inl e \<Rightarrow> Some (Some e, s, w)
         | Inr (telemetry, outbound, handled) \<Rightarrow>
             if \<not> handled then Some (None, s, w)
             else proceed (with_session s (write_all env (sess_assembler s) outbound w)) (\<lambda>sw.
               case telemetry of
                 None \<Rightarrow> Some (None, sw)
               | Some t \<Rightarrow> if Empty t then Some (None, sw) else Some (None, take_telemetry env device desc t sw)))"

definition processPacket ::
  "'w env \<Rightarrow> Device \<Rightarrow> DeviceDescriptor \<Rightarrow> Packet \<Rightarrow> session \<times> 'w \<Rightarrow> (session \<times> 'w) attempted" where
  "processPacket env device desc packet sw =
     proceed (answer_time env desc packet sw) (handle_packet env device desc packet)"

text \<open>The packets left over from the handshake, and the payloads of a notification.\<close>

fun process_pending ::
  "'w env \<Rightarrow> Device \<Rightarrow> DeviceDescriptor \<Rightarrow> Packet list \<Rightarrow> session \<times> 'w \<Rightarrow> (session \<times> 'w) attempted" where
  "process_pending env device desc [] sw = Some (None, sw)"
| "process_pending env device desc (p # ps) sw =
     proceed (processPacket env device desc p sw) (process_pending env device desc ps)"

definition process_payload ::
  "'w env \<Rightarrow> Device \<Rightarrow> DeviceDescriptor \<Rightarrow> bytes \<Rightarrow> session \<times> 'w \<Rightarrow> (session \<times> 'w) attempted" where
  "process_payload env device desc payload sw =
     (case ParsePacket payload (XORPayload desc) of
        None \<Rightarrow> None
      | Some (Inl e) \<Rightarrow> Some (None, sw)
      | Some (Inr packet) \<Rightarrow>
          if isAuthReply packet then Some (authErrorFromPayload (Payload packet), sw)
          else processPacket env device desc packet sw)"

fun process_payloads ::
  "'w env \<Rightarrow> Device \<Rightarrow> DeviceDescriptor \<Rightarrow> bytes list \<Rightarrow> session \<times> 'w \<Rightarrow> (session \<times> 'w) attempted" where
  "process_payloads env device desc [] sw = Some (None, sw)"
| "process_payloads env device desc (p # ps) sw =
     proceed (process_payload env device desc p sw) (process_payloads env device desc ps)"

section \<open>The loop of a session\<close>

definition receive ::
  "'w env \<Rightarrow> Device \<Rightarrow> DeviceDescriptor \<Rightarrow> bytes \<Rightarrow> session \<times> 'w \<Rightarrow> (session \<times> 'w) attempted" where
  "receive env device desc chunk = (\<lambda>(s, w).
     let (now, w) = Now env w; s = s\<lparr>lastPacket := nanos now\<rparr> in
     case Reassemble (sess_assembler s) chunk of
       None \<Rightarrow> None
     | Some (Inl e, a) \<Rightarrow> Some (Some e, s\<lparr>sess_assembler := a\<rparr>, w)
     | Some (Inr payloads, a) \<Rightarrow>
         process_payloads env device desc payloads (s\<lparr>sess_assembler := a\<rparr>, w))"

definition stale_transition ::
  "'w env \<Rightarrow> Device \<Rightarrow> DeviceDescriptor \<Rightarrow> int \<Rightarrow> time \<Rightarrow> session \<times> 'w \<Rightarrow> session \<times> 'w" where
  "stale_transition env device desc staleTimeout now = (\<lambda>(s, w).
     if staleAfter (lastFresh s) staleTimeout now \<and> \<not> isStale s then
       let (st, w) = upsert_now env device (staleVars device (Model desc) (Serial desc)) (sess_store s) w
       in (s\<lparr>isStale := True, sess_store := st\<rparr>, w)
     else (s, w))"

definition tick ::
  "'w env \<Rightarrow> Device \<Rightarrow> DeviceDescriptor \<Rightarrow> int \<Rightarrow> int \<Rightarrow> session \<times> 'w \<Rightarrow> (session \<times> 'w) attempted" where
  "tick env device desc pollInterval staleTimeout = (\<lambda>(s, w).
     let (now, w) = Now env w;
         (s, w) = stale_transition env device desc staleTimeout (nanos now) (s, w) in
     proceed
       (if nanos now - lastPacket s \<ge> pollInterval
        then with_session s (writePacket env (sess_assembler s) (authStatusPacket desc) w)
        else Some (None, s, w))
       (\<lambda>(s, w). if nanos now - lastPacket s \<ge> twice pollInterval
         then Some (Some (SessionError IdleTimeout), s, w) else Some (None, s, w)))"

datatype ending = Running | Ended "go_error option"

definition session_step ::
  "'w env \<Rightarrow> Device \<Rightarrow> DeviceDescriptor \<Rightarrow> int \<Rightarrow> int \<Rightarrow> event \<Rightarrow> session \<times> 'w \<Rightarrow> (ending \<times> session \<times> 'w) option" where
  "session_step env device desc pollInterval staleTimeout e sw =
     (let after = map_option (\<lambda>(r, sw). (case r of Some x \<Rightarrow> Ended (Some x) | None \<Rightarrow> Running, sw)) in
      case e of
        CtxDone \<Rightarrow> Some (Ended None, sw)
      | Chunk chunk \<Rightarrow> after (receive env device desc chunk sw)
      | Timer \<Rightarrow> after (tick env device desc pollInterval staleTimeout sw))"

fun session_loop ::
  "'w env \<Rightarrow> Device \<Rightarrow> DeviceDescriptor \<Rightarrow> int \<Rightarrow> int \<Rightarrow> event list \<Rightarrow> session \<times> 'w \<Rightarrow>
   (ending \<times> event list \<times> session \<times> 'w) option" where
  "session_loop env device desc pollInterval staleTimeout [] sw = Some (Running, [], sw)"
| "session_loop env device desc pollInterval staleTimeout (e # es) sw =
     (case session_step env device desc pollInterval staleTimeout e sw of
        None \<Rightarrow> None
      | Some (Ended r, sw) \<Rightarrow> Some (Ended r, es, sw)
      | Some (Running, sw) \<Rightarrow> session_loop env device desc pollInterval staleTimeout es sw)"

text \<open>The session after the handshake; \<open>time.NewTicker\<close> panics unless its period is positive.\<close>

definition serve ::
  "'w env \<Rightarrow> Config \<Rightarrow> Device \<Rightarrow> DeviceDescriptor \<Rightarrow> PacketHandler \<Rightarrow> FrameAssembler \<Rightarrow> Packet list \<Rightarrow>
   event list \<Rightarrow> Store \<Rightarrow> 'w \<Rightarrow> (ending \<times> event list \<times> Store \<times> 'w) option" where
  "serve env cfg device desc h a pend es st w =
     (let pollInterval = duration (PollSeconds (Provider cfg));
          staleTimeout = duration (StaleTimeoutSeconds device) in
      if pollInterval \<le> 0 then None
      else
        let (now, w) = Now env w;
            s = \<lparr>sess_assembler = a, sess_handler = h, responder = \<lparr>lastSent = None\<rparr>, lastPacket = nanos now,
                 lastFresh = None, isStale = True, latestTelemetry = no_telemetry, sess_store = st\<rparr> in
        case process_pending env device desc pend (s, w) of
          None \<Rightarrow> None
        | Some (Some e, s, w) \<Rightarrow> Some (Ended (Some e), es, sess_store s, w)
        | Some (None, sw) \<Rightarrow>
            map_option (\<lambda>(r, es, s, w). (r, es, sess_store s, w))
              (session_loop env device desc pollInterval staleTimeout es sw))"

text \<open>\<open>defer conn.Close()\<close>: the link is closed when the function returns.\<close>

definition closing ::
  "'w env \<Rightarrow> (ending \<times> event list \<times> Store \<times> 'w) option \<Rightarrow> (ending \<times> event list \<times> Store \<times> 'w) option" where
  "closing env = map_option (\<lambda>(r, es, st, w). (r, es, st, if r = Running then w else conn_Close env w))"

definition connected ::
  "'w env \<Rightarrow> Config \<Rightarrow> Device \<Rightarrow> DeviceDescriptor \<Rightarrow> string \<Rightarrow> event list \<Rightarrow> Store \<Rightarrow> 'w \<Rightarrow>
   (ending \<times> event list \<times> Store \<times> 'w) option" where
  "connected env cfg device desc userID es st w =
     (case newHandler (Profile desc) of
        None \<Rightarrow> Some (Ended (Some (SessionError NoHandler)), es, st, w)
      | Some h \<Rightarrow>
          (case StartNotifications env w of
             (Some e, w) \<Rightarrow> Some (Ended (Some e), es, st, w)
           | (None, w) \<Rightarrow>
               (case bootstrapSession env desc userID es w of
                  None \<Rightarrow> None
                | Some (Waiting, es, w) \<Rightarrow> Some (Running, es, st, w)
                | Some (Failed e, es, w) \<Rightarrow> Some (Ended (Some e), es, st, w)
                | Some (Got (a, pend), es, w) \<Rightarrow> serve env cfg device desc h a pend es st w)))"

definition runSession ::
  "'w env \<Rightarrow> Config \<Rightarrow> Device \<Rightarrow> string \<Rightarrow> event list \<Rightarrow> Store \<Rightarrow> 'w \<Rightarrow>
   (ending \<times> event list \<times> Store \<times> 'w) option" where
  "runSession env cfg device userID es st w =
     (let p = Provider cfg in
      case FindByMAC env (Adapter p) (d_MAC device) (duration (ScanTimeoutSeconds p)) w of
        (Inl e, w) \<Rightarrow> Some (Ended (Some e), es, st, w)
      | (Inr discovery, w) \<Rightarrow>
          (case resolveDescriptor discovery of
             Inl e \<Rightarrow> Some (Ended (Some e), es, st, w)
           | Inr desc \<Rightarrow>
               (case Connect env (Adapter p) discovery (duration (ConnectTimeoutSeconds p)) w of
                  (Some e, w) \<Rightarrow> Some (Ended (Some e), es, st, w)
                | (None, w) \<Rightarrow> closing env (connected env cfg device desc userID es st w))))"

section \<open>The life of a device\<close>

text \<open>
  \<open>runDevice\<close> waits after a failed session for the context or the reconnect delay; a
  notification is no choice of that select and is passed over.
\<close>

lemma session_loop_suffix:
  "session_loop env device desc p t es sw = Some (r, es', sw') \<Longrightarrow> length es' \<le> length es"
proof (induction es arbitrary: sw)
  case (Cons e es)
  then show ?case
    by (auto split: option.splits ending.splits prod.splits dest!: Cons.IH)
qed simp

lemma connected_suffix:
  assumes "connected env cfg device desc userID es st w = Some (r, es', st', w')"
  shows "length es' \<le> length es"
proof -
  from runs_bootstrapSession [of es env desc userID "snd (StartNotifications env w)"]
  obtain b es1 w1 where b: "bootstrapSession env desc userID es (snd (StartNotifications env w)) = Some (b, es1, w1)"
    "length es1 \<le> length es"
    unfolding runs_def by fastforce
  have "length es' \<le> length es1" if "serve env cfg device desc h a pend es1 st w1 = Some (r, es', st', w')" for h a pend
    using that by (auto simp: serve_def Let_def split: if_splits option.splits prod.splits
        dest!: session_loop_suffix)
  with assms b show ?thesis
    by (fastforce simp: connected_def split: option.splits prod.splits awaited.splits)
qed

lemma runSession_suffix:
  "runSession env cfg device userID es st w = Some (r, es', st', w') \<Longrightarrow> length es' \<le> length es"
  by (auto simp: runSession_def closing_def Let_def split: prod.splits sum.splits option.splits
      dest!: connected_suffix)

function (sequential) runDevice_loop ::
  "'w env \<Rightarrow> Config \<Rightarrow> Device \<Rightarrow> string \<Rightarrow> event list \<Rightarrow> Store \<Rightarrow> 'w \<Rightarrow>
   (ending \<times> event list \<times> Store \<times> 'w) option"
  and reconnect ::
  "'w env \<Rightarrow> Config \<Rightarrow> Device \<Rightarrow> string \<Rightarrow> event list \<Rightarrow> Store \<Rightarrow> 'w \<Rightarrow>
   (ending \<times> event list \<times> Store \<times> 'w) option" where
  "runDevice_loop env cfg device userID es st w =
     (case runSession env cfg device userID es st w of
        None \<Rightarrow> None
      | Some (Running, es, st, w) \<Rightarrow> Some (Running, es, st, w)
      | Some (Ended r, es, st, w) \<Rightarrow>
          if r = None \<or> ctx_Err env w then Some (Ended None, es, st, w)
          else let (st, w) = upsert_now env device (staleVars device (d_Model device) (d_Serial device)) st w
               in reconnect env cfg device userID es st w)"
| "reconnect env cfg device userID [] st w = Some (Running, [], st, w)"
| "reconnect env cfg device userID (CtxDone # es) st w = Some (Ended None, es, st, w)"
| "reconnect env cfg device userID (Timer # es) st w = runDevice_loop env cfg device userID es st w"
| "reconnect env cfg device userID (Chunk c # es) st w = reconnect env cfg device userID es st w"
  by pat_completeness auto
termination
  by (relation "measure (\<lambda>x. case x of Inl (_, _, _, _, es, _, _) \<Rightarrow> 2 * length es + 1 | Inr (_, _, _, _, es, _, _) \<Rightarrow> 2 * length es)")
    (auto dest: runSession_suffix runSession_suffix [OF sym])

declare runDevice_loop.simps [simp del]

definition runDevice ::
  "'w env \<Rightarrow> Config \<Rightarrow> Device \<Rightarrow> string \<Rightarrow> event list \<Rightarrow> Store \<Rightarrow> 'w \<Rightarrow>
   (ending \<times> event list \<times> Store \<times> 'w) option" where
  "runDevice env cfg device userID es st w =
     (let (st, w) = upsert_now env device (staleVars device (d_Model device) (d_Serial device)) st w
      in runDevice_loop env cfg device userID es st w)"

section \<open>What every step keeps\<close>

text \<open>A step does not panic and keeps \<open>I\<close>, whether it returns an error or not.\<close>

definition keeps :: "('s \<Rightarrow> bool) \<Rightarrow> 's attempted \<Rightarrow> bool" where
  "keeps I m \<longleftrightarrow> (\<exists>r s. m = Some (r, s) \<and> I s)"

named_theorems keep_rules \<open>steps that keep the invariant of a session\<close>

lemma keepsI [intro]: "I s \<Longrightarrow> keeps I (Some (r, s))"
  by (simp add: keeps_def)

lemma keeps_proceed:
  assumes "keeps I m" "\<And>s. I s \<Longrightarrow> keeps I (f s)"
  shows "keeps I (proceed m f)"
  using assms by (auto simp: keeps_def proceed_def split: option.splits)

text \<open>The store entry of the device: the waiting variables, or the live ones of a telemetry.\<close>

definition entry_waits :: "Device \<Rightarrow> Store \<Rightarrow> bool" where
  "entry_waits device st \<longleftrightarrow>
     (\<exists>u m n. Get st (d_Name device) = Some u \<and> Vars u = staleVars device m n)"

definition entry_lives :: "Device \<Rightarrow> DeviceDescriptor \<Rightarrow> Telemetry \<Rightarrow> Store \<Rightarrow> bool" where
  "entry_lives device desc t st \<longleftrightarrow>
     (\<exists>u. Get st (d_Name device) = Some u \<and> Vars u = liveVars device desc t)"

text \<open>The entries of the other devices are those of \<open>st0\<close>.\<close>

definition others_kept :: "Device \<Rightarrow> Store \<Rightarrow> Store \<Rightarrow> bool" where
  "others_kept device st0 st \<longleftrightarrow> (\<forall>n. n \<noteq> d_Name device \<longrightarrow> Get st n = Get st0 n)"

definition session_ok :: "Device \<Rightarrow> DeviceDescriptor \<Rightarrow> Store \<Rightarrow> session \<Rightarrow> bool" where
  "session_ok device desc st0 s \<longleftrightarrow>
     wf_assembler (sess_assembler s) \<and> wf_store (sess_store s) \<and> others_kept device st0 (sess_store s) \<and>
     (if isStale s then entry_waits device (sess_store s)
      else entry_lives device desc (latestTelemetry s) (sess_store s) \<and> lastFresh s \<noteq> None)"

abbreviation (input) good :: "Device \<Rightarrow> DeviceDescriptor \<Rightarrow> Store \<Rightarrow> session \<times> 'w \<Rightarrow> bool" where
  "good device desc st0 \<equiv> \<lambda>(s, w). session_ok device desc st0 s"

lemma upsert_now_kept:
  assumes "wf_store st" "others_kept device st0 st" "wf_map vars" "upsert_now env device vars st w = (st', w')"
  shows "wf_store st'" "others_kept device st0 st'" "\<exists>u. Get st' (d_Name device) = Some u \<and> Vars u = vars"
  using assms
  by (auto simp: upsert_now_def others_kept_def store.get_upsert wf_Upsert split: prod.splits)

lemma writes_keep:
  "wf_assembler a \<Longrightarrow> \<exists>r w'. write_all env a ps w = Some (r, w')"
proof (induction ps arbitrary: w)
  case (Cons p ps)
  obtain r w1 where "writePacket env a p w = Some (r, w1)"
    using writePacket_total [OF Cons.prems, of env p w] by auto
  with Cons show ?case by (cases r) (auto simp: proceed_def)
qed simp

lemma session_ok_updates [simp]:
  "session_ok device desc st0 (s\<lparr>responder := r\<rparr>) = session_ok device desc st0 s"
  "session_ok device desc st0 (s\<lparr>sess_handler := h\<rparr>) = session_ok device desc st0 s"
  "session_ok device desc st0 (s\<lparr>lastPacket := t\<rparr>) = session_ok device desc st0 s"
  by (simp_all add: session_ok_def)

lemma keeps_writes [keep_rules]:
  assumes "session_ok device desc st0 s" "a = sess_assembler s"
  shows "keeps (good device desc st0) (with_session s (write_all env a ps w))"
proof -
  have "wf_assembler a" using assms by (simp add: session_ok_def)
  from writes_keep [OF this, of env ps w] assms(1) show ?thesis
    by (auto simp: with_session_def keeps_def)
qed

lemma keeps_write [keep_rules]:
  assumes "session_ok device desc st0 s" "a = sess_assembler s"
  shows "keeps (good device desc st0) (with_session s (writePacket env a p w))"
proof -
  have "wf_assembler a" using assms by (simp add: session_ok_def)
  from writePacket_total [OF this, of env p w] assms(1) show ?thesis
    by (auto simp: with_session_def keeps_def)
qed

lemma keeps_answer_time:
  assumes "good device desc st0 sw"
  shows "keeps (good device desc st0) (answer_time env desc p sw)"
proof -
  obtain s w where sw: "sw = (s, w)" by force
  obtain now w' where now: "Now env w = (now, w')" by force
  obtain r resp where r: "Packets (marshal_utc env) (responder s) now = (r, resp)" by force
  have "keeps (good device desc st0) (with_session (s\<lparr>responder := resp\<rparr>) (write_all env (sess_assembler s) ps w'))" for ps
    using assms sw by (intro keeps_writes) simp_all
  then show ?thesis
    using assms by (auto simp: answer_time_def sw now r intro!: keepsI split: sum.split)
qed

lemma take_telemetry_ok:
  assumes "good device desc st0 sw"
  shows "good device desc st0 (take_telemetry env device desc t sw)"
proof -
  obtain s w where sw: "sw = (s, w)" by force
  obtain now w' where now: "Now env w = (now, w')" by force
  let ?t = "Merge (latestTelemetry s) t"
  obtain st w2 where u: "upsert_now env device (liveVars device desc ?t) (sess_store s) w' = (st, w2)" by force
  from assms sw have "wf_store (sess_store s)" "others_kept device st0 (sess_store s)"
    by (simp_all add: session_ok_def)
  from upsert_now_kept [OF this wf_liveVars u] show ?thesis
    using assms by (simp add: take_telemetry_def sw now u session_ok_def entry_lives_def)
qed

lemma keeps_handle_packet:
  assumes "good device desc st0 sw" "typed_lib (proto env)"
  shows "keeps (good device desc st0) (handle_packet env device desc p sw)"
proof -
  obtain s w where sw: "sw = (s, w)" by force
  obtain r h where r: "HandlePacket (platform env) (proto env) (sess_handler s) p = Some (r, h)"
    using HandlePacket_total [OF assms(2)] by blast
  have ok: "session_ok device desc st0 (s\<lparr>sess_handler := h\<rparr>)" using assms(1) sw by simp
  have "keeps (good device desc st0) (proceed
      (with_session (s\<lparr>sess_handler := h\<rparr>) (write_all env (sess_assembler s) out w))
      (\<lambda>sw. case t of None \<Rightarrow> Some (None, sw)
        | Some t \<Rightarrow> if Empty t then Some (None, sw) else Some (None, take_telemetry env device desc t sw)))" for out t
    using ok by (intro keeps_proceed keeps_writes) (auto intro!: keepsI take_telemetry_ok split: option.split prod.split)
  then show ?thesis
    using ok by (auto simp: handle_packet_def sw r Let_def intro!: keepsI split: sum.split)
qed

lemma keeps_processPacket:
  "good device desc st0 sw \<Longrightarrow> typed_lib (proto env) \<Longrightarrow>
   keeps (good device desc st0) (processPacket env device desc p sw)"
  unfolding processPacket_def by (intro keeps_proceed keeps_answer_time keeps_handle_packet)

lemma keeps_process_pending:
  "good device desc st0 sw \<Longrightarrow> typed_lib (proto env) \<Longrightarrow>
   keeps (good device desc st0) (process_pending env device desc ps sw)"
  by (induction ps arbitrary: sw) (auto intro!: keeps_proceed keeps_processPacket)

lemma keeps_process_payload:
  assumes "good device desc st0 sw" "typed_lib (proto env)"
  shows "keeps (good device desc st0) (process_payload env device desc p sw)"
proof -
  obtain r where "ParsePacket p (XORPayload desc) = Some r" using ParsePacket_total by blast
  with assms show ?thesis
    by (cases r) (auto simp: process_payload_def intro!: keepsI keeps_processPacket)
qed

lemma keeps_process_payloads:
  "good device desc st0 sw \<Longrightarrow> typed_lib (proto env) \<Longrightarrow>
   keeps (good device desc st0) (process_payloads env device desc ps sw)"
  by (induction ps arbitrary: sw) (auto intro!: keeps_proceed keeps_process_payload)

lemma keeps_receive:
  assumes "good device desc st0 sw" "typed_lib (proto env)"
  shows "keeps (good device desc st0) (receive env device desc c sw)"
proof -
  obtain s w where sw: "sw = (s, w)" by force
  obtain now w' where now: "Now env w = (now, w')" by force
  have ok: "session_ok device desc st0 s" using assms(1) sw by simp
  then have "wf_assembler (sess_assembler s)" by (simp add: session_ok_def)
  then obtain r a where R: "Reassemble (sess_assembler s) c = Some (r, a)" "wf_assembler a"
    by (rule Reassemble_wf)
  with ok have "session_ok device desc st0 (s\<lparr>lastPacket := nanos now, sess_assembler := a\<rparr>)"
    by (simp add: session_ok_def)
  then show ?thesis
    using R assms(2) by (cases r) (auto simp: receive_def sw now intro!: keepsI keeps_process_payloads)
qed

lemma stale_transition_ok:
  assumes "good device desc st0 sw"
  shows "good device desc st0 (stale_transition env device desc t now sw)"
proof -
  obtain s w where sw: "sw = (s, w)" by force
  obtain st w2 where u: "upsert_now env device (staleVars device (Model desc) (Serial desc)) (sess_store s) w = (st, w2)"
    by force
  from assms sw have "wf_store (sess_store s)" "others_kept device st0 (sess_store s)"
    by (simp_all add: session_ok_def)
  from upsert_now_kept [OF this wf_staleVars u] show ?thesis
    using assms by (auto simp: stale_transition_def sw u session_ok_def entry_waits_def)
qed

lemma keeps_tick:
  assumes "good device desc st0 sw"
  shows "keeps (good device desc st0) (tick env device desc p t sw)"
proof -
  obtain s w where sw: "sw = (s, w)" by force
  obtain now w' where now: "Now env w = (now, w')" by force
  obtain s1 w1 where st: "stale_transition env device desc t (nanos now) (s, w') = (s1, w1)" by force
  have "session_ok device desc st0 s1"
    using stale_transition_ok [of device desc st0 "(s, w')" env t "nanos now"] assms by (simp add: sw st)
  then show ?thesis
    unfolding tick_def sw
    by (auto simp: now st intro!: keeps_proceed keeps_write keepsI)
qed

section \<open>Whole sessions\<close>

text \<open>How a session uses its events: it goes on only while the context is not done, and ends with
  an error at the latest at the first choice of the context.\<close>

definition used :: "event list \<Rightarrow> ending \<Rightarrow> event list \<Rightarrow> bool" where
  "used es r es' \<longleftrightarrow> (\<exists>pre. es = pre @ es' \<and>
     (case r of
        Running \<Rightarrow> es' = [] \<and> CtxDone \<notin> set pre
      | Ended None \<Rightarrow> True
      | Ended (Some e) \<Rightarrow> CtxDone \<notin> set (butlast pre)))"

lemma used_now [simp]: "used es (Ended r) es" "used [] Running []"
  by (auto simp: used_def split: option.split intro: exI [of _ "[]"])

lemma used_first: "used (e # es) (Ended r) es"
  by (auto simp: used_def split: option.split intro: exI [of _ "[e]"])

lemma used_append:
  assumes "used es r es'" "CtxDone \<notin> set pre"
  shows "used (pre @ es) r es'"
proof -
  from assms(1) obtain pre2 where "es = pre2 @ es'"
    "case r of Running \<Rightarrow> es' = [] \<and> CtxDone \<notin> set pre2 | Ended None \<Rightarrow> True
      | Ended (Some e) \<Rightarrow> CtxDone \<notin> set (butlast pre2)"
    unfolding used_def by blast
  then show ?thesis
    using assms(2) unfolding used_def
    by (intro exI [of _ "pre @ pre2"])
      (auto simp: butlast_append dest: in_set_butlastD split: ending.splits option.splits)
qed

lemma session_step_ok:
  assumes "good device desc st0 sw" "typed_lib (proto env)"
  shows "\<exists>r sw'. session_step env device desc p t e sw = Some (r, sw') \<and> good device desc st0 sw' \<and>
    (r = Running \<longrightarrow> e \<noteq> CtxDone)"
proof (cases e)
  case (Chunk c)
  then show ?thesis
    using keeps_receive [OF assms, of c] by (force simp: session_step_def keeps_def)
next
  case Timer
  then show ?thesis
    using keeps_tick [OF assms(1), of env p t] by (force simp: session_step_def keeps_def)
qed (use assms in \<open>simp add: session_step_def\<close>)

lemma session_loop_ok:
  assumes "good device desc st0 sw" "typed_lib (proto env)"
  shows "\<exists>r es' sw'. session_loop env device desc p t es sw = Some (r, es', sw') \<and>
    good device desc st0 sw' \<and> used es r es'"
  using assms(1)
proof (induction es arbitrary: sw)
  case (Cons e es)
  obtain r sw' where step: "session_step env device desc p t e sw = Some (r, sw')" "good device desc st0 sw'"
    "r = Running \<longrightarrow> e \<noteq> CtxDone"
    using session_step_ok [OF Cons.prems assms(2)] by blast
  show ?case
  proof (cases r)
    case Running
    with step have "CtxDone \<notin> set [e]" by simp
    from Cons.IH [OF step(2)] obtain r2 es' sw2 where
      "session_loop env device desc p t es sw' = Some (r2, es', sw2)" "good device desc st0 sw2" "used es r2 es'"
      by blast
    with used_append [OF this(3) \<open>CtxDone \<notin> set [e]\<close>] step Running show ?thesis by auto
  next
    case (Ended x)
    with step show ?thesis by (auto intro: used_first)
  qed
qed simp

text \<open>What holds of the store whenever control is back in the reconnect loop.\<close>

definition device_entry :: "Device \<Rightarrow> Store \<Rightarrow> Store \<Rightarrow> bool" where
  "device_entry device st0 st \<longleftrightarrow> wf_store st \<and> others_kept device st0 st \<and>
     (entry_waits device st \<or> (\<exists>desc t. entry_lives device desc t st))"

definition device_waits :: "Device \<Rightarrow> Store \<Rightarrow> Store \<Rightarrow> bool" where
  "device_waits device st0 st \<longleftrightarrow> wf_store st \<and> others_kept device st0 st \<and> entry_waits device st"

lemma device_waits_entry: "device_waits device st0 st \<Longrightarrow> device_entry device st0 st"
  by (simp add: device_waits_def device_entry_def)

lemma session_ok_entry: "session_ok device desc st0 s \<Longrightarrow> device_entry device st0 (sess_store s)"
  by (auto simp: session_ok_def device_entry_def split: if_splits)

text \<open>Results of the session functions: no panic, the entry of the device and the events used.\<close>

definition session_returns ::
  "Device \<Rightarrow> Store \<Rightarrow> event list \<Rightarrow> (ending \<times> event list \<times> Store \<times> 'w) option \<Rightarrow> bool" where
  "session_returns device st0 es m \<longleftrightarrow>
     (\<exists>r es' st' w'. m = Some (r, es', st', w') \<and> device_entry device st0 st' \<and> used es r es')"

lemma session_returns_now [intro]:
  "device_entry device st0 st \<Longrightarrow> session_returns device st0 es (Some (Ended r, es, st, w))"
  by (simp add: session_returns_def)

lemma serve_returns:
  assumes "wf_assembler a" "device_waits device st0 st" "typed_lib (proto env)" "0 < duration (PollSeconds (Provider cfg))"
  shows "session_returns device st0 es (serve env cfg device desc h a pend es st w)"
proof -
  obtain now w1 where now: "Now env w = (now, w1)" by force
  define s where "s = \<lparr>sess_assembler = a, sess_handler = h, responder = \<lparr>lastSent = None\<rparr>, lastPacket = nanos now,
    lastFresh = None, isStale = True, latestTelemetry = no_telemetry, sess_store = st\<rparr>"
  have good: "good device desc st0 (s, w1)"
    using assms by (simp add: session_ok_def s_def device_waits_def)
  from keeps_process_pending [OF this assms(3)] obtain r sw2 where
    p: "process_pending env device desc pend (s, w1) = Some (r, sw2)" "good device desc st0 sw2"
    unfolding keeps_def by blast
  obtain s2 w2 where sw2: "sw2 = (s2, w2)" by force
  note serve = serve_def Let_def now s_def [symmetric] p(1) sw2
  show ?thesis
  proof (cases r)
    case None
    from session_loop_ok [OF p(2) assms(3)] obtain r3 es3 s3 w3 where
      "session_loop env device desc (duration (PollSeconds (Provider cfg)))
         (duration (StaleTimeoutSeconds device)) es sw2 = Some (r3, es3, s3, w3)"
      "session_ok device desc st0 s3" "used es r3 es3"
      by fast
    then show ?thesis
      using None assms(4) by (simp add: serve session_returns_def session_ok_entry)
  next
    case (Some e)
    then show ?thesis
      using p(2) assms(4) by (auto simp: serve intro: session_ok_entry)
  qed
qed

lemma used_prefix:
  "session_returns device st0 es m \<Longrightarrow> CtxDone \<notin> set pre \<Longrightarrow> session_returns device st0 (pre @ es) m"
  unfolding session_returns_def using used_append by blast

lemma chunks_not_done: "list_all is_chunk pre \<Longrightarrow> CtxDone \<notin> set pre"
  by (force simp: list_all_iff)

lemma connected_returns:
  assumes "device_waits device st0 st" "typed_lib (proto env)" "0 < duration (PollSeconds (Provider cfg))"
  shows "session_returns device st0 es (connected env cfg device desc userID es st w)"
proof -
  note entry = device_waits_entry [OF assms(1)]
  obtain n w1 where n: "StartNotifications env w = (n, w1)" by force
  from runs_bootstrapSession [of es env desc userID w1] obtain b pre es1 w2 where
    b: "bootstrapSession env desc userID es w1 = Some (b, es1, w2)" "es = pre @ es1"
    and r: "case b of Waiting \<Rightarrow> es1 = [] \<and> list_all is_chunk pre | Failed e \<Rightarrow> list_all is_chunk (butlast pre)
      | Got (a, pend) \<Rightarrow> list_all is_chunk pre \<and> wf_assembler a"
    unfolding runs_def by (force split: awaited.splits)
  have "session_returns device st0 es (case b of Waiting \<Rightarrow> Some (Running, es1, st, w2)
      | Failed e \<Rightarrow> Some (Ended (Some e), es1, st, w2)
      | Got (a, pend) \<Rightarrow> serve env cfg device desc h a pend es1 st w2)" for h
  proof (cases b)
    case Waiting
    then show ?thesis
      using b(2) r entry chunks_not_done by (auto simp: session_returns_def used_def)
  next
    case (Failed e)
    then show ?thesis
      using b(2) r entry chunks_not_done by (auto simp: session_returns_def used_def)
  next
    case (Got ap)
    obtain a pend where "ap = (a, pend)" by force
    then show ?thesis
      using Got b(2) r used_prefix [OF serve_returns [OF _ assms]] chunks_not_done by auto
  qed
  then show ?thesis
    using entry by (auto simp: connected_def n b(1) split: option.split awaited.split prod.split)
qed

lemma session_returns_closing:
  "session_returns device st0 es m \<Longrightarrow> session_returns device st0 es (closing env m)"
  by (auto simp: session_returns_def closing_def)

lemma runSession_returns:
  assumes "device_waits device st0 st" "typed_lib (proto env)" "0 < duration (PollSeconds (Provider cfg))"
  shows "session_returns device st0 es (runSession env cfg device userID es st w)"
  using device_waits_entry [OF assms(1)]
  by (auto simp: runSession_def Let_def intro!: session_returns_closing connected_returns assms
      split: prod.split sum.split option.split)

section \<open>The reconnect loop\<close>

definition device_result ::
  "Device \<Rightarrow> Store \<Rightarrow> (ending \<times> event list \<times> Store \<times> 'w) option \<Rightarrow> bool" where
  "device_result device st0 m \<longleftrightarrow>
     (\<exists>r es' st' w'. m = Some (r, es', st', w') \<and> device_entry device st0 st' \<and> r \<in> {Running, Ended None})"

lemma upsert_stale_waits:
  assumes "wf_store st" "others_kept device st0 st"
    "upsert_now env device (staleVars device m n) st w = (st', w')"
  shows "device_waits device st0 st'"
  using upsert_now_kept [OF assms(1,2) wf_staleVars assms(3)]
  by (auto simp: device_waits_def entry_waits_def)

lemma device_loop_result:
  assumes "typed_lib (proto env)" "0 < duration (PollSeconds (Provider cfg))"
  shows "device_waits device st0 st \<Longrightarrow> device_result device st0 (runDevice_loop env cfg device userID es st w)"
    and "device_waits device st0 st \<Longrightarrow> device_result device st0 (reconnect env cfg device userID es st w)"
  using assms
proof (induction env cfg device userID es st w and env cfg device userID es st w rule: runDevice_loop_reconnect.induct)
  case (1 env cfg device userID es st w)
  from runSession_returns [OF 1(2-4)] obtain r es1 st1 w1 where
    r: "runSession env cfg device userID es st w = Some (r, es1, st1, w1)" "device_entry device st0 st1"
    unfolding session_returns_def by blast
  obtain st2 w2 where u: "upsert_now env device (staleVars device (d_Model device) (d_Serial device)) st1 w1 = (st2, w2)"
    by force
  have waits: "device_waits device st0 st2"
    using r(2) upsert_stale_waits [OF _ _ u] by (simp add: device_entry_def)
  show ?case
  proof (cases r)
    case (Ended x)
    show ?thesis
    proof (cases "x = None \<or> ctx_Err env w1")
      case False
      from 1(1) [OF r(1) refl Ended refl refl False refl u [symmetric] waits 1(3,4)] show ?thesis
        using r(1) Ended False u by (auto simp: runDevice_loop.simps [of env])
    qed (use r Ended in \<open>simp add: runDevice_loop.simps [of env] device_result_def\<close>)
  qed (use r in \<open>simp add: runDevice_loop.simps [of env] device_result_def\<close>)
qed (auto simp: device_result_def intro: device_waits_entry)

definition stops :: "event list \<Rightarrow> bool" where
  "stops es \<longleftrightarrow> es = [CtxDone] \<or> (\<exists>pre. es = pre @ [CtxDone, CtxDone])"

lemma stops_suffix:
  assumes "pre @ [CtxDone, CtxDone] = p @ es'" "CtxDone \<notin> set (butlast p)"
  shows "stops es'"
proof (cases es' rule: rev_cases)
  case Nil
  then have "p = pre @ [CtxDone, CtxDone]" using assms(1) by simp
  with assms(2) show ?thesis by (simp add: butlast_append)
next
  case (snoc es2 x)
  then have "pre @ [CtxDone] = p @ es2 \<and> x = CtxDone" using assms(1) by (simp flip: append_assoc)
  then show ?thesis
    using snoc by (cases es2 rule: rev_cases) (auto simp: stops_def)
qed

lemma stops_simps [simp]:
  "\<not> stops []" "stops (Timer # es) = (\<exists>pre. es = pre @ [CtxDone, CtxDone])"
  "stops (Chunk c # es) = (\<exists>pre. es = pre @ [CtxDone, CtxDone])"
  by (auto simp: stops_def Cons_eq_append_conv)

lemma device_loop_stops:
  "runDevice_loop env cfg device userID es st w = Some (r, es', st', w') \<Longrightarrow> device_waits device st0 st \<Longrightarrow>
     typed_lib (proto env) \<Longrightarrow> 0 < duration (PollSeconds (Provider cfg)) \<Longrightarrow>
     es = pre @ [CtxDone, CtxDone] \<Longrightarrow> r \<noteq> Running"
  "reconnect env cfg device userID es st w = Some (r, es', st', w') \<Longrightarrow> device_waits device st0 st \<Longrightarrow>
     typed_lib (proto env) \<Longrightarrow> 0 < duration (PollSeconds (Provider cfg)) \<Longrightarrow> stops es \<Longrightarrow> r \<noteq> Running"
proof (induction env cfg device userID es st w and env cfg device userID es st w
    arbitrary: pre and rule: runDevice_loop_reconnect.induct)
  case (1 env cfg device userID es st w)
  from runSession_returns [OF 1(3-5)] obtain x es1 st1 w1 where
    x: "runSession env cfg device userID es st w = Some (x, es1, st1, w1)" "device_entry device st0 st1" "used es x es1"
    unfolding session_returns_def by blast
  obtain st2 w2 where u: "upsert_now env device (staleVars device (d_Model device) (d_Serial device)) st1 w1 = (st2, w2)"
    by force
  have waits: "device_waits device st0 st2"
    using x(2) upsert_stale_waits [OF _ _ u] by (simp add: device_entry_def)
  show ?case
  proof (cases x)
    case Running
    with x(3) 1(6) show ?thesis by (auto simp: used_def)
  next
    case (Ended y)
    show ?thesis
    proof (cases "y = None \<or> ctx_Err env w1")
      case True
      with 1(2) x(1) Ended show ?thesis by (auto simp: runDevice_loop.simps [of env])
    next
      case False
      then obtain e where "y = Some e" by auto
      then have "stops es1" using x(3) 1(6) Ended by (auto simp: used_def intro: stops_suffix)
      moreover have "reconnect env cfg device userID es1 st2 w2 = Some (r, es', st', w')"
        using 1(2) x(1) Ended False u by (simp add: runDevice_loop.simps [of env])
      ultimately show ?thesis
        using 1(1) [OF x(1) refl Ended refl refl False refl u [symmetric]] waits 1(4,5) by blast
    qed
  qed
qed (auto simp: stops_def Cons_eq_append_conv)

lemma duration_small: "0 < n \<Longrightarrow> n \<le> 9223372036 \<Longrightarrow> duration n = n * Second"
  unfolding duration_def Second_def sint_sbintrunc' by (simp add: signed_take_bit_int_eq_self_iff)

text \<open>A poll interval of 9223372037 seconds, which \<open>Load\<close> accepts, wraps to a negative period.\<close>

lemma huge_poll_panics:
  "PollSeconds (Provider cfg) = 9223372037 \<Longrightarrow> serve env cfg device desc h a pend es st w = None"
proof -
  have "duration 9223372037 < 0"
    unfolding duration_def Second_def sint_sbintrunc' by (simp add: signed_take_bit_int_greater_eq)
  then show "PollSeconds (Provider cfg) = 9223372037 \<Longrightarrow> ?thesis" by (simp add: serve_def Let_def)
qed

text \<open>The whole loop, from its first publication.\<close>

lemma runDevice_result:
  assumes "typed_lib (proto env)" "0 < PollSeconds (Provider cfg)" "PollSeconds (Provider cfg) \<le> 9223372036"
    "wf_store st"
  shows "\<exists>r es' st' w'. runDevice env cfg device userID es st w = Some (r, es', st', w') \<and>
    r \<in> {Running, Ended None} \<and> device_entry device st st'"
proof -
  obtain st1 w1 where u: "upsert_now env device (staleVars device (d_Model device) (d_Serial device)) st w = (st1, w1)"
    by force
  have "others_kept device st st" by (simp add: others_kept_def)
  from upsert_stale_waits [OF assms(4) this u] have "device_waits device st st1" .
  moreover have "0 < duration (PollSeconds (Provider cfg))"
    using duration_small [OF assms(2,3)] assms(2) by (simp add: Second_def)
  ultimately have "device_result device st (runDevice_loop env cfg device userID es st1 w1)"
    using assms(1) by (intro device_loop_result)
  then show ?thesis by (auto simp: runDevice_def u device_result_def)
qed

lemma runDevice_stops:
  assumes "typed_lib (proto env)" "0 < PollSeconds (Provider cfg)" "PollSeconds (Provider cfg) \<le> 9223372036"
    "wf_store st"
  shows "\<exists>es' st' w'. runDevice env cfg device userID (es @ [CtxDone, CtxDone]) st w = Some (Ended None, es', st', w')"
proof -
  obtain st1 w1 where u: "upsert_now env device (staleVars device (d_Model device) (d_Serial device)) st w = (st1, w1)"
    by force
  have "others_kept device st st" by (simp add: others_kept_def)
  from upsert_stale_waits [OF assms(4) this u] have waits: "device_waits device st st1" .
  have p: "0 < duration (PollSeconds (Provider cfg))"
    using duration_small [OF assms(2,3)] assms(2) by (simp add: Second_def)
  from runDevice_result [OF assms, of device userID "es @ [CtxDone, CtxDone]" w] obtain r es' st' w' where
    r: "runDevice env cfg device userID (es @ [CtxDone, CtxDone]) st w = Some (r, es', st', w')" "r \<in> {Running, Ended None}"
    by blast
  moreover from r(1) have "runDevice_loop env cfg device userID (es @ [CtxDone, CtxDone]) st1 w1 = Some (r, es', st', w')"
    by (simp add: runDevice_def u)
  from device_loop_stops(1) [OF this waits assms(1) p refl] have "r \<noteq> Running" .
  ultimately show ?thesis by blast
qed

section \<open>Properties\<close>

text \<open>C8: Whatever the device, the link and the clock do, and with a configured poll interval between 1
  and 9223372036 seconds (a longer one overflows the duration and panics): the loop of a device
  neither panics nor fails: it is still running or has returned without an error.  Its entry in
  the store is the waiting or a live one, and no other entry has been touched.\<close>

theorem device_loop_safe:
  assumes "typed_lib (proto env)" "0 < PollSeconds (Provider cfg)" "PollSeconds (Provider cfg) \<le> 9223372036"
    "wf_store st"
  shows "\<exists>r es' st' w'. runDevice env cfg device userID es st w = Some (r, es', st', w') \<and>
    r \<in> {Running, Ended None} \<and> wf_store st' \<and>
    (\<forall>n. n \<noteq> d_Name device \<longrightarrow> Get st' n = Get st n) \<and>
    (entry_waits device st' \<or> (\<exists>desc t. entry_lives device desc t st'))"
  using runDevice_result [OF assms] unfolding device_entry_def others_kept_def by blast

text \<open>C16: A cancelled device stops: when the context stays done, at whatever point of a session, a
  handshake or the reconnect delay that is, the loop returns, with a poll interval between 1 and
  9223372036 seconds.\<close>

theorem device_stops:
  assumes "typed_lib (proto env)" "0 < PollSeconds (Provider cfg)" "PollSeconds (Provider cfg) \<le> 9223372036"
    "wf_store st"
  shows "\<exists>es' st' w'. runDevice env cfg device userID (es @ [CtxDone, CtxDone]) st w = Some (Ended None, es', st', w')"
  using assms by (rule runDevice_stops)

text \<open>C3: The state of a session and the store agree after any sequence of events: a fresh session
  publishes the live variables of its merged telemetry, a stale one the waiting state, and the
  other devices keep their entries.\<close>

theorem session_publishes:
  assumes "typed_lib (proto env)" "session_ok device desc st0 s"
  shows "\<exists>r es' s' w'. session_loop env device desc p t es (s, w) = Some (r, es', s', w') \<and>
    session_ok device desc st0 s'"
  using session_loop_ok [of device desc st0 "(s, w)" env p t es] assms by fastforce

text \<open>C25: A tick of the poll timer puts the store right: when the last telemetry, of whatever
  fields, arrived the stale timeout ago or earlier, or never, the entry of the device shows the
  waiting state afterwards; otherwise the entry is left as it was, and is still live if it was.
  After two silent poll intervals the tick ends the session with an error.\<close>

theorem tick_bounds_staleness:
  assumes "session_ok device desc st0 s" "now = nanos (fst (Now env w))"
  shows "\<exists>r s' w'. tick env device desc p t (s, w) = Some (r, s', w') \<and>
    (if \<exists>f. lastFresh s = Some f \<and> now - f < t
     then sess_store s' = sess_store s \<and>
       (\<not> isStale s \<longrightarrow> entry_lives device desc (latestTelemetry s) (sess_store s'))
     else entry_waits device (sess_store s')) \<and>
    (now - lastPacket s \<ge> twice p \<longrightarrow> r \<noteq> None)"
proof -
  obtain c w1 where c: "Now env w = (c, w1)" "now = nanos c" using assms(2) by (cases "Now env w") simp
  obtain s1 w2 where st: "stale_transition env device desc t now (s, w1) = (s1, w2)" by force
  have ok: "session_ok device desc st0 s1"
    using stale_transition_ok [of device desc st0 "(s, w1)" env t now] assms(1) st by simp
  from st have s1: "sess_assembler s1 = sess_assembler s" "lastPacket s1 = lastPacket s"
    "staleAfter (lastFresh s) t now \<longrightarrow> isStale s1" "\<not> staleAfter (lastFresh s) t now \<longrightarrow> s1 = s"
    by (auto simp: stale_transition_def split: if_splits prod.splits)
  have stale: "staleAfter (lastFresh s) t now \<longleftrightarrow> \<not> (\<exists>f. lastFresh s = Some f \<and> now - f < t)"
    by (auto simp: staleAfter_def split: option.splits)
  have "wf_assembler (sess_assembler s)" using assms(1) by (simp add: session_ok_def)
  from writePacket_total [OF this] obtain e w3 where
    wr: "writePacket env (sess_assembler s) (authStatusPacket desc) w2 = Some (e, w3)" by fastforce
  have "\<exists>r w'. tick env device desc p t (s, w) = Some (r, s1, w') \<and>
      (now - lastPacket s \<ge> twice p \<longrightarrow> r \<noteq> None)"
    using st s1(1,2) wr c by (cases e) (auto simp: tick_def proceed_def with_session_def)
  moreover have "if \<exists>f. lastFresh s = Some f \<and> now - f < t
      then sess_store s1 = sess_store s \<and> (\<not> isStale s \<longrightarrow> entry_lives device desc (latestTelemetry s) (sess_store s1))
      else entry_waits device (sess_store s1)"
  proof (cases "staleAfter (lastFresh s) t now")
    case True
    with s1(3) ok have "entry_waits device (sess_store s1)" by (simp add: session_ok_def)
    with True stale show ?thesis by auto
  next
    case False
    with s1(4) assms(1) have "s1 = s" "\<not> isStale s \<longrightarrow> entry_lives device desc (latestTelemetry s) (sess_store s)"
      by (simp_all add: session_ok_def)
    with False stale show ?thesis by auto
  qed
  ultimately show ?thesis by blast
qed

text \<open>Telemetry from before a stale period comes back as fresh: the first report after it,
  whatever it contains, publishes the old value of every field it leaves out.\<close>

theorem stale_values_republished:
  assumes "isStale s" "Charge (latestTelemetry s) = Some c" "Charge t = None"
  shows "\<exists>s' w' u. take_telemetry env device desc t (s, w) = (s', w') \<and> \<not> isStale s' \<and>
    Get (sess_store s') (d_Name device) = Some u \<and> map_get (Vars u) ''battery.charge'' = Some (FormatInt c)"
  using assms
  by (auto simp: take_telemetry_def upsert_now_def store.get_upsert liveVars_get telemetry_keys_def
      telemetry_value_def Merge_fields later_def split: prod.split)

section \<open>A sample session\<close>

definition sample_session :: session where
  "sample_session = \<lparr>sess_assembler = PassAssembler \<lparr>pass_buffer = []\<rparr>,
     sess_handler = V2Handler (newV2Handler ProfileDelta2), responder = \<lparr>lastSent = None\<rparr>,
     lastPacket = - 60 * Second, lastFresh = Some (- 60 * Second), isStale = True,
     latestTelemetry = no_telemetry\<lparr>Charge := Some 80\<rparr>,
     sess_store = Upsert New ''delta2'' ''living room'' (staleVars sample_device [] []) 0\<rparr>"

lemma sample_session_ok: "session_ok sample_device sample_descriptor New sample_session"
  by (auto simp: session_ok_def sample_session_def sample_device_def others_kept_def entry_waits_def
      store.get_upsert wf_Upsert wf_New)

lemma sample_poll: "PollSeconds (Provider sample_config) = 15"
  by (simp add: sample_config_def sample_file_def config_defaults_def provider_defaults_def zero_config_def
      default_int_def)

lemma sample_env_typed: "typed_lib (proto sample_env)"
  using sample_lib_typed by (simp add: sample_env_def)

theorem device_loop_safe_witness:
  "\<exists>r es' st' w'. runDevice sample_env sample_config sample_device ''user'' [Chunk [1], Timer] New [] = Some (r, es', st', w') \<and>
    r \<in> {Running, Ended None}"
proof -
  have "0 < PollSeconds (Provider sample_config)" "PollSeconds (Provider sample_config) \<le> 9223372036"
    by (simp_all add: sample_poll)
  from device_loop_safe [OF sample_env_typed this wf_New] show ?thesis by fast
qed

theorem device_stops_witness:
  "\<exists>es' st' w'. runDevice sample_env sample_config sample_device ''user'' ([Chunk [1], Timer] @ [CtxDone, CtxDone]) New [] =
    Some (Ended None, es', st', w')"
proof -
  have "0 < PollSeconds (Provider sample_config)" "PollSeconds (Provider sample_config) \<le> 9223372036"
    by (simp_all add: sample_poll)
  from device_stops [OF sample_env_typed this wf_New] show ?thesis .
qed

theorem session_publishes_witness:
  "\<exists>r es' s' w'. session_loop sample_env sample_device sample_descriptor 15 60 [Chunk [0xAA], Timer] (sample_session, []) =
    Some (r, es', s', w') \<and> session_ok sample_device sample_descriptor New s'"
  by (rule session_publishes [OF sample_env_typed sample_session_ok])

theorem tick_bounds_staleness_witness:
  "\<exists>e s' w'. tick sample_env sample_device sample_descriptor (15 * Second) (60 * Second) (sample_session, []) =
    Some (Some e, s', w') \<and> entry_waits sample_device (sess_store s')"
proof -
  have "twice (15 * Second) = 30 * Second"
    by (simp add: twice_def Second_def sint_sbintrunc' signed_take_bit_int_eq_self_iff)
  then show ?thesis
    using tick_bounds_staleness [OF sample_session_ok, of 0 sample_env "[]" "15 * Second" "60 * Second"]
    by (auto simp: sample_session_def sample_env_def Second_def)
qed

theorem stale_values_republished_witness:
  "\<exists>s' w' u. take_telemetry sample_env sample_device sample_descriptor (no_telemetry\<lparr>OutputPower := Some 5\<rparr>) (sample_session, []) =
      (s', w') \<and> \<not> isStale s' \<and> Get (sess_store s') (d_Name sample_device) = Some u \<and>
      map_get (Vars u) ''battery.charge'' = Some (FormatInt 80)"
  by (rule stale_values_republished) (simp_all add: sample_session_def no_telemetry_def)

end
