(* ===== verification/Nut.thy ===== *)
theory Nut
  imports Store Config
begin

text \<open>
  \<open>internal/nut/server.go\<close>: the commands of the NUT protocol over the store, and the loop of
  a client connection.  A connection is the sequence of complete lines it reads, each with the
  store as it is at that moment; a run of the listener is the sequence of results of \<open>Accept\<close>.
\<close>

section \<open>Responses\<close>

abbreviation newline :: char where "newline \<equiv> CHR 0x0A"

definition quote :: "string \<Rightarrow> string" where
  "quote v = CHR 0x22 # concat (map (\<lambda>c. if c = CHR 0x22 then [CHR 0x5C, CHR 0x22] else [c]) v) @ [CHR 0x22]"

definition line_of :: "string list \<Rightarrow> string" where
  "line_of ws = concat (map (\<lambda>w. w @ '' '') (butlast ws)) @ last ws @ [newline]"

datatype answer = Answer (resp: string) (closeConn: bool) (authed: bool)

definition ups_line :: "Store \<Rightarrow> string \<Rightarrow> string" where
  "ups_line store name =
     (case Get store name of
        Some u \<Rightarrow> line_of [''UPS'', u_Name u, quote (u_Description u)] | None \<Rightarrow> [])"

definition var_line :: "UPS \<Rightarrow> string \<Rightarrow> string \<Rightarrow> string" where
  "var_line u k v = line_of [''VAR'', u_Name u, k, quote v]"

definition list_ups :: "Store \<Rightarrow> string" where
  "list_ups store =
     line_of [''BEGIN'', ''LIST'', ''UPS''] @ concat (map (ups_line store) (Names store)) @
     line_of [''END'', ''LIST'', ''UPS'']"

definition list_var :: "UPS \<Rightarrow> string" where
  "list_var u =
     line_of [''BEGIN'', ''LIST'', ''VAR'', u_Name u] @
     concat (map (\<lambda>k. var_line u k (the (map_get (Vars u) k))) (sorted_keys (Vars u))) @
     line_of [''END'', ''LIST'', ''VAR'', u_Name u]"

definition err :: "string \<Rightarrow> string" where
  "err e = line_of [''ERR'', e]"

section \<open>Commands\<close>

text \<open>The two switches of \<open>command\<close>, on the fields of the line.\<close>

definition list_command :: "Store \<Rightarrow> string list \<Rightarrow> string" where
  "list_command store ws =
     (if length ws < 2 then err ''INVALID-ARGUMENT''
      else if ToUpper (ws ! 1) = ''UPS'' then list_ups store
      else if ToUpper (ws ! 1) = ''VAR'' then
        (if length ws < 3 then err ''INVALID-ARGUMENT''
         else case Get store (ws ! 2) of
             None \<Rightarrow> err ''UNKNOWN-UPS''
           | Some u \<Rightarrow> list_var u)
      else err ''UNKNOWN-COMMAND'')"

definition get_command :: "Store \<Rightarrow> string list \<Rightarrow> string" where
  "get_command store ws =
     (if length ws < 3 then err ''INVALID-ARGUMENT''
      else if ToUpper (ws ! 1) = ''UPSDESC'' then
        (case Get store (ws ! 2) of
           None \<Rightarrow> err ''UNKNOWN-UPS''
         | Some u \<Rightarrow> line_of [''UPSDESC'', u_Name u, quote (u_Description u)])
      else if ToUpper (ws ! 1) = ''VAR'' then
        (if length ws < 4 then err ''INVALID-ARGUMENT''
         else case Get store (ws ! 2) of
             None \<Rightarrow> err ''UNKNOWN-UPS''
           | Some u \<Rightarrow>
               (case map_get (Vars u) (ws ! 3) of
                  None \<Rightarrow> err ''VAR-NOT-SUPPORTED''
                | Some v \<Rightarrow> var_line u (ws ! 3) v))
      else if ToUpper (ws ! 1) = ''NUMLOGINS'' then line_of [''NUMLOGINS'', ws ! 2, ''1'']
      else err ''UNKNOWN-COMMAND'')"

definition read_command :: "Store \<Rightarrow> string \<Rightarrow> string list \<Rightarrow> string" where
  "read_command store cmd ws =
     (if cmd = ''LIST'' then list_command store ws
      else if cmd = ''GET'' then get_command store ws
      else if cmd = ''PING'' then line_of [''PONG'']
      else err ''UNKNOWN-COMMAND'')"

definition command_fields :: "Config \<Rightarrow> Store \<Rightarrow> string list \<Rightarrow> bool \<Rightarrow> answer" where
  "command_fields cfg store ws ok =
     (if ws = [] then Answer [] False ok
      else
        let cmd = ToUpper (hd ws); a = Auth cfg in
        if cmd = ''VER'' then Answer (line_of [''Network UPS Tools ecoflow-ble-nutd 0.1'']) False ok
        else if cmd = ''USERNAME'' then
          (if length ws < 2 then Answer (err ''INVALID-ARGUMENT'') False ok
           else if Username a = [] \<or> ws ! 1 = Username a then Answer (line_of [''OK'']) False ok
           else Answer (err ''ACCESS-DENIED'') False ok)
        else if cmd = ''PASSWORD'' then
          (if length ws < 2 then Answer (err ''INVALID-ARGUMENT'') False ok
           else if Password a = [] \<or> ws ! 1 = Password a then Answer (line_of [''OK'']) False True
           else Answer (err ''ACCESS-DENIED'') False ok)
        else if cmd \<in> {''LOGIN'', ''PRIMARY'', ''MASTER'', ''FSD''} then
          (if \<not> ok then Answer (err ''ACCESS-DENIED'') False ok else Answer (line_of [''OK'']) False ok)
        else Answer (read_command store cmd ws) False ok)"

definition command :: "Config \<Rightarrow> Store \<Rightarrow> string \<Rightarrow> bool \<Rightarrow> answer" where
  "command cfg store l ok = command_fields cfg store (Fields l) ok"

section \<open>The loop of a connection\<close>

fun handle_lines :: "Config \<Rightarrow> bool \<Rightarrow> (string \<times> Store) list \<Rightarrow> string list" where
  "handle_lines cfg ok [] = []"
| "handle_lines cfg ok ((l, store) # ls) =
     (let l = TrimSpace l in
      if l = [] then handle_lines cfg ok ls
      else if EqualFold l ''LOGOUT'' \<or> EqualFold l ''QUIT'' then []
      else
        case command cfg store l ok of
          Answer r close ok' \<Rightarrow>
            (if r \<noteq> [] then [r] else []) @ (if close then [] else handle_lines cfg ok' ls))"

definition initially_authed :: "Config \<Rightarrow> bool" where
  "initially_authed cfg \<longleftrightarrow> Username (Auth cfg) = [] \<and> Password (Auth cfg) = []"

definition handle :: "Config \<Rightarrow> (string \<times> Store) list \<Rightarrow> string list" where
  "handle cfg ls = handle_lines cfg (initially_authed cfg) ls"

section \<open>The listener\<close>

text \<open>A result of \<open>Accept\<close>: a connection, whose goroutine is \<open>handle\<close>, or an error, with
  \<open>ctx.Err() != nil\<close> at that moment.\<close>

datatype accepted = Connection | AcceptFailed go_error bool

text \<open>\<open>None\<close> is a server that is still accepting.\<close>

fun accept_loop :: "accepted list \<Rightarrow> go_error option option" where
  "accept_loop [] = None"
| "accept_loop (Connection # as) = accept_loop as"
| "accept_loop (AcceptFailed e stopped # as) = Some (if stopped then None else Some e)"

definition nut_Run :: "go_error option \<Rightarrow> accepted list \<Rightarrow> go_error option option" where
  "nut_Run listen as = (case listen of Some e \<Rightarrow> Some (Some e) | None \<Rightarrow> accept_loop as)"

text \<open>Clients never end the server: it returns for a failed listener only, and without an error
  exactly when the context was done by then.\<close>

lemma nut_Run_result:
  "nut_Run None (replicate k Connection @ AcceptFailed e stopped # as) = Some (if stopped then None else Some e)"
  "nut_Run None (replicate k Connection) = None"
  by (induction k) (simp_all add: nut_Run_def)

section \<open>What a client reads\<close>

text \<open>A quoted value, as the NUT client library reads it: a backslash takes the next character
  as it is.\<close>

fun unquote_body :: "string \<Rightarrow> (string \<times> string) option" where
  "unquote_body [] = None"
| "unquote_body [c] = (if c = CHR 0x22 then Some ([], []) else None)"
| "unquote_body (c # d # s) =
     (if c = CHR 0x22 then Some ([], d # s)
      else if c = CHR 0x5C then map_option (\<lambda>(v, r). (d # v, r)) (unquote_body s)
      else map_option (\<lambda>(v, r). (c # v, r)) (unquote_body (d # s)))"

definition unquote :: "string \<Rightarrow> (string \<times> string) option" where
  "unquote s = (case s of [] \<Rightarrow> None | c # s \<Rightarrow> if c = CHR 0x22 then unquote_body s else None)"

lemma unquote_body_plain:
  "CHR 0x5C \<notin> set v \<Longrightarrow>
   unquote_body (concat (map (\<lambda>c. if c = CHR 0x22 then [CHR 0x5C, CHR 0x22] else [c]) v) @ CHR 0x22 # s) = Some (v, s)"
proof (induction v)
  case Nil
  show ?case by (cases s) simp_all
next
  case (Cons c v)
  let ?r = "concat (map (\<lambda>c. if c = CHR 0x22 then [CHR 0x5C, CHR 0x22] else [c]) v) @ CHR 0x22 # s"
  obtain d t where r: "?r = d # t" by (cases ?r) auto
  from Cons have "unquote_body ?r = Some (v, s)" by simp
  then show ?case using Cons.prems by (auto simp: r)
qed

lemma quote_line: "newline \<in> set (quote v) \<longleftrightarrow> newline \<in> set v"
  by (auto simp: quote_def split: if_splits)

lemma line_of_end: "\<exists>s. line_of ws = s @ [newline]"
  by (simp add: line_of_def)

definition single_line :: "string \<Rightarrow> bool" where
  "single_line r \<longleftrightarrow> (\<exists>s. r = s @ [newline] \<and> newline \<notin> set s)"

lemma line_of_single:
  "ws \<noteq> [] \<Longrightarrow> single_line (line_of ws) \<longleftrightarrow> (\<forall>w \<in> set ws. newline \<notin> set w)"
proof -
  assume "ws \<noteq> []"
  then have "set ws = insert (last ws) (set (butlast ws))"
    by (metis Un_insert_right append_butlast_last_id list.simps(15) set_append sup_bot_right empty_set)
  then show ?thesis by (auto simp: single_line_def line_of_def)
qed

section \<open>Authentication of a connection\<close>

definition protected :: "string list" where
  "protected = [''LOGIN'', ''PRIMARY'', ''MASTER'', ''FSD'']"

definition ends_connection :: "string \<Rightarrow> bool" where
  "ends_connection l \<longleftrightarrow> EqualFold (TrimSpace l) ''LOGOUT'' \<or> EqualFold (TrimSpace l) ''QUIT''"

text \<open>A line with the password: the only thing that authenticates.\<close>

definition gives_password :: "Config \<Rightarrow> string \<Rightarrow> bool" where
  "gives_password cfg l \<longleftrightarrow> (let ws = Fields (TrimSpace l) in
     2 \<le> length ws \<and> ToUpper (hd ws) = ''PASSWORD'' \<and>
     (Password (Auth cfg) = [] \<or> ws ! 1 = Password (Auth cfg)))"

text \<open>A line that sends a credential with a command.\<close>

definition sends :: "string \<Rightarrow> string \<Rightarrow> string \<Rightarrow> bool" where
  "sends cmd v l \<longleftrightarrow> (\<exists>w ws. Fields (TrimSpace l) = w # v # ws \<and> ToUpper w = cmd)"

lemma command_authed:
  "authed (command_fields cfg store ws ok) \<longleftrightarrow> ok \<or>
     (2 \<le> length ws \<and> ToUpper (hd ws) = ''PASSWORD'' \<and> (Password (Auth cfg) = [] \<or> ws ! 1 = Password (Auth cfg)))"
  by (auto simp: command_fields_def Let_def)

lemma command_stays_open: "\<not> closeConn (command_fields cfg store ws ok)"
  by (simp add: command_fields_def Let_def)

lemma TrimSpace_Nil [simp]: "TrimSpace [] = []"
  by (simp add: TrimSpace_def trim_left.simps trim_right_rev.simps space_len_def rev_space_len_def)

lemma Fields_Nil [simp]: "Fields [] = []"
  by (simp add: Fields_def fields_from.simps)

text \<open>The lines before the end of the connection, and whether they have authenticated it.\<close>

lemma handle_lines_append:
  assumes "\<forall>(l, store) \<in> set ls. \<not> ends_connection l"
  shows "handle_lines cfg ok (ls @ ls') =
    handle_lines cfg ok ls @ handle_lines cfg (ok \<or> (\<exists>(l, store) \<in> set ls. gives_password cfg l)) ls'"
  using assms
proof (induction ls arbitrary: ok)
  case (Cons x ls)
  obtain l store where x: "x = (l, store)" by force
  from Cons.prems x have ends: "\<not> EqualFold (TrimSpace l) ''LOGOUT''" "\<not> EqualFold (TrimSpace l) ''QUIT''"
    by (simp_all add: ends_connection_def)
  have IH: "handle_lines cfg k (ls @ ls') =
      handle_lines cfg k ls @ handle_lines cfg (k \<or> (\<exists>(l, store) \<in> set ls. gives_password cfg l)) ls'" for k
    using Cons by simp
  show ?case
  proof (cases "TrimSpace l = []")
    case True
    then show ?thesis using IH [of ok] by (simp add: x gives_password_def)
  next
    case False
    obtain r ok' where a: "command cfg store (TrimSpace l) ok = Answer r False ok'"
      using command_stays_open [of cfg store "Fields (TrimSpace l)" ok]
      by (cases "command cfg store (TrimSpace l) ok") (simp add: command_def)
    then have "ok' \<longleftrightarrow> ok \<or> gives_password cfg l"
      using command_authed [of cfg store "Fields (TrimSpace l)" ok]
      by (simp add: command_def gives_password_def Let_def)
    then show ?thesis using a False ends IH [of ok'] by (simp add: x disj_assoc)
  qed
qed simp

lemma protected_answer:
  assumes "Fields (TrimSpace l) = w # ws" "ToUpper w \<in> set protected" "\<not> ends_connection l"
  shows "handle_lines cfg ok [(l, store)] =
    [if ok then line_of [''OK''] else err ''ACCESS-DENIED'']"
proof -
  have ne: "TrimSpace l \<noteq> []" using assms(1) by auto
  have c: "command cfg store (TrimSpace l) ok =
      Answer (if ok then line_of [''OK''] else err ''ACCESS-DENIED'') False ok"
    using assms by (auto simp: command_def command_fields_def protected_def)
  with ne assms(3) show ?thesis by (simp add: line_of_def err_def ends_connection_def)
qed

section \<open>Properties\<close>

text \<open>C18: \<open>LIST VAR\<close> and \<open>GET VAR\<close> agree: the list has, between its two markers and in sorted
  order, exactly the answers to \<open>GET VAR\<close> of the variables that \<open>GET VAR\<close> does not reject.\<close>

theorem list_get_agree:
  assumes "wf_store store" "Get store n = Some u"
  shows "\<exists>keys. list_command store [''LIST'', ''VAR'', n] =
      line_of [''BEGIN'', ''LIST'', ''VAR'', n] @
      concat (map (\<lambda>k. get_command store [''GET'', ''VAR'', n, k]) keys) @
      line_of [''END'', ''LIST'', ''VAR'', n] \<and>
    sorted keys \<and> distinct keys \<and>
    (\<forall>k. k \<in> set keys \<longleftrightarrow> get_command store [''GET'', ''VAR'', n, k] \<noteq> err ''VAR-NOT-SUPPORTED'')"
proof (intro exI [of _ "sorted_keys (Vars u)"] conjI allI)
  have name: "u_Name u = n" using store.get_name [OF assms(1,2)] .
  have get: "get_command store [''GET'', ''VAR'', n, k] =
      (case map_get (Vars u) k of None \<Rightarrow> err ''VAR-NOT-SUPPORTED'' | Some v \<Rightarrow> var_line u k v)" for k
    using assms(2) by (simp add: get_command_def upper_char_def split: option.split)
  show "list_command store [''LIST'', ''VAR'', n] =
      line_of [''BEGIN'', ''LIST'', ''VAR'', n] @
      concat (map (\<lambda>k. get_command store [''GET'', ''VAR'', n, k]) (sorted_keys (Vars u))) @
      line_of [''END'', ''LIST'', ''VAR'', n]"
    using assms(2) name
    by (auto simp: list_command_def list_var_def get upper_char_def intro!: arg_cong [where f = concat])
  show "sorted (sorted_keys (Vars u))" "distinct (sorted_keys (Vars u))"
    using sorted_keys_strict [OF wf_store_vars [OF assms]] by simp_all
  have "var_line u k v \<noteq> err e" for k v e
    by (simp add: var_line_def err_def line_of_def)
  then show "k \<in> set (sorted_keys (Vars u)) \<longleftrightarrow>
      get_command store [''GET'', ''VAR'', n, k] \<noteq> err ''VAR-NOT-SUPPORTED''" for k
    by (auto simp: get split: option.split)
qed

text \<open>A quoted value without a backslash is read back by a client as it is, whatever follows
  it on the line, and the answer to \<open>GET VAR\<close> is one line exactly when no part holds a newline.\<close>

theorem quoted_value_readable:
  assumes "CHR 0x5C \<notin> set v"
  shows "unquote (quote v @ rest) = Some (v, rest) \<and>
    (single_line (var_line u k v) \<longleftrightarrow> newline \<notin> set (u_Name u) \<and> newline \<notin> set k \<and> newline \<notin> set v)"
  using unquote_body_plain [OF assms, of rest]
  by (simp add: quote_def unquote_def var_line_def line_of_single quote_line)

text \<open>C17: The protected commands, with any arguments, are always answered, and when a password is
  configured they are denied until a line of the connection has given exactly that password;
  they are granted when no credentials are configured, and after the configured user name and
  password have both been given.\<close>

theorem protected_commands_guarded:
  assumes "\<forall>(l, store) \<in> set (ls @ [(l, store)]). \<not> ends_connection l"
    "Fields (TrimSpace l) = cmd # args" "ToUpper cmd \<in> {''LOGIN'', ''PRIMARY'', ''MASTER'', ''FSD''}"
  shows "\<exists>granted. handle cfg (ls @ [(l, store)]) =
      handle cfg ls @ [if granted then line_of [''OK''] else err ''ACCESS-DENIED''] \<and>
    (Password (Auth cfg) \<noteq> [] \<and> granted \<longrightarrow>
      (\<exists>(l, store) \<in> set ls. sends ''PASSWORD'' (Password (Auth cfg)) l)) \<and>
    (Username (Auth cfg) = [] \<and> Password (Auth cfg) = [] \<longrightarrow> granted) \<and>
    ((\<exists>(l, store) \<in> set ls. sends ''USERNAME'' (Username (Auth cfg)) l) \<and>
     (\<exists>(l, store) \<in> set ls. sends ''PASSWORD'' (Password (Auth cfg)) l) \<longrightarrow> granted)"
proof -
  let ?given = "\<exists>(l, store) \<in> set ls. gives_password cfg l"
  have "ToUpper cmd \<in> set protected" using assms(3) by (simp add: protected_def)
  from protected_answer [OF assms(2) this] assms(1)
  have "handle cfg (ls @ [(l, store)]) = handle cfg ls @
      [if initially_authed cfg \<or> ?given then line_of [''OK''] else err ''ACCESS-DENIED'']"
    using handle_lines_append [of ls cfg "initially_authed cfg" "[(l, store)]"] by (simp add: handle_def)
  moreover have "Password (Auth cfg) \<noteq> [] \<Longrightarrow> gives_password cfg l \<Longrightarrow> sends ''PASSWORD'' (Password (Auth cfg)) l" for l
    by (auto simp: gives_password_def sends_def Let_def Suc_le_length_iff numeral_2_eq_2)
  moreover have "sends ''PASSWORD'' (Password (Auth cfg)) l \<Longrightarrow> gives_password cfg l" for l
    by (auto simp: gives_password_def sends_def Let_def)
  ultimately show ?thesis
    by (intro exI [of _ "initially_authed cfg \<or> ?given"]) (fastforce simp: initially_authed_def)
qed

text \<open>The user name is not needed: a line with the password alone grants the protected commands,
  also any password at all when only a user name is configured.\<close>

lemma password_alone_suffices:
  assumes "\<not> ends_connection l" "gives_password cfg l" "Fields (TrimSpace l') = [w]" "ToUpper w \<in> set protected"
    "\<not> ends_connection l'"
  shows "handle cfg [(l, st), (l', st)] = handle cfg [(l, st)] @ [line_of [''OK'']]"
  using handle_lines_append [of "[(l, st)]" cfg "initially_authed cfg" "[(l', st)]"] protected_answer [OF assms(3-5)]
    assms(1,2)
  by (simp add: handle_def)

text \<open>The reads are public: what \<open>LIST\<close>, \<open>GET\<close>, \<open>PING\<close> and \<open>VER\<close> answer does not depend on
  whether the connection has authenticated, and they do not change that.\<close>

theorem reads_are_public:
  assumes "ToUpper (hd ws) \<notin> set (''PASSWORD'' # protected)"
  shows "\<exists>r. \<forall>ok. command_fields cfg store ws ok = Answer r False ok"
  using assms by (auto simp: command_fields_def protected_def Let_def)

text \<open>A value that contains a newline is sent as it is: the answer to \<open>GET VAR\<close> is then more
  than one line, whose second one the value chooses.\<close>

theorem value_injects_line:
  assumes "Get store n = Some u" "map_get (Vars u) k = Some (v @ newline # v')"
  shows "\<exists>s. get_command store [''GET'', ''VAR'', n, k] = s @ newline # concat (map (\<lambda>c. if c = CHR 0x22 then [CHR 0x5C, CHR 0x22] else [c]) v') @ [CHR 0x22, newline]"
  using assms by (simp add: get_command_def upper_char_def var_line_def line_of_def quote_def)

text \<open>A value that ends in a backslash: the closing quote is read as part of it.\<close>

lemma trailing_backslash_unterminated: "unquote (quote [CHR 0x5C]) = None"
  by (simp add: quote_def unquote_def)

section \<open>Samples\<close>

definition sample_store :: Store where
  "sample_store = Upsert New ''delta2'' ''living room'' [(''ups.status'', ''OL''), (''device.serial'', ''R3'' @ [newline] @ ''OK'')] 0"

lemma sample_entry: "Get sample_store ''delta2'' = Some \<lparr>u_Name = ''delta2'', u_Description = ''living room'',
     Vars = [(''ups.status'', ''OL''), (''device.serial'', ''R3'' @ [newline] @ ''OK'')], UpdatedAt = 0\<rparr>"
  by (simp add: sample_store_def store.get_upsert)

lemma sample_store_wf: "wf_store sample_store"
  by (simp add: sample_store_def wf_Upsert wf_New wf_map_def)

definition secured_config :: Config where
  "secured_config = zero_config\<lparr>Auth := \<lparr>Username = ''admin'', Password = ''secret''\<rparr>\<rparr>"

theorem list_get_agree_witness:
  "\<exists>keys. list_command sample_store [''LIST'', ''VAR'', ''delta2''] =
      line_of [''BEGIN'', ''LIST'', ''VAR'', ''delta2''] @
      concat (map (\<lambda>k. get_command sample_store [''GET'', ''VAR'', ''delta2'', k]) keys) @
      line_of [''END'', ''LIST'', ''VAR'', ''delta2''] \<and> sorted keys"
  using list_get_agree [OF sample_store_wf sample_entry] by blast

theorem quoted_value_readable_witness: "unquote (quote ''a \"b'' @ ''x'') = Some (''a \"b'', ''x'')"
  using quoted_value_readable [of "''a \"b''" "''x''"] by simp

theorem protected_commands_guarded_witness:
  "handle secured_config [(''LOGIN delta2'', New)] = [err ''ACCESS-DENIED'']"
proof -
  have l: "TrimSpace ''LOGIN delta2'' = ''LOGIN delta2''" "Fields ''LOGIN delta2'' = [''LOGIN'', ''delta2'']"
    "ToUpper ''LOGIN'' = ''LOGIN''"
    by code_simp+
  have "\<not> ends_connection ''LOGIN delta2''"
    by (simp add: ends_connection_def l EqualFold_def upper_char_def)
  with protected_commands_guarded [of "[]" "''LOGIN delta2''" New "''LOGIN''" "[''delta2'']" secured_config] l
  show ?thesis by (auto simp: secured_config_def handle_def split: if_splits)
qed

theorem reads_are_public_witness:
  "\<exists>r. \<forall>ok. command_fields secured_config sample_store [''GET'', ''VAR'', ''delta2'', ''ups.status''] ok = Answer r False ok"
  by (rule reads_are_public) (simp add: protected_def upper_char_def)

theorem value_injects_line_witness:
  "\<exists>s. get_command sample_store [''GET'', ''VAR'', ''delta2'', ''device.serial''] = s @ newline # ''OK'' @ [CHR 0x22, newline]"
  using value_injects_line [OF sample_entry, of "''device.serial''" "''R3''" "''OK''"]
  by (simp add: map_get_def)

end
