(* ===== verification/Providers.thy ===== *)
theory Providers
  imports Session
begin

text \<open>
  \<open>internal/provider\<close>: the waiting state of the devices, the mock and the JSON directory
  provider, and the choice of a provider.  A publication reads the clock once; a run is driven
  by the choices of its select, the context or a tick of the poll timer.
\<close>

section \<open>Variables and the waiting state\<close>

definition baseVars :: "Device \<Rightarrow> string \<Rightarrow> string gomap" where
  "baseVars d status =
     (let model = (if d_Model d = [] then ''EcoFlow'' else d_Model d);
          serial = (if d_Serial d = [] then d_MAC d else d_Serial d)
      in [(''device.mfr'', ''EcoFlow''), (''device.model'', model), (''device.serial'', serial),
          (''ups.mfr'', ''EcoFlow''), (''ups.model'', model), (''ups.serial'', serial),
          (''ups.status'', status), (''ups.realpower.nominal'', ''0'')])"

definition MarkDevicesWaiting :: "Device list \<Rightarrow> time \<Rightarrow> Store \<Rightarrow> Store" where
  "MarkDevicesWaiting devices now store =
     foldl (\<lambda>s d. Upsert s (d_Name d) (d_Description d) (baseVars d ''WAIT'') now) store devices"

section \<open>The mock provider\<close>

datatype choice = CtxStop | Tick time

definition readings :: "string gomap \<Rightarrow> string \<Rightarrow> string \<Rightarrow> string \<Rightarrow> string \<Rightarrow> string gomap" where
  "readings vars charge runtime input output =
     map_set (map_set (map_set (map_set vars ''battery.charge'' charge) ''battery.runtime'' runtime)
       ''input.power'' input) ''output.power'' output"

definition mock_vars :: "int \<Rightarrow> Device \<Rightarrow> string gomap" where
  "mock_vars charge d =
     (let runtime = charge * 60;
          status = (if charge \<le> LowBatteryPercent d \<or> runtime \<le> LowRuntimeSeconds d then ''OB LB'' else ''OB'')
      in readings (baseVars d status) (FormatInt charge) (FormatInt runtime) ''0'' ''85'')"

definition mock_publish :: "Device list \<Rightarrow> time \<Rightarrow> int \<times> Store \<Rightarrow> int \<times> Store" where
  "mock_publish devices now = (\<lambda>(charge, store).
     let charge = charge - 1;
         charge = (if charge < 10 then 95 else charge)
     in (charge, foldl (\<lambda>s d. Upsert s (d_Name d) (d_Description d) (mock_vars charge d) now) store devices))"

text \<open>A provider that publishes at once and then at every tick, until the context is done.\<close>

fun poll_loop :: "(time \<Rightarrow> 's \<Rightarrow> 's) \<Rightarrow> choice list \<Rightarrow> 's \<Rightarrow> bool \<times> 's" where
  "poll_loop pub [] s = (False, s)"
| "poll_loop pub (CtxStop # cs) s = (True, s)"
| "poll_loop pub (Tick now # cs) s = poll_loop pub cs (pub now s)"

text \<open>The runs: \<open>None\<close> is the panic of \<open>time.NewTicker\<close>; otherwise the result, if the run has
  returned, and the state.\<close>

type_synonym provider_run = "(ending \<times> Store) option"

definition mock_Run :: "Config \<Rightarrow> time \<Rightarrow> choice list \<Rightarrow> Store \<Rightarrow> provider_run" where
  "mock_Run cfg now cs store =
     (if duration (PollSeconds (Provider cfg)) \<le> 0 then None
      else
        case poll_loop (mock_publish (Devices cfg)) cs (mock_publish (Devices cfg) now (95, store)) of
          (stopped, charge, store) \<Rightarrow> Some (if stopped then Ended None else Running, store))"

section \<open>The JSON directory provider\<close>

record DeviceReading =
  BatteryCharge :: int
  BatteryRuntime :: int
  r_InputPower :: int
  r_OutputPower :: int
  ACInputPresent :: bool

definition zero_reading :: DeviceReading where
  "zero_reading = \<lparr>BatteryCharge = 0, BatteryRuntime = 0, r_InputPower = 0, r_OutputPower = 0, ACInputPresent = False\<rparr>"

text \<open>\<open>os.ReadFile(filepath.Join(dir, name))\<close> and \<open>json.Unmarshal\<close>, which fills a reading or
  fails, are parameters.\<close>

record files =
  ReadFileIn :: "string \<Rightarrow> string \<Rightarrow> go_error + bytes"
  UnmarshalReading :: "bytes \<Rightarrow> DeviceReading \<Rightarrow> DeviceReading option"

definition json_vars :: "Device \<Rightarrow> DeviceReading \<Rightarrow> string gomap" where
  "json_vars d r =
     (let status = (if ACInputPresent r then ''OL'' else ''OB'');
          status = (if BatteryCharge r \<le> LowBatteryPercent d \<or> BatteryRuntime r \<le> LowRuntimeSeconds d
            then status @ '' LB'' else status)
      in readings (baseVars d status) (FormatInt (BatteryCharge r)) (FormatInt (BatteryRuntime r))
           (FormatInt (r_InputPower r)) (FormatInt (r_OutputPower r)))"

definition read_device :: "files \<Rightarrow> string \<Rightarrow> Device \<Rightarrow> DeviceReading option" where
  "read_device fs dir d =
     (case ReadFileIn fs dir (d_Name d @ ''.json'') of
        Inl e \<Rightarrow> None
      | Inr b \<Rightarrow> UnmarshalReading fs b zero_reading)"

definition json_poll :: "files \<Rightarrow> string \<Rightarrow> Device list \<Rightarrow> time \<Rightarrow> Store \<Rightarrow> Store" where
  "json_poll fs dir devices now store =
     foldl (\<lambda>s d. case read_device fs dir d of
         None \<Rightarrow> s
       | Some r \<Rightarrow> Upsert s (d_Name d) (d_Description d) (json_vars d r) now) store devices"

text \<open>The files are read anew at every poll: their state at each poll is a parameter.\<close>

definition json_Run :: "(time \<Rightarrow> files) \<Rightarrow> Config \<Rightarrow> time \<Rightarrow> choice list \<Rightarrow> Store \<Rightarrow> provider_run" where
  "json_Run fs cfg now cs store =
     (if JSONDir (Provider cfg) = [] then Some (Ended (Some JSONDirRequired), store)
      else if duration (PollSeconds (Provider cfg)) \<le> 0 then None
      else
        let poll = (\<lambda>now. json_poll (fs now) (JSONDir (Provider cfg)) (Devices cfg) now) in
        case poll_loop poll cs (poll now store) of
          (stopped, store) \<Rightarrow> Some (if stopped then Ended None else Running, store))"

section \<open>The choice of a provider\<close>

datatype provider_kind = JSONDirProvider | EcoBLEProvider | MockProvider

definition provider_New :: "Config \<Rightarrow> provider_kind" where
  "provider_New cfg =
     (if Type (Provider cfg) = ''json-dir'' then JSONDirProvider
      else if Type (Provider cfg) = ''eco-ble'' then EcoBLEProvider
      else MockProvider)"

section \<open>Lemmas\<close>

lemma wf_baseVars [simp]: "wf_map (baseVars d st)"
  by (simp add: baseVars_def wf_map_def Let_def)

lemma baseVars_identity: "baseVars d st = identityVars d [] [] st"
  by (simp add: baseVars_def identityVars_def Let_def)

lemma baseVars_waiting: "baseVars d ''WAIT'' = staleVars d [] []"
  by (simp add: baseVars_identity staleVars_def)

lemma MarkDevicesWaiting_publish:
  "MarkDevicesWaiting ds now s = store.publish_all d_Name d_Description (\<lambda>d. baseVars d ''WAIT'') now ds s"
  by (simp add: MarkDevicesWaiting_def store.publish_all_def)

lemma wf_MarkDevicesWaiting: "wf_store s \<Longrightarrow> wf_store (MarkDevicesWaiting ds now s)"
  unfolding MarkDevicesWaiting_publish by (rule store.publish_all_wf) simp_all

text \<open>All devices show the waiting state.\<close>

definition all_waiting :: "Device list \<Rightarrow> Store \<Rightarrow> bool" where
  "all_waiting ds s \<longleftrightarrow>
     (\<forall>d \<in> set ds. \<exists>u. Get s (d_Name d) = Some u \<and> map_get (Vars u) ''ups.status'' = Some ''WAIT'')"

lemma MarkDevicesWaiting_all: "all_waiting ds (MarkDevicesWaiting ds now s)"
  unfolding all_waiting_def
proof
  fix d assume "d \<in> set ds"
  from store.publish_all_some [OF this, of d_Name d_Description "\<lambda>d. baseVars d ''WAIT''" now s] show
    "\<exists>u. Get (MarkDevicesWaiting ds now s) (d_Name d) = Some u \<and> map_get (Vars u) ''ups.status'' = Some ''WAIT''"
    by (auto simp: MarkDevicesWaiting_publish baseVars_identity identityVars_status)
qed

lemma MarkDevicesWaiting_entry:
  assumes "d \<in> set ds"
  shows "\<exists>e \<in> set ds. d_Name e = d_Name d \<and>
    (\<exists>u. Get (MarkDevicesWaiting ds now s) (d_Name d) = Some u \<and> Vars u = staleVars e [] [])"
  using store.publish_all_some [OF assms, of d_Name d_Description "\<lambda>d. baseVars d ''WAIT''" now s]
  by (auto simp: MarkDevicesWaiting_publish baseVars_waiting)

lemma MarkDevicesWaiting_other:
  "n \<notin> d_Name ` set ds \<Longrightarrow> Get (MarkDevicesWaiting ds now s) n = Get s n"
  unfolding MarkDevicesWaiting_publish by (rule store.publish_all_other)

section \<open>The mock cycle\<close>

text \<open>The charge after \<open>n\<close> publications.\<close>

definition mock_charge :: "nat \<Rightarrow> int" where
  "mock_charge n = 95 - int (n mod 86)"

lemma mock_charge_range: "10 \<le> mock_charge n \<and> mock_charge n \<le> 95"
proof -
  have "n mod 86 < 86" by simp
  then show ?thesis unfolding mock_charge_def by linarith
qed

lemma mock_publish_charge:
  "mock_publish ds now (mock_charge n, s) =
     (mock_charge (Suc n), store.publish_all d_Name d_Description (mock_vars (mock_charge (Suc n))) now ds s)"
proof -
  have "n mod 86 < 86" by simp
  then have "(if mock_charge n - 1 < 10 then 95 else mock_charge n - 1) = mock_charge (Suc n)"
    by (auto simp: mock_charge_def mod_Suc)
  then show ?thesis by (simp add: mock_publish_def Let_def store.publish_all_def)
qed

lemma poll_loop_ticks:
  "\<exists>s'. poll_loop (mock_publish ds) (map Tick (ts @ [t])) (mock_charge n, s) =
     (False, mock_charge (n + length ts + 1),
      store.publish_all d_Name d_Description (mock_vars (mock_charge (n + length ts + 1))) t ds s')"
proof (induction ts arbitrary: n s)
  case (Cons x ts)
  show ?case
    using Cons.IH [of "Suc n"] by (simp add: mock_publish_charge)
qed (auto simp: mock_publish_charge)

section \<open>Properties\<close>

text \<open>The mock provider runs through the charges 94 down to 10 and 95 for ever: after \<open>n\<close> ticks
  every device shows \<open>95 - (n + 1) mod 86\<close> percent and a minute of runtime per percent, which a
  client reads with the low-battery flag exactly under the limits of the device.\<close>

theorem mock_cycle:
  assumes "0 < PollSeconds (Provider cfg)" "PollSeconds (Provider cfg) \<le> 9223372036"
    "distinct (map d_Name (Devices cfg))" "d \<in> set (Devices cfg)"
  shows "\<exists>store' u. mock_Run cfg now (map Tick (ts @ [t])) store = Some (Running, store') \<and>
    Get store' (d_Name d) = Some u \<and> UpdatedAt u = t \<and>
    (let c = mock_charge (length ts + 2) in
     10 \<le> c \<and> c \<le> 95 \<and> map_get (Vars u) ''battery.charge'' = Some (FormatInt c) \<and>
     map_get (Vars u) ''battery.runtime'' = Some (FormatInt (60 * c)) \<and>
     map_get (Vars u) ''ups.status'' =
       Some (if c \<le> LowBatteryPercent d \<or> 60 * c \<le> LowRuntimeSeconds d then ''OB LB'' else ''OB''))"
proof -
  let ?c = "mock_charge (length ts + 2)"
  have "0 < duration (PollSeconds (Provider cfg))"
    using duration_small [OF assms(1,2)] assms(1) by (simp add: Second_def)
  moreover have "mock_publish (Devices cfg) now (95, store) =
      (mock_charge 1, store.publish_all d_Name d_Description (mock_vars (mock_charge 1)) now (Devices cfg) store)"
    using mock_publish_charge [of "Devices cfg" now 0 store] by (simp add: mock_charge_def)
  moreover obtain s where "poll_loop (mock_publish (Devices cfg)) (map Tick (ts @ [t]))
      (mock_charge 1, store.publish_all d_Name d_Description (mock_vars (mock_charge 1)) now (Devices cfg) store) =
    (False, ?c, store.publish_all d_Name d_Description (mock_vars ?c) t (Devices cfg) s)"
    using poll_loop_ticks [of "Devices cfg" ts t 1] by force
  ultimately have run: "mock_Run cfg now (map Tick (ts @ [t])) store =
      Some (Running, store.publish_all d_Name d_Description (mock_vars ?c) t (Devices cfg) s)"
    by (simp add: mock_Run_def)
  show ?thesis
    unfolding run using store.publish_all_get [OF assms(3,4)] mock_charge_range [of "length ts + 2"]
    by (auto simp: Let_def mock_vars_def readings_def baseVars_identity identityVars_status mult.commute)
qed

definition reading_telemetry :: "DeviceReading \<Rightarrow> Telemetry" where
  "reading_telemetry r = \<lparr>Charge = Some (BatteryCharge r), RuntimeSeconds = Some (BatteryRuntime r),
     InputPower = Some (r_InputPower r), OutputPower = Some (r_OutputPower r), InputPresent = Some (ACInputPresent r)\<rparr>"

text \<open>One rule for all providers: a JSON reading publishes, variable by variable, what a live
  session without an advertised identity would publish for the same telemetry.\<close>

theorem json_like_live:
  assumes "Model desc = []" "Serial desc = []"
  shows "map_get (json_vars d r) k = map_get (liveVars d desc (reading_telemetry r)) k"
proof -
  define st where "st = live_status d (reading_telemetry r)"
  have "json_vars d r = readings (baseVars d st) (FormatInt (BatteryCharge r)) (FormatInt (BatteryRuntime r))
      (FormatInt (r_InputPower r)) (FormatInt (r_OutputPower r))"
    by (simp add: json_vars_def st_def live_status_def lowBattery_def reading_telemetry_def Let_def)
  moreover have "map_get (baseVars d st) k = (if k = ''ups.status'' then Some st else map_get (staleVars d [] []) k)"
    using identityVars_other_status [of k d "[]" "[]" st "''WAIT''"]
    by (simp add: baseVars_identity staleVars_def identityVars_status)
  ultimately show ?thesis
    using assms by (simp add: readings_def liveVars_get telemetry_keys_def telemetry_value_def st_def)
      (simp add: reading_telemetry_def)
qed

text \<open>A reading that has gone away is not noticed: when the file of a device cannot be read or
  parsed, its entry stays what it was.\<close>

theorem json_keeps_unreadable:
  assumes "\<forall>e \<in> set devices. d_Name e = d_Name d \<longrightarrow> read_device fs dir e = None"
  shows "Get (json_poll fs dir devices now store) (d_Name d) = Get store (d_Name d)"
  using assms
proof (induction devices arbitrary: store)
  case (Cons e devices)
  show ?case
  proof (cases "read_device fs dir e")
    case (Some r)
    with Cons.prems have "d_Name e \<noteq> d_Name d" by auto
    with Cons Some show ?thesis by (simp add: json_poll_def store.get_upsert)
  qed (use Cons in \<open>simp add: json_poll_def\<close>)
qed (simp add: json_poll_def)

definition sample_reading :: DeviceReading where
  "sample_reading = \<lparr>BatteryCharge = 15, BatteryRuntime = 900, r_InputPower = 120, r_OutputPower = 60, ACInputPresent = True\<rparr>"

theorem mock_cycle_witness:
  "\<exists>store' u. mock_Run sample_config 0 (map Tick ([1] @ [2])) New = Some (Running, store') \<and>
    Get store' ''delta2'' = Some u \<and> map_get (Vars u) ''battery.charge'' = Some (FormatInt 92)"
proof -
  have p: "0 < PollSeconds (Provider sample_config)" "PollSeconds (Provider sample_config) \<le> 9223372036"
    by (simp_all add: sample_poll)
  have ds: "Devices sample_config = [device_defaults sample_device]" by (simp add: sample_config_def)
  have "d_Name (device_defaults sample_device) = ''delta2''" "mock_charge 3 = 92"
    by (simp_all add: device_defaults_def sample_device_def mock_charge_def)
  with mock_cycle [OF p, of "device_defaults sample_device" 0 "[1]" 2 New] show ?thesis
    by (auto simp: ds Let_def numeral_3_eq_3)
qed

theorem json_like_live_witness:
  "map_get (json_vars sample_device sample_reading) ''ups.status'' =
     map_get (liveVars sample_device (sample_descriptor\<lparr>Model := [], Serial := []\<rparr>) (reading_telemetry sample_reading)) ''ups.status''"
  by (rule json_like_live) simp_all

theorem json_keeps_unreadable_witness:
  "Get (json_poll \<lparr>ReadFileIn = (\<lambda>_ _. Inl (LibraryError ''no such file'')), UnmarshalReading = (\<lambda>_ _. None)\<rparr>
      ''/run/ups'' [sample_device] 9 (sess_store sample_session)) (d_Name sample_device) =
     Get (sess_store sample_session) (d_Name sample_device)"
  by (rule json_keeps_unreadable) (simp add: read_device_def)

end
