(* ===== verification/Manager.thy ===== *)
theory Manager
  imports Providers
begin

text \<open>
  \<open>internal/runtime/provider_manager.go\<close>: the goroutine of \<open>ProviderManager.Run\<close>, the runner it
  starts and the calls of \<open>Enable\<close> and \<open>Disable\<close>, as a transition system.  A step is a critical
  section under \<open>m.mu\<close>, an operation on the wake channel, the context or the store, or the
  choice of a select; a call of \<open>Enable\<close> or \<open>Disable\<close> leaves the actions behind its critical
  section to be done in order, interleaved with everything else.
\<close>

section \<open>The state\<close>

record ProviderStatus =
  st_Type :: string
  Enabled :: bool
  IsRunning :: bool
  State :: string
  LastError :: "go_error option"
  LastErrorAt :: "time option"
  st_UpdatedAt :: time

text \<open>What a call still has to do after its critical section.\<close>

datatype action = MarkWaiting time | CancelRun nat | SignalWake

text \<open>Where the goroutine of \<open>Run\<close> is; a run of the provider has a number.\<close>

datatype point =
    LoopTop                                  \<comment> \<open>before \<open>ctx.Err()\<close>, line 64\<close>
  | CheckEnabled                             \<comment> \<open>before \<open>isEnabled\<close>, line 68\<close>
  | WaitEnabled                              \<comment> \<open>in \<open>waitForWake(ctx, 0)\<close>, line 69\<close>
  | Activate                                 \<comment> \<open>before the first section of \<open>runActive\<close>, line 140\<close>
  | Active nat                               \<comment> \<open>the runner runs, line 156\<close>
  | Finished nat "go_error option"           \<comment> \<open>before the last section of \<open>runActive\<close>, line 158\<close>
  | Inactive "go_error option"               \<comment> \<open>\<open>runActive\<close> has returned, line 77\<close>
  | Marking "go_error option"                \<comment> \<open>before \<open>MarkDevicesWaiting\<close>, line 81\<close>
  | Retrying "go_error option"               \<comment> \<open>before \<open>setRetrying\<close>, line 82\<close>
  | WaitRetry                                \<comment> \<open>in \<open>waitForWake(ctx, retryDelay)\<close>, line 86\<close>
  | Halted

record manager =
  retryGap :: int
  status :: ProviderStatus
  runCancel :: "nat option"
  wakeCh :: bool                             \<comment> \<open>a token is in the channel of capacity 1\<close>
  ctxDone :: bool
  cancelled :: "nat set"                     \<comment> \<open>runs whose own context is cancelled\<close>
  calls :: "action list list"
  point :: point
  runs :: nat
  mstore :: Store

definition NewProviderManager :: "Config \<Rightarrow> time \<Rightarrow> Store \<Rightarrow> manager" where
  "NewProviderManager cfg now store =
     \<lparr>retryGap = duration (ReconnectDelaySeconds (Provider cfg)),
      status = \<lparr>st_Type = Type (Provider cfg), Enabled = True, IsRunning = False, State = ''starting'',
        LastError = None, LastErrorAt = None, st_UpdatedAt = now\<rparr>,
      runCancel = None, wakeCh = False, ctxDone = False, cancelled = {}, calls = [], point = LoopTop,
      runs = 0, mstore = MarkDevicesWaiting (Devices cfg) now store\<rparr>"

section \<open>Critical sections\<close>

definition manager_Enable :: "time \<Rightarrow> manager \<Rightarrow> manager" where
  "manager_Enable now m =
     (if Enabled (status m) then m
      else m\<lparr>status := (status m)\<lparr>Enabled := True, IsRunning := False, State := ''starting'', st_UpdatedAt := now\<rparr>,
             calls := calls m @ [[SignalWake]]\<rparr>)"

definition manager_Disable :: "time \<Rightarrow> manager \<Rightarrow> manager" where
  "manager_Disable now m =
     (if \<not> Enabled (status m) then m
      else
        let s = status m;
            cancel = (if IsRunning s then runCancel m else None)
        in m\<lparr>status := s\<lparr>Enabled := False, State := (if IsRunning s then ''stopping'' else ''disabled''),
                        IsRunning := False, st_UpdatedAt := now\<rparr>,
             calls := calls m @ [MarkWaiting now # (case cancel of Some k \<Rightarrow> [CancelRun k] | None \<Rightarrow> []) @ [SignalWake]]\<rparr>)"

definition signalWake :: "manager \<Rightarrow> manager" where
  "signalWake m = m\<lparr>wakeCh := True\<rparr>"

definition setStopped :: "time \<Rightarrow> manager \<Rightarrow> manager" where
  "setStopped now m =
     m\<lparr>status := (status m)\<lparr>IsRunning := False, State := ''stopped'', st_UpdatedAt := now\<rparr>, runCancel := None\<rparr>"

definition runActive_enter :: "time \<Rightarrow> manager \<Rightarrow> manager" where
  "runActive_enter now m =
     (if \<not> Enabled (status m) \<or> ctxDone m then m\<lparr>point := Inactive (Some Canceled)\<rparr>
      else m\<lparr>runCancel := Some (runs m), runs := Suc (runs m), point := Active (runs m),
             status := (status m)\<lparr>IsRunning := True, State := ''running'', st_UpdatedAt := now\<rparr>\<rparr>)"

text \<open>The last section of \<open>runActive\<close> and its deferred \<open>cancel()\<close>.\<close>

definition runActive_leave :: "time \<Rightarrow> nat \<Rightarrow> go_error option \<Rightarrow> manager \<Rightarrow> manager" where
  "runActive_leave now k e m =
     m\<lparr>runCancel := None, cancelled := insert k (cancelled m), point := Inactive e,
       status := (status m)\<lparr>IsRunning := False, st_UpdatedAt := now\<rparr>\<rparr>"

definition setRetrying :: "time \<Rightarrow> go_error option \<Rightarrow> manager \<Rightarrow> manager" where
  "setRetrying now e m =
     (let s = (status m)\<lparr>IsRunning := False, st_UpdatedAt := now\<rparr> in
      if \<not> Enabled s
      then m\<lparr>status := s\<lparr>State := ''disabled'', LastError := None, LastErrorAt := None\<rparr>, point := LoopTop\<rparr>
      else
        let e = (if e = None \<or> e = Some Canceled then Some ProviderStopped else e)
        in m\<lparr>status := s\<lparr>State := ''retrying'', LastError := e, LastErrorAt := Some now\<rparr>, point := WaitRetry\<rparr>)"

definition retryDelay :: "manager \<Rightarrow> int" where
  "retryDelay m = (if retryGap m \<le> 0 then 5 * Second else retryGap m)"

text \<open>The choices of the select of \<open>waitForWake\<close> that are ready; there is a timer only for a positive
  delay.\<close>

datatype woken = ByContext | ByToken | ByTimer

definition waitForWake :: "int \<Rightarrow> manager \<Rightarrow> woken \<Rightarrow> bool" where
  "waitForWake delay m w =
     (case w of ByContext \<Rightarrow> ctxDone m | ByToken \<Rightarrow> wakeCh m | ByTimer \<Rightarrow> \<not> delay \<le> 0)"

definition wait_delay :: "manager \<Rightarrow> int" where
  "wait_delay m = (if point m = WaitEnabled then 0 else retryDelay m)"

lemma retryDelay_positive [simp]: "0 < retryDelay m"
  by (simp add: retryDelay_def Second_def)

lemma waitForWake_simps [simp]:
  "waitForWake d m ByContext = ctxDone m" "waitForWake d m ByToken = wakeCh m"
  "waitForWake d m ByTimer = (0 < d)"
  by (auto simp: waitForWake_def)

section \<open>Steps\<close>

text \<open>The steps of the goroutine of \<open>Run\<close>.\<close>

inductive main_step :: "Device list \<Rightarrow> manager \<Rightarrow> manager \<Rightarrow> bool" for ds where
  TopDone: "point m = LoopTop \<Longrightarrow> ctxDone m \<Longrightarrow> main_step ds m ((setStopped now m)\<lparr>point := Halted\<rparr>)"
| TopOn: "point m = LoopTop \<Longrightarrow> \<not> ctxDone m \<Longrightarrow> main_step ds m (m\<lparr>point := CheckEnabled\<rparr>)"
| Check: "point m = CheckEnabled \<Longrightarrow>
    main_step ds m (m\<lparr>point := if Enabled (status m) then Activate else WaitEnabled\<rparr>)"
| WaitDone: "point m \<in> {WaitEnabled, WaitRetry} \<Longrightarrow> waitForWake (wait_delay m) m ByContext \<Longrightarrow>
    main_step ds m ((setStopped now m)\<lparr>point := Halted\<rparr>)"
| WaitWoken: "point m \<in> {WaitEnabled, WaitRetry} \<Longrightarrow> waitForWake (wait_delay m) m ByToken \<Longrightarrow>
    main_step ds m (m\<lparr>wakeCh := False, point := LoopTop\<rparr>)"
| WaitTimer: "point m = WaitRetry \<Longrightarrow> waitForWake (wait_delay m) m ByTimer \<Longrightarrow>
    main_step ds m (m\<lparr>point := LoopTop\<rparr>)"
| Enter: "point m = Activate \<Longrightarrow> main_step ds m (runActive_enter now m)"
| Leave: "point m = Finished k e \<Longrightarrow> main_step ds m (runActive_leave now k e m)"
| BackDone: "point m = Inactive e \<Longrightarrow> ctxDone m \<Longrightarrow> main_step ds m ((setStopped now m)\<lparr>point := Halted\<rparr>)"
| BackOn: "point m = Inactive e \<Longrightarrow> \<not> ctxDone m \<Longrightarrow> main_step ds m (m\<lparr>point := Marking e\<rparr>)"
| MarkAll: "point m = Marking e \<Longrightarrow>
    main_step ds m (m\<lparr>mstore := MarkDevicesWaiting ds now (mstore m), point := Retrying e\<rparr>)"
| Retry: "point m = Retrying e \<Longrightarrow> main_step ds m (setRetrying now e m)"

text \<open>The runner: it may write any entries while it runs, and return at any time.\<close>

inductive runner_step :: "manager \<Rightarrow> manager \<Rightarrow> bool" where
  Publish: "point m = Active k \<Longrightarrow> wf_map vars \<Longrightarrow>
    runner_step m (m\<lparr>mstore := Upsert (mstore m) n desc vars now\<rparr>)"
| Return: "point m = Active k \<Longrightarrow> runner_step m (m\<lparr>point := Finished k e\<rparr>)"

text \<open>Everything else: calls, the actions they still have to do, and the end of the daemon.\<close>

fun do_action :: "Device list \<Rightarrow> action \<Rightarrow> manager \<Rightarrow> manager" where
  "do_action ds (MarkWaiting now) m = m\<lparr>mstore := MarkDevicesWaiting ds now (mstore m)\<rparr>"
| "do_action ds (CancelRun k) m = m\<lparr>cancelled := insert k (cancelled m)\<rparr>"
| "do_action ds SignalWake m = signalWake m"

inductive other_step :: "Device list \<Rightarrow> manager \<Rightarrow> manager \<Rightarrow> bool" for ds where
  CallEnable: "other_step ds m (manager_Enable now m)"
| CallDisable: "other_step ds m (manager_Disable now m)"
| Act: "calls m = xs @ (a # as) # ys \<Longrightarrow> other_step ds m (do_action ds a (m\<lparr>calls := xs @ as # ys\<rparr>))"
| Interrupt: "other_step ds m (m\<lparr>ctxDone := True\<rparr>)"

definition manager_step :: "Device list \<Rightarrow> manager \<Rightarrow> manager \<Rightarrow> bool" where
  "manager_step ds m m' \<longleftrightarrow> main_step ds m m' \<or> runner_step m m' \<or> other_step ds m m'"

definition reachable :: "Config \<Rightarrow> manager \<Rightarrow> bool" where
  "reachable cfg m \<longleftrightarrow> (\<exists>now store. wf_store store \<and>
     (manager_step (Devices cfg))\<^sup>*\<^sup>* (NewProviderManager cfg now store) m)"

section \<open>The invariant\<close>

definition to_do :: "manager \<Rightarrow> action set" where
  "to_do m = \<Union> (set ` set (calls m))"

definition in_run :: "manager \<Rightarrow> nat \<Rightarrow> bool" where
  "in_run m k \<longleftrightarrow> point m = Active k \<or> (\<exists>e. point m = Finished k e)"

text \<open>The points at which no run has been left behind without marking the devices.\<close>

fun at_rest :: "point \<Rightarrow> bool" where
  "at_rest LoopTop = True" | "at_rest CheckEnabled = True" | "at_rest WaitEnabled = True"
| "at_rest Activate = True" | "at_rest (Retrying e) = True" | "at_rest WaitRetry = True"
| "at_rest (Active k) = False" | "at_rest (Finished k e) = False" | "at_rest (Inactive e) = False"
| "at_rest (Marking e) = False" | "at_rest Halted = False"

definition manager_ok :: "Device list \<Rightarrow> manager \<Rightarrow> bool" where
  "manager_ok ds m \<longleftrightarrow>
     (IsRunning (status m) \<longrightarrow> Enabled (status m) \<and> (\<exists>k. in_run m k)) \<and>
     (\<forall>k. in_run m k \<longrightarrow> runCancel m = Some k \<and>
        (IsRunning (status m) \<or> k \<in> cancelled m \<or> CancelRun k \<in> to_do m)) \<and>
     (point m = WaitEnabled \<and> Enabled (status m) \<longrightarrow> wakeCh m \<or> SignalWake \<in> to_do m) \<and>
     wf_store (mstore m) \<and> (at_rest (point m) \<longrightarrow> all_waiting ds (mstore m))"

named_theorems manager_sections \<open>the critical sections and what they leave\<close>

lemmas [manager_sections] =
  manager_Enable_def manager_Disable_def signalWake_def setStopped_def runActive_enter_def
  runActive_leave_def setRetrying_def

lemma manager_ok_initial:
  "wf_store store \<Longrightarrow> manager_ok (Devices cfg) (NewProviderManager cfg now store)"
  by (simp add: manager_ok_def NewProviderManager_def in_run_def wf_MarkDevicesWaiting MarkDevicesWaiting_all)

lemma to_do_append [simp]: "calls m = cs \<Longrightarrow> to_do (m\<lparr>calls := cs @ [c]\<rparr>) = to_do m \<union> set c"
  by (auto simp: to_do_def)

lemma main_step_ok: "main_step ds m m' \<Longrightarrow> manager_ok ds m \<Longrightarrow> manager_ok ds m'"
  by (induction rule: main_step.induct)
    (auto simp: manager_ok_def in_run_def to_do_def manager_sections Let_def wf_MarkDevicesWaiting
      MarkDevicesWaiting_all)

lemma runner_step_ok: "runner_step m m' \<Longrightarrow> manager_ok ds m \<Longrightarrow> manager_ok ds m'"
  by (induction rule: runner_step.induct) (auto simp: manager_ok_def in_run_def to_do_def wf_Upsert)

lemma enable_ok: "manager_ok ds m \<Longrightarrow> manager_ok ds (manager_Enable now m)"
  by (auto simp: manager_ok_def in_run_def to_do_def manager_sections)

lemma disable_ok:
  assumes "manager_ok ds m"
  shows "manager_ok ds (manager_Disable now m)"
proof (cases "Enabled (status m)")
  case True
  have "runCancel m = Some k" if "in_run m k" for k using assms that by (simp add: manager_ok_def)
  then show ?thesis
    using assms True
    by (auto simp: manager_ok_def in_run_def to_do_def manager_sections Let_def split: option.split)
qed (use assms in \<open>simp add: manager_Disable_def\<close>)

lemma act_ok:
  assumes "manager_ok ds m" "calls m = xs @ (a # as) # ys"
  shows "manager_ok ds (do_action ds a (m\<lparr>calls := xs @ as # ys\<rparr>))"
proof -
  have "to_do m = insert a (to_do (m\<lparr>calls := xs @ as # ys\<rparr>))"
    using assms(2) by (auto simp: to_do_def)
  then show ?thesis
    using assms(1)
    by (cases a) (auto simp: manager_ok_def in_run_def to_do_def signalWake_def wf_MarkDevicesWaiting
        MarkDevicesWaiting_all)
qed

lemma other_step_ok: "other_step ds m m' \<Longrightarrow> manager_ok ds m \<Longrightarrow> manager_ok ds m'"
proof (induction rule: other_step.induct)
  case (Interrupt m)
  then show ?case by (simp add: manager_ok_def in_run_def to_do_def)
qed (simp_all add: enable_ok disable_ok act_ok)

lemma manager_step_ok: "manager_step ds m m' \<Longrightarrow> manager_ok ds m \<Longrightarrow> manager_ok ds m'"
  unfolding manager_step_def using main_step_ok runner_step_ok other_step_ok by blast

lemma reachable_ok: "reachable cfg m \<Longrightarrow> manager_ok (Devices cfg) m"
  unfolding reachable_def
proof (elim exE conjE)
  fix now store
  assume "(manager_step (Devices cfg))\<^sup>*\<^sup>* (NewProviderManager cfg now store) m" "wf_store store"
  then show ?thesis
    by (induction rule: rtranclp_induct) (auto intro: manager_ok_initial manager_step_ok)
qed

section \<open>Shutting down\<close>

text \<open>The distance of the goroutine from its end once the context is done.\<close>

fun rank :: "point \<Rightarrow> nat" where
  "rank Halted = 0" | "rank LoopTop = 1" | "rank WaitEnabled = 2" | "rank WaitRetry = 2"
| "rank (Retrying e) = 3" | "rank (Marking e) = 4" | "rank (Inactive e) = 5" | "rank (Finished k e) = 6"
| "rank (Active k) = 7" | "rank Activate = 8" | "rank CheckEnabled = 9"

inductive_cases main_stepE: "main_step ds m m'"
inductive_cases runner_stepE: "runner_step m m'"

lemma main_step_rank: "main_step ds m m' \<Longrightarrow> ctxDone m \<Longrightarrow> rank (point m') < rank (point m) \<and> ctxDone m'"
  by (erule main_stepE) (auto simp: manager_sections Let_def)

lemma runner_step_rank:
  "runner_step m m' \<Longrightarrow> ctxDone m' = ctxDone m \<and> (point m' = point m \<or> rank (point m') < rank (point m))"
  by (erule runner_stepE) auto

lemma other_step_rank: "other_step ds m m' \<Longrightarrow> point m' = point m \<and> (ctxDone m \<longrightarrow> ctxDone m')"
proof (induction rule: other_step.induct)
  case (Act m xs a as ys)
  then show ?case by (cases a) (simp_all add: signalWake_def)
qed (simp_all add: manager_Enable_def manager_Disable_def Let_def)

lemma wait_ends: "point m \<in> {WaitEnabled, WaitRetry} \<Longrightarrow> ctxDone m \<Longrightarrow> \<exists>m'. main_step ds m m'"
  using WaitDone [of m ds] by auto

lemma main_step_enabled:
  assumes "point m \<noteq> Halted" "ctxDone m"
  shows "(\<exists>m'. main_step ds m m') \<or> (\<exists>k. point m = Active k)"
  using assms wait_ends [of m ds]
  by (cases "point m") (blast intro: TopDone Check Enter Leave BackDone MarkAll Retry)+

text \<open>Runs of the system from a state, with the steps of the goroutine and the returns of the
  runner counted.\<close>

definition progress :: "Device list \<Rightarrow> manager \<Rightarrow> manager \<Rightarrow> bool" where
  "progress ds m m' \<longleftrightarrow> manager_step ds m m' \<and> point m' \<noteq> point m"

lemma main_step_point: "main_step ds m m' \<Longrightarrow> point m' \<noteq> point m"
  by (erule main_stepE) (auto simp: manager_sections Let_def)

lemma progress_rank: "progress ds m m' \<Longrightarrow> ctxDone m \<Longrightarrow> rank (point m') < rank (point m)"
  unfolding progress_def manager_step_def
  using main_step_rank runner_step_rank other_step_rank by metis

lemma step_rank: "manager_step ds m m' \<Longrightarrow> ctxDone m \<Longrightarrow> ctxDone m' \<and> rank (point m') \<le> rank (point m)"
  unfolding manager_step_def
  using main_step_rank runner_step_rank other_step_rank by (metis less_imp_le order_refl)

text \<open>The number of steps that move the goroutine along a run.\<close>

fun moves :: "manager list \<Rightarrow> nat" where
  "moves (m # m' # ms) = (if point m' \<noteq> point m then Suc (moves (m' # ms)) else moves (m' # ms))"
| "moves _ = 0"

fun is_run :: "Device list \<Rightarrow> manager list \<Rightarrow> bool" where
  "is_run ds (m # m' # ms) = (manager_step ds m m' \<and> is_run ds (m' # ms))"
| "is_run ds _ = True"

lemma moves_bounded: "is_run ds (m # ms) \<Longrightarrow> ctxDone m \<Longrightarrow> moves (m # ms) \<le> rank (point m)"
proof (induction ms arbitrary: m)
  case (Cons m' ms)
  then have step: "manager_step ds m m'" "ctxDone m'" using step_rank [of ds m m'] by simp_all
  then have "moves (m' # ms) \<le> rank (point m')" using Cons by simp
  note step = step this
  show ?case
  proof (cases "point m' = point m")
    case False
    then have "progress ds m m'" using step(1) by (simp add: progress_def)
    from progress_rank [OF this Cons.prems(2)] step(3) False show ?thesis by simp
  qed (use step in simp)
qed simp

section \<open>Sample runs\<close>

abbreviation (input) steps :: "manager \<Rightarrow> manager \<Rightarrow> bool" where
  "steps \<equiv> (manager_step (Devices sample_config))\<^sup>*\<^sup>*"

definition sample_start :: manager where
  "sample_start = NewProviderManager sample_config 0 New"

lemma main_steps: "main_step (Devices sample_config) m m' \<Longrightarrow> steps m0 m \<Longrightarrow> steps m0 m'"
  by (erule rtranclp.rtrancl_into_rtrancl) (simp add: manager_step_def)

lemma other_steps: "other_step (Devices sample_config) m m' \<Longrightarrow> steps m0 m \<Longrightarrow> steps m0 m'"
  by (erule rtranclp.rtrancl_into_rtrancl) (simp add: manager_step_def)

definition sample_active :: manager where
  "sample_active = runActive_enter 1 (sample_start\<lparr>point := Activate\<rparr>)"

lemma sample_active_reached: "steps sample_start sample_active"
proof -
  let ?ds = "Devices sample_config"
  have "main_step ?ds sample_start (sample_start\<lparr>point := CheckEnabled\<rparr>)"
    by (rule TopOn) (simp_all add: sample_start_def NewProviderManager_def)
  from main_steps [OF this] have 1: "steps sample_start (sample_start\<lparr>point := CheckEnabled\<rparr>)" by simp
  have "main_step ?ds (sample_start\<lparr>point := CheckEnabled\<rparr>) (sample_start\<lparr>point := Activate\<rparr>)"
    using Check [of "sample_start\<lparr>point := CheckEnabled\<rparr>" ?ds]
    by (simp add: sample_start_def NewProviderManager_def)
  from main_steps [OF this 1] have 2: "steps sample_start (sample_start\<lparr>point := Activate\<rparr>)" .
  have "main_step ?ds (sample_start\<lparr>point := Activate\<rparr>) sample_active"
    unfolding sample_active_def by (rule Enter) simp
  from main_steps [OF this 2] show ?thesis .
qed

lemma sample_active_status:
  "point sample_active = Active 0" "Enabled (status sample_active)" "IsRunning (status sample_active)"
  "runCancel sample_active = Some 0" "calls sample_active = []" "\<not> ctxDone sample_active"
  by (simp_all add: sample_active_def sample_start_def NewProviderManager_def runActive_enter_def)

text \<open>Disabled while running, with the call finished.\<close>

definition finish_call :: "action \<Rightarrow> action list \<Rightarrow> manager \<Rightarrow> manager" where
  "finish_call a as m = do_action (Devices sample_config) a (m\<lparr>calls := [as]\<rparr>)"

lemma finish_call_steps:
  "calls m = [a # as] \<Longrightarrow> steps m0 m \<Longrightarrow> steps m0 (finish_call a as m) \<and> calls (finish_call a as m) = [as]"
  using other_steps [OF Act [of m "[]" a as "[]"], of m0] by (cases a) (simp_all add: finish_call_def signalWake_def)

definition sample_disabled :: manager where
  "sample_disabled = finish_call SignalWake [] (finish_call (CancelRun 0) [SignalWake]
     (finish_call (MarkWaiting 2) [CancelRun 0, SignalWake] (manager_Disable 2 sample_active)))"

lemma disable_calls: "calls (manager_Disable 2 sample_active) = [[MarkWaiting 2, CancelRun 0, SignalWake]]"
  by (simp add: manager_Disable_def sample_active_status Let_def)

lemma sample_disabled_reached: "steps sample_start sample_disabled"
proof -
  have "steps sample_start (manager_Disable 2 sample_active)"
    by (rule other_steps [OF CallDisable sample_active_reached])
  then show ?thesis
    unfolding sample_disabled_def using disable_calls finish_call_steps by metis
qed

lemma sample_reachable: "steps sample_start m \<Longrightarrow> reachable sample_config m"
  unfolding reachable_def sample_start_def using wf_New by blast

text \<open>A run that was cancelled by a call of \<open>Disable\<close> and returns without an error after the
  provider has been enabled again is reported as a failure and delays the restart.\<close>

lemma cancelled_run_reported:
  assumes "point m = Active k" "k \<in> cancelled m" "Enabled (status m)" "\<not> ctxDone m"
  shows "\<exists>m'. (manager_step ds)\<^sup>*\<^sup>* m m' \<and> point m' = WaitRetry \<and> State (status m') = ''retrying'' \<and>
    LastError (status m') = Some ProviderStopped"
proof -
  let ?m1 = "m\<lparr>point := Finished k None\<rparr>"
  let ?m2 = "runActive_leave 0 k None ?m1"
  let ?m3 = "?m2\<lparr>point := Marking None\<rparr>"
  let ?m4 = "?m3\<lparr>mstore := MarkDevicesWaiting ds 0 (mstore ?m3), point := Retrying None\<rparr>"
  have "manager_step ds m ?m1" using Return [OF assms(1)] by (simp add: manager_step_def)
  moreover have "manager_step ds ?m1 ?m2" using Leave [of ?m1 k None] by (simp add: manager_step_def)
  moreover have "manager_step ds ?m2 ?m3"
    using BackOn [of ?m2 None ds] assms(4) by (simp add: manager_step_def runActive_leave_def)
  moreover have "manager_step ds ?m3 ?m4" using MarkAll [of ?m3 None ds 0] by (simp add: manager_step_def)
  moreover have "manager_step ds ?m4 (setRetrying 0 None ?m4)"
    using Retry [of ?m4 None ds 0] by (simp add: manager_step_def)
  ultimately have "(manager_step ds)\<^sup>*\<^sup>* m (setRetrying 0 None ?m4)"
    by (meson converse_rtranclp_into_rtranclp r_into_rtranclp)
  then show ?thesis
    using assms(3) by (intro exI conjI) (auto simp: setRetrying_def runActive_leave_def)
qed

section \<open>Properties\<close>

text \<open>C4: In every reachable state: the status says running only while a run is active and the
  provider is enabled; a run that is not shown as running has been or is about to be
  cancelled; a wake-up that an enabled provider waits for is in the channel or on its way; and
  whenever no run is in progress every device shows the waiting state.\<close>

theorem manager_invariant:
  assumes "reachable cfg m"
  shows "manager_ok (Devices cfg) m"
  using assms by (rule reachable_ok)

text \<open>Disabling leaves no connection: when the provider is disabled and all calls are over, the
  run that may still be going has been cancelled.\<close>

theorem disabled_run_cancelled:
  assumes "reachable cfg m" "\<not> Enabled (status m)" "to_do m = {}" "point m = Active k"
  shows "k \<in> cancelled m"
  using reachable_ok [OF assms(1)] assms(2-4) by (auto simp: manager_ok_def in_run_def)

text \<open>Enabling is not lost: when the provider is enabled and all calls are over, a goroutine
  waiting for it can go on.\<close>

theorem enable_not_lost:
  assumes "reachable cfg m" "Enabled (status m)" "to_do m = {}" "point m = WaitEnabled"
  shows "main_step (Devices cfg) m (m\<lparr>wakeCh := False, point := LoopTop\<rparr>)"
  using reachable_ok [OF assms(1)] assms(2-4) by (auto simp: manager_ok_def intro: WaitWoken)

text \<open>C36: The manager shuts down: once the context is done, any run moves the goroutine at most
  nine times, and it is only stopped at the end or while the provider has not returned.\<close>

theorem shutdown_terminates:
  assumes "is_run ds (m # ms)" "ctxDone m"
  shows "moves (m # ms) \<le> 9 \<and>
    (point (last (m # ms)) = Halted \<or> (\<exists>m'. main_step ds (last (m # ms)) m') \<or>
     (\<exists>k. point (last (m # ms)) = Active k))"
proof -
  have "ctxDone (last (m # ms))"
    using assms
  proof (induction ms arbitrary: m)
    case (Cons m' ms)
    then have "ctxDone m'" using step_rank [of ds m m'] by simp
    with Cons show ?case by simp
  qed simp
  moreover have "rank (point m) \<le> 9" by (cases "point m") simp_all
  ultimately show ?thesis
    using moves_bounded [OF assms] main_step_enabled [of "last (m # ms)" ds] by fastforce
qed

theorem manager_invariant_witness: "manager_ok (Devices sample_config) sample_disabled"
  by (rule manager_invariant [OF sample_reachable [OF sample_disabled_reached]])

lemma sample_disabled_status:
  "\<not> Enabled (status sample_disabled)" "to_do sample_disabled = {}" "point sample_disabled = Active 0"
  using sample_active_status
  by (simp_all add: sample_disabled_def finish_call_def manager_Disable_def to_do_def signalWake_def Let_def)

theorem disabled_run_cancelled_witness: "0 \<in> cancelled sample_disabled"
  by (rule disabled_run_cancelled [OF sample_reachable [OF sample_disabled_reached] sample_disabled_status])

theorem shutdown_terminates_witness:
  "moves [sample_start\<lparr>ctxDone := True\<rparr>, (setStopped 0 (sample_start\<lparr>ctxDone := True\<rparr>))\<lparr>point := Halted\<rparr>] \<le> 9"
proof -
  have "is_run (Devices sample_config)
      [sample_start\<lparr>ctxDone := True\<rparr>, (setStopped 0 (sample_start\<lparr>ctxDone := True\<rparr>))\<lparr>point := Halted\<rparr>]"
    using TopDone [of "sample_start\<lparr>ctxDone := True\<rparr>" "Devices sample_config" 0]
    by (simp add: manager_step_def sample_start_def NewProviderManager_def)
  from shutdown_terminates [OF this] show ?thesis by simp
qed

text \<open>The provider, stopped and waiting, is enabled again.\<close>

definition sample_waiting :: manager where
  "sample_waiting = (setRetrying 3 None ((runActive_leave 3 0 None sample_disabled)
     \<lparr>mstore := MarkDevicesWaiting (Devices sample_config) 3 (mstore sample_disabled)\<rparr>))\<lparr>point := WaitEnabled\<rparr>"

definition sample_enabled :: manager where
  "sample_enabled = do_action (Devices sample_config) SignalWake
     ((manager_Enable 4 sample_waiting)\<lparr>calls := [[]] @ [] # []\<rparr>)"

lemma sample_waiting_reached: "steps sample_start sample_waiting"
proof -
  let ?ds = "Devices sample_config"
  let ?m1 = "sample_disabled\<lparr>point := Finished 0 None\<rparr>"
  let ?m2 = "runActive_leave 3 0 None ?m1"
  let ?m3 = "?m2\<lparr>point := Marking None\<rparr>"
  let ?m4 = "?m3\<lparr>mstore := MarkDevicesWaiting ?ds 3 (mstore ?m3), point := Retrying None\<rparr>"
  let ?m5 = "setRetrying 3 None ?m4"
  let ?m6 = "?m5\<lparr>point := CheckEnabled\<rparr>"
  have d: "\<not> ctxDone sample_disabled"
    using sample_active_status
    by (simp add: sample_disabled_def finish_call_def manager_Disable_def signalWake_def Let_def)
  have "runner_step sample_disabled ?m1" using sample_disabled_status(3) by (rule Return)
  then have "manager_step ?ds sample_disabled ?m1" by (simp add: manager_step_def)
  from rtranclp.rtrancl_into_rtrancl [OF sample_disabled_reached this] have "steps sample_start ?m1" .
  moreover have "main_step ?ds ?m1 ?m2" by (rule Leave) simp
  moreover have "main_step ?ds ?m2 ?m3" using d by (intro BackOn) (simp_all add: runActive_leave_def)
  moreover have "main_step ?ds ?m3 ?m4" by (rule MarkAll) simp
  moreover have "main_step ?ds ?m4 ?m5" by (rule Retry) simp
  moreover have "main_step ?ds ?m5 ?m6"
    using d sample_disabled_status(1) by (intro TopOn) (simp_all add: setRetrying_def runActive_leave_def Let_def)
  moreover have "main_step ?ds ?m6 (?m6\<lparr>point := WaitEnabled\<rparr>)"
    using Check [of ?m6 ?ds] sample_disabled_status(1) by (simp add: setRetrying_def runActive_leave_def Let_def)
  moreover have "?m6\<lparr>point := WaitEnabled\<rparr> = sample_waiting"
    by (simp add: sample_waiting_def setRetrying_def runActive_leave_def Let_def)
  ultimately show ?thesis by (metis main_steps)
qed

lemma sample_waiting_status: "\<not> Enabled (status sample_waiting)" "calls sample_waiting = [[]]"
  "point sample_waiting = WaitEnabled"
  using sample_disabled_status(1)
  by (simp_all add: sample_waiting_def setRetrying_def runActive_leave_def Let_def
      sample_disabled_def finish_call_def signalWake_def)

theorem enable_not_lost_witness:
  "main_step (Devices sample_config) sample_enabled (sample_enabled\<lparr>wakeCh := False, point := LoopTop\<rparr>)"
proof (rule enable_not_lost)
  have "calls (manager_Enable 4 sample_waiting) = [[]] @ (SignalWake # []) # []"
    using sample_waiting_status by (simp add: manager_Enable_def)
  from other_steps [OF Act [OF this]] other_steps [OF CallEnable sample_waiting_reached]
  have "steps sample_start sample_enabled" unfolding sample_enabled_def by blast
  then show "reachable sample_config sample_enabled" by (rule sample_reachable)
qed (use sample_waiting_status in \<open>simp_all add: sample_enabled_def signalWake_def manager_Enable_def to_do_def\<close>)

end
