(* ===== verification/Login.thy ===== *)
theory Login
  imports Session_Key Config
begin

text \<open>
  \<open>internal/ecoflow/auth.go\<close>: the cloud login that finds the user ID.  The HTTP client and the
  JSON codec are parameters; the regions, the identifiers and the order of the checks are the
  code's.
\<close>

section \<open>Strings\<close>

definition TrimPrefix :: "string \<Rightarrow> string \<Rightarrow> string" where
  "TrimPrefix s p = (if take (length p) s = p then drop (length p) s else s)"

definition remove_spaces :: "string \<Rightarrow> string" where
  "remove_spaces s = filter (\<lambda>c. c \<noteq> CHR '' '') s"

definition trim_slashes :: "string \<Rightarrow> string" where
  "trim_slashes s = rev (dropWhile (\<lambda>c. c = CHR ''/'') (rev s))"

section \<open>Identifiers and regions\<close>

definition is_digit :: "char \<Rightarrow> bool" where
  "is_digit c \<longleftrightarrow> (let n = of_char c :: nat in 48 \<le> n \<and> n \<le> 57)"

definition isPhoneIdentifier :: "string \<Rightarrow> bool" where
  "isPhoneIdentifier identifier \<longleftrightarrow>
     (let ds = remove_spaces (TrimPrefix identifier ''+'')
      in 6 \<le> length ds \<and> length ds \<le> 15 \<and> list_all is_digit ds)"

definition regions :: "string list" where
  "regions = [''api'', ''api-e'', ''api-a'', ''api-j'', ''api-r'', ''api-cn'']"

definition normalizeRegion :: "string \<Rightarrow> bool \<Rightarrow> go_error + string" where
  "normalizeRegion region isPhone =
     (let region = ToLower (TrimSpace region) in
      if region = [] \<or> region = ''auto'' then Inr (if isPhone then ''api-cn'' else ''api'')
      else if region = ''api-cn'' \<and> \<not> isPhone then Inl (LoginError RegionNeedsPhone)
      else if region \<in> set regions then Inr region
      else Inl (LoginError (UnsupportedRegion region)))"

text \<open>The override of the base URLs is empty unless a test sets it.\<close>

definition baseURL :: "string gomap \<Rightarrow> string \<Rightarrow> go_error + string" where
  "baseURL BaseURLByRegion region =
     (case map_get BaseURLByRegion region of
        Some url \<Rightarrow> Inr (trim_slashes url)
      | None \<Rightarrow>
          if region \<in> set regions then Inr (''https://'' @ region @ ''.ecoflow.com'')
          else Inl (LoginError (UnsupportedRegion region)))"

section \<open>The request\<close>

record loginPayload =
  Scene :: string
  AppVersion :: string
  lp_Password :: string
  BundleID :: string
  UserType :: string
  lp_Email :: string
  Phone :: string

record loginResponse =
  Code :: string
  Message :: string
  lr_UserID :: string

text \<open>The standard library: encoding and decoding JSON, building and sending a POST request; the
  answer is a status code with a body, or an error.\<close>

record http =
  MarshalLogin :: "loginPayload \<Rightarrow> go_error + bytes"
  NewRequest :: "string \<Rightarrow> go_error option"
  Post :: "string \<Rightarrow> bytes \<Rightarrow> go_error + (int \<times> bytes)"
  DecodeLogin :: "bytes \<Rightarrow> go_error + loginResponse"

definition login_payload :: "string \<Rightarrow> string \<Rightarrow> bool \<Rightarrow> string \<Rightarrow> loginPayload" where
  "login_payload identifier password isPhone region =
     (let payload = \<lparr>Scene = ''IOT_APP'', AppVersion = ''1.0.0'',
            lp_Password = b64_encode (bytes_of_string password), BundleID = ''com.ef.EcoFlow'',
            UserType = ''ECOFLOW'', lp_Email = [], Phone = []\<rparr>
      in if isPhone \<and> region = ''api-cn'' then payload\<lparr>Phone := TrimPrefix identifier ''+86''\<rparr>
         else payload\<lparr>lp_Email := identifier\<rparr>)"

definition read_login :: "http \<Rightarrow> int \<Rightarrow> bytes \<Rightarrow> go_error + string" where
  "read_login client code body =
     (if code < 200 \<or> code \<ge> 300 then Inl (LoginError (LoginStatus code))
      else
        case DecodeLogin client body of
          Inl e \<Rightarrow> Inl e
        | Inr parsed \<Rightarrow>
            if Code parsed \<noteq> ''0'' then Inl (LoginError (LoginRejected (Message parsed)))
            else if lr_UserID parsed = [] then Inl (LoginError LoginEmptyUserID)
            else Inr (lr_UserID parsed))"

definition send_login :: "http \<Rightarrow> string \<Rightarrow> loginPayload \<Rightarrow> go_error + string" where
  "send_login client url payload =
     (case MarshalLogin client payload of
        Inl e \<Rightarrow> Inl e
      | Inr body \<Rightarrow>
          (case NewRequest client (url @ ''/auth/login'') of
             Some e \<Rightarrow> Inl e
           | None \<Rightarrow>
               (case Post client (url @ ''/auth/login'') body of
                  Inl e \<Rightarrow> Inl e
                | Inr (code, reply) \<Rightarrow> read_login client code reply)))"

definition ResolveUserID :: "http \<Rightarrow> string gomap \<Rightarrow> ProviderAuthConfig \<Rightarrow> go_error + string" where
  "ResolveUserID client BaseURLByRegion auth =
     (if UserID auth \<noteq> [] then Inr (UserID auth)
      else
        let identifier = TrimSpace (Email auth) in
        if identifier = [] \<or> p_Password auth = [] then Inl (LoginError CredentialsRequired)
        else
          let isPhone = isPhoneIdentifier identifier in
          case normalizeRegion (Region auth) isPhone of
            Inl e \<Rightarrow> Inl e
          | Inr region \<Rightarrow>
              (case baseURL BaseURLByRegion region of
                 Inl e \<Rightarrow> Inl e
               | Inr url \<Rightarrow> send_login client url (login_payload identifier (p_Password auth) isPhone region)))"

section \<open>Lemmas\<close>

lemma normalizeRegion_Inr: "normalizeRegion r p = Inr r' \<Longrightarrow> r' \<in> set regions \<and> (r' = ''api-cn'' \<longrightarrow> p)"
  by (auto simp: normalizeRegion_def Let_def regions_def split: if_splits)

lemma baseURL_known: "r \<in> set regions \<Longrightarrow> baseURL [] r = Inr (''https://'' @ r @ ''.ecoflow.com'')"
  by (simp add: baseURL_def)

lemma normalizeRegion_choice:
  assumes "normalizeRegion r phone = Inr region" "c = ToLower (TrimSpace r)"
  shows "region = (if c = [] \<or> c = ''auto'' then if phone then ''api-cn'' else ''api'' else c)"
  using assms by (auto simp: normalizeRegion_def Let_def split: if_splits)

lemma read_login_Inr:
  "read_login c code b = Inr u \<Longrightarrow> 200 \<le> code \<and> code < 300 \<and>
     (\<exists>parsed. DecodeLogin c b = Inr parsed \<and> Code parsed = ''0'' \<and> lr_UserID parsed = u) \<and> u \<noteq> []"
  by (auto simp: read_login_def split: if_splits sum.splits)

lemma login_payload_account:
  assumes "payload = login_payload ident password phone region"
  shows "DecodeString (lp_Password payload) = Some (bytes_of_string password) \<and>
    (if phone \<and> region = ''api-cn'' then Phone payload = TrimPrefix ident ''+86'' \<and> lp_Email payload = []
     else lp_Email payload = ident \<and> Phone payload = [])"
  using assms by (simp add: login_payload_def Let_def DecodeString_encode)

section \<open>Properties\<close>

text \<open>C39: A resolved user ID is never empty.  It is the configured one, or the one in a successful
  answer, of status 2xx and with code \<open>0\<close>, to one request: to the host of the configured region,
  or of the one chosen by the kind of the identifier; holding the configured password, only in
  Base64; and naming the account by the phone number without its prefix when a phone number goes
  to China, and by the e-mail otherwise.\<close>

theorem resolved_user:
  assumes "ResolveUserID client [] auth = Inr u" "ident = TrimSpace (Email auth)" "phone = isPhoneIdentifier ident"
    "c = ToLower (TrimSpace (Region auth))"
    "region = (if c = [] \<or> c = ''auto'' then if phone then ''api-cn'' else ''api'' else c)"
  shows "u \<noteq> [] \<and> (UserID auth = u \<or> (UserID auth = [] \<and> ident \<noteq> [] \<and> p_Password auth \<noteq> [] \<and>
    region \<in> {''api'', ''api-e'', ''api-a'', ''api-j'', ''api-r'', ''api-cn''} \<and> (region = ''api-cn'' \<longrightarrow> phone) \<and>
    (\<exists>body code reply payload parsed. MarshalLogin client payload = Inr body \<and>
      Post client (''https://'' @ region @ ''.ecoflow.com/auth/login'') body = Inr (code, reply) \<and>
      200 \<le> code \<and> code < 300 \<and>
      DecodeLogin client reply = Inr parsed \<and> Code parsed = ''0'' \<and> lr_UserID parsed = u \<and>
      DecodeString (lp_Password payload) = Some (bytes_of_string (p_Password auth)) \<and>
      (if phone \<and> region = ''api-cn'' then Phone payload = TrimPrefix ident ''+86'' \<and> lp_Email payload = []
       else lp_Email payload = ident \<and> Phone payload = []))))"
proof (cases "UserID auth = []")
  case True
  from assms(1-3) True obtain r where given: "ident \<noteq> []" "p_Password auth \<noteq> []" "normalizeRegion (Region auth) phone = Inr r"
    and url: "send_login client (''https://'' @ r @ ''.ecoflow.com'')
      (login_payload ident (p_Password auth) phone r) = Inr u"
    using normalizeRegion_Inr baseURL_known
    by (fastforce simp: ResolveUserID_def Let_def split: if_splits sum.splits)
  have r: "r = region" using normalizeRegion_choice [OF given(3) assms(4)] assms(5) by simp
  define payload where "payload = login_payload ident (p_Password auth) phone region"
  from url r obtain body code reply where sent: "MarshalLogin client payload = Inr body"
    "Post client (''https://'' @ region @ ''.ecoflow.com/auth/login'') body = Inr (code, reply)"
    "read_login client code reply = Inr u"
    by (auto simp: send_login_def payload_def [symmetric] split: sum.splits option.splits)
  have "region \<in> {''api'', ''api-e'', ''api-a'', ''api-j'', ''api-r'', ''api-cn''}" "region = ''api-cn'' \<longrightarrow> phone"
    using normalizeRegion_Inr [OF given(3)] r by (simp_all add: regions_def)
  then show ?thesis
    using True given(1,2) sent(1,2) read_login_Inr [OF sent(3)] login_payload_account [OF payload_def] by blast
qed (use assms(1) in \<open>simp add: ResolveUserID_def\<close>)

text \<open>A cloud that knows the account by e-mail: a request is just the e-mail.\<close>

definition sample_http :: http where
  "sample_http = \<lparr>MarshalLogin = (\<lambda>p. Inr (bytes_of_string (lp_Email p))), NewRequest = (\<lambda>_. None),
     Post = (\<lambda>_ b. if b = bytes_of_string ''a'' then Inr (200, [2]) else Inr (404, [])),
     DecodeLogin = (\<lambda>_. Inr \<lparr>Code = ''0'', Message = [], lr_UserID = ''1234''\<rparr>)\<rparr>"

theorem resolved_user_witness:
  "\<exists>auth. ResolveUserID sample_http [] auth = Inr ''1234'' \<and> UserID auth = [] \<and>
    (\<exists>reply. Post sample_http ''https://api.ecoflow.com/auth/login'' (bytes_of_string ''a'') = Inr (200, reply))"
proof -
  let ?auth = "\<lparr>UserID = [], Email = ''a'', p_Password = ''b'', Region = ''auto''\<rparr>"
  have e: "TrimSpace ''a'' = ''a''" "ToLower (TrimSpace ''auto'') = ''auto''" "isPhoneIdentifier ''a'' = False"
    by code_simp+
  then have r: "ResolveUserID sample_http [] ?auth = Inr ''1234''"
    by (simp add: ResolveUserID_def normalizeRegion_def baseURL_def regions_def send_login_def read_login_def
        login_payload_def sample_http_def Let_def)
  from resolved_user [OF this refl refl refl refl] e obtain body code reply payload where
    "Post sample_http ''https://api.ecoflow.com/auth/login'' body = Inr (code, reply)"
    "MarshalLogin sample_http payload = Inr body" "lp_Email payload = ''a''" "200 \<le> code" "code < 300"
    by auto
  with r show ?thesis by (intro exI [of _ ?auth]) (auto simp: sample_http_def split: if_splits)
qed

end
