(* ===== verification/Transport.thy ===== *)
theory Transport
  imports Session
begin

text \<open>
  \<open>internal/ecoflow/transport_tinygo.go\<close>: the scan for a device, the connection attempt with
  its time-out and handoff, the choice of the characteristics, and writing.  The Bluetooth
  library is a parameter: scan results, services and writes are given.
\<close>

section \<open>Scanning\<close>

record ScanResult =
  Address :: string
  sr_LocalName :: string
  sr_ManufacturerData :: "ManufacturerData list"

definition found_discovery :: "ScanResult \<Rightarrow> Discovery" where
  "found_discovery r =
     \<lparr>disc_MAC = ToUpper (Address r), LocalName = sr_LocalName r, ManufacturerData = sr_ManufacturerData r\<rparr>"

text \<open>The callback: the channel has room for one match, later ones are dropped.\<close>

definition scan_callback :: "string \<Rightarrow> ScanResult \<Rightarrow> Discovery option \<Rightarrow> Discovery option" where
  "scan_callback want r found =
     (if ToUpper (Address r) \<noteq> want then found
      else case found of None \<Rightarrow> Some (found_discovery r) | Some d \<Rightarrow> Some d)"

text \<open>What happens while the function waits: a result of the scan, or a choice of the select.
  The choice of a match is only there when the channel holds one.\<close>

datatype scan_event =
    Result ScanResult
  | TakeMatch
  | ScanOver "go_error option"
  | ScanCancelled
  | ScanTimer

fun find_loop :: "string \<Rightarrow> Discovery option \<Rightarrow> scan_event list \<Rightarrow> Discovery awaited" where
  "find_loop want found [] = Waiting"
| "find_loop want found (Result r # es) = find_loop want (scan_callback want r found) es"
| "find_loop want found (TakeMatch # es) =
     (case found of Some d \<Rightarrow> Got d | None \<Rightarrow> find_loop want None es)"
| "find_loop want found (ScanOver e # es) =
     (case found of
        Some d \<Rightarrow> Got d
      | None \<Rightarrow> (case e of Some x \<Rightarrow> Failed x | None \<Rightarrow> Failed (TransportError (ScanEnded want))))"
| "find_loop want found (ScanCancelled # es) = Failed Canceled"
| "find_loop want found (ScanTimer # es) = Failed (TransportError (ScanTimeout want))"

definition FindDevice :: "go_error option \<Rightarrow> string \<Rightarrow> scan_event list \<Rightarrow> Discovery awaited" where
  "FindDevice enabled mac es =
     (case enabled of Some e \<Rightarrow> Failed e | None \<Rightarrow> find_loop (ToUpper mac) None es)"

section \<open>Connecting with a time-out\<close>

text \<open>The caller waits at its select; the worker connects, offers its result and hands it over,
  or finds the attempt over and closes the connection.\<close>

datatype 'c caller = AtSelect | Returned "go_error + 'c"
datatype 'c worker = NotStarted | Connecting | Offering "go_error + 'c" | Handed "go_error + 'c" | Dropped "go_error + 'c"

record 'c connect_attempt =
  caller :: "'c caller"
  worker :: "'c worker"
  ctx_done :: bool
  connect_done :: bool                    \<comment> \<open>\<open>connectCtx\<close>: the context, the time-out or the deferred \<open>cancel\<close>\<close>
  closed :: "'c list"

definition connect_start :: "bool \<Rightarrow> 'c connect_attempt" where
  "connect_start done =
     (if done
      then \<lparr>caller = Returned (Inl Canceled), worker = NotStarted, ctx_done = True, connect_done = True, closed = []\<rparr>
      else \<lparr>caller = AtSelect, worker = Connecting, ctx_done = False, connect_done = False, closed = []\<rparr>)"

inductive connect_step :: "string \<Rightarrow> 'c connect_attempt \<Rightarrow> 'c connect_attempt \<Rightarrow> bool" for mac where
  Cancelled: "connect_step mac s (s\<lparr>ctx_done := True, connect_done := True\<rparr>)"
| TimedOut: "connect_step mac s (s\<lparr>connect_done := True\<rparr>)"
| Connected: "worker s = Connecting \<Longrightarrow> connect_step mac s (s\<lparr>worker := Offering r\<rparr>)"
| Handoff: "worker s = Offering r \<Longrightarrow> caller s = AtSelect \<Longrightarrow>
    connect_step mac s (s\<lparr>caller := Returned r, worker := Handed r, connect_done := True\<rparr>)"
| GaveUp: "caller s = AtSelect \<Longrightarrow> connect_done s \<Longrightarrow>
    connect_step mac s (s\<lparr>caller := Returned (Inl (if ctx_done s then Canceled else TransportError (ConnectTimeout mac)))\<rparr>)"
| Drop: "worker s = Offering r \<Longrightarrow> connect_done s \<Longrightarrow>
    connect_step mac s (s\<lparr>worker := Dropped r, closed := (case r of Inr c \<Rightarrow> c # closed s | Inl e \<Rightarrow> closed s)\<rparr>)"

section \<open>Choosing the characteristics\<close>

text \<open>The UUIDs of the two services, notify and write; a later characteristic with the same UUID
  replaces an earlier one.\<close>

definition rfcomm_notify :: string where "rfcomm_notify = ''00000003-0000-1000-8000-00805f9b34fb''"
definition rfcomm_write :: string where "rfcomm_write = ''00000002-0000-1000-8000-00805f9b34fb''"
definition nus_notify :: string where "nus_notify = ''6e400003-b5a3-f393-e0a9-e50e24dcca9e''"
definition nus_write :: string where "nus_write = ''6e400002-b5a3-f393-e0a9-e50e24dcca9e''"

definition last_char :: "string \<Rightarrow> (string \<times> 'ch) list \<Rightarrow> 'ch option" where
  "last_char uuid chars = map_option snd (find (\<lambda>(u, c). ToLower u = uuid) (rev chars))"

definition service_pair :: "(string \<times> 'ch) list \<Rightarrow> ('ch \<times> 'ch) option" where
  "service_pair chars =
     (case (last_char rfcomm_notify chars, last_char rfcomm_write chars) of
        (Some n, Some w) \<Rightarrow> Some (w, n)
      | _ \<Rightarrow>
          (case (last_char nus_notify chars, last_char nus_write chars) of
             (Some n, Some w) \<Rightarrow> Some (w, n)
           | _ \<Rightarrow> None))"

fun choose_pair :: "(go_error + (string \<times> 'ch) list) list \<Rightarrow> ('ch \<times> 'ch) option" where
  "choose_pair [] = None"
| "choose_pair (Inl e # services) = choose_pair services"
| "choose_pair (Inr chars # services) =
     (case service_pair chars of Some p \<Rightarrow> Some p | None \<Rightarrow> choose_pair services)"

text \<open>The result, and whether the device is disconnected.\<close>

definition newTinygoConnection ::
  "(go_error + (go_error + (string \<times> 'ch) list) list) \<Rightarrow> (go_error + ('ch \<times> 'ch)) \<times> bool" where
  "newTinygoConnection discovered =
     (case discovered of
        Inl e \<Rightarrow> (Inl e, True)
      | Inr services \<Rightarrow>
          (case choose_pair services of
             None \<Rightarrow> (Inl (TransportError NoCharacteristics), True)
           | Some p \<Rightarrow> (Inr p, False)))"

section \<open>Notifications and writing\<close>

definition tinygo_callback :: "(bytes \<Rightarrow> 's \<Rightarrow> 's) \<Rightarrow> bytes \<Rightarrow> 's \<Rightarrow> 's" where
  "tinygo_callback handler buf s = (if buf = [] then s else handler buf s)"

text \<open>The handler a session installs: a full channel drops the notification.\<close>

definition enqueue :: "bytes \<Rightarrow> bytes list \<Rightarrow> bytes list" where
  "enqueue data rawCh = (if length rawCh < 128 then rawCh @ [data] else rawCh)"

record 'w characteristic =
  char_Write :: "bytes \<Rightarrow> 'w \<Rightarrow> go_error option \<times> 'w"
  WriteWithoutResponse :: "bytes \<Rightarrow> 'w \<Rightarrow> go_error option \<times> 'w"

definition tinygo_Write :: "'w characteristic \<Rightarrow> bytes \<Rightarrow> bool \<Rightarrow> 'w \<Rightarrow> go_error option \<times> 'w" where
  "tinygo_Write ch data withResponse w =
     (if withResponse then char_Write ch data w
      else
        case WriteWithoutResponse ch data w of
          (None, w) \<Rightarrow> (None, w)
        | (Some e, w) \<Rightarrow> char_Write ch data w)"

section \<open>Lemmas\<close>

definition is_match :: "string \<Rightarrow> ScanResult \<Rightarrow> bool" where
  "is_match want r \<longleftrightarrow> ToUpper (Address r) = want"

lemma find_loop_results:
  "find_loop want found (map Result rs @ es) =
     find_loop want (case found of Some d \<Rightarrow> Some d | None \<Rightarrow> map_option found_discovery (find (is_match want) rs)) es"
proof (induction rs arbitrary: found)
  case (Cons r rs)
  show ?case
    using Cons.IH [of "scan_callback want r found"]
    by (cases found) (auto simp: scan_callback_def is_match_def)
qed (simp split: option.split)

lemma find_loop_Got:
  assumes "find_loop want found es = Got d" "\<forall>d. found = Some d \<longrightarrow> disc_MAC d = want"
  shows "disc_MAC d = want"
  using assms
proof (induction es arbitrary: found)
  case (Cons e es)
  show ?case
  proof (cases e)
    case (Result r)
    with Cons.prems show ?thesis
      by (intro Cons.IH [of "scan_callback want r found"])
        (auto simp: scan_callback_def found_discovery_def split: option.splits if_splits)
  qed (use Cons in \<open>auto split: option.splits\<close>)
qed simp

text \<open>The attempt to connect: the caller owns exactly the connection that was handed over, the
  worker has closed exactly the one it dropped, and an offer that nobody will take can be
  dropped.\<close>

definition attempt_ok :: "'c connect_attempt \<Rightarrow> bool" where
  "attempt_ok s \<longleftrightarrow>
     (case worker s of Handed r \<Rightarrow> caller s = Returned r | _ \<Rightarrow> \<forall>c. caller s \<noteq> Returned (Inr c)) \<and>
     closed s = (case worker s of Dropped (Inr c) \<Rightarrow> [c] | _ \<Rightarrow> []) \<and>
     (caller s \<noteq> AtSelect \<longrightarrow> connect_done s) \<and> (ctx_done s \<longrightarrow> connect_done s)"

lemma connect_start_ok: "attempt_ok (connect_start done)"
  by (simp add: attempt_ok_def connect_start_def)

lemma connect_step_ok: "connect_step mac s s' \<Longrightarrow> attempt_ok s \<Longrightarrow> attempt_ok s'"
proof (induction rule: connect_step.induct)
  case (Cancelled s)
  then show ?case by (cases "worker s") (simp_all add: attempt_ok_def)
next
  case (TimedOut s)
  then show ?case by (cases "worker s") (simp_all add: attempt_ok_def)
next
  case (Connected s r)
  then show ?case by (simp add: attempt_ok_def)
next
  case (Handoff s r)
  then show ?case by (simp add: attempt_ok_def)
next
  case (GaveUp s)
  then show ?case by (cases "worker s") (simp_all add: attempt_ok_def)
next
  case (Drop s r)
  then show ?case by (cases r) (simp_all add: attempt_ok_def)
qed

lemma connect_reachable_ok: "(connect_step mac)\<^sup>*\<^sup>* (connect_start done) s \<Longrightarrow> attempt_ok s"
  by (induction rule: rtranclp_induct) (auto intro: connect_start_ok connect_step_ok)

lemma found_in_list: "find P xs = Some x \<Longrightarrow> x \<in> set xs \<and> P x"
  by (induction xs) (auto split: if_splits)

lemma last_char_mem: "last_char u chars = Some c \<Longrightarrow> \<exists>v. (v, c) \<in> set chars \<and> ToLower v = u"
proof -
  assume "last_char u chars = Some c"
  then obtain v where found: "find (\<lambda>(v, c). ToLower v = u) (rev chars) = Some (v, c)"
    unfolding last_char_def map_option_eq_Some by (metis prod.collapse)
  from found_in_list [OF found] show ?thesis by (intro exI [of _ v]) simp
qed

lemma last_char_None: "last_char u chars = None \<longleftrightarrow> (\<forall>(v, c) \<in> set chars. ToLower v \<noteq> u)"
  by (auto simp: last_char_def find_None_iff)

definition has_char :: "string \<Rightarrow> (string \<times> 'ch) list \<Rightarrow> bool" where
  "has_char u chars \<longleftrightarrow> (\<exists>(v, c) \<in> set chars. ToLower v = u)"

definition has_pair :: "(string \<times> 'ch) list \<Rightarrow> bool" where
  "has_pair chars \<longleftrightarrow> has_char rfcomm_notify chars \<and> has_char rfcomm_write chars \<or>
     has_char nus_notify chars \<and> has_char nus_write chars"

lemma has_char_last: "has_char u chars \<longleftrightarrow> (\<exists>c. last_char u chars = Some c)"
  using last_char_None [of u chars] by (auto simp: has_char_def)

lemma service_pair_None: "service_pair chars = None \<longleftrightarrow> \<not> has_pair chars"
  by (auto simp: service_pair_def has_pair_def has_char_last split: option.splits)

lemma choose_pair_None: "choose_pair services = None \<longleftrightarrow> (\<forall>chars. Inr chars \<in> set services \<longrightarrow> \<not> has_pair chars)"
proof (induction services)
  case (Cons s services)
  then show ?case by (cases s) (auto simp flip: service_pair_None split: option.split)
qed simp

lemma service_pair_Some:
  "service_pair chars = Some (w, n) \<Longrightarrow> \<exists>u v. (u, w) \<in> set chars \<and> (v, n) \<in> set chars \<and>
     ((ToLower u, ToLower v) = (rfcomm_write, rfcomm_notify) \<or> (ToLower u, ToLower v) = (nus_write, nus_notify))"
  by (auto simp: service_pair_def split: option.splits dest!: last_char_mem)

lemma choose_pair_Some:
  "choose_pair services = Some p \<Longrightarrow> \<exists>chars. Inr chars \<in> set services \<and> service_pair chars = Some p"
proof (induction services)
  case (Cons s services)
  then show ?case by (cases s) (auto split: option.splits)
qed simp

lemma enqueue_bounded: "length q \<le> 128 \<Longrightarrow> length (enqueue d q) \<le> 128"
  by (simp add: enqueue_def)

section \<open>Properties\<close>

text \<open>C37: A connection has one owner at every moment of an attempt: the caller returns exactly the
  connection that was handed over, the worker closes exactly the one it drops, and as soon as
  the caller has returned without it, an offered connection can be dropped.\<close>

theorem connection_single_owner:
  assumes "(connect_step mac)\<^sup>*\<^sup>* (connect_start done) s"
  shows "(\<forall>c. caller s = Returned (Inr c) \<longleftrightarrow> worker s = Handed (Inr c)) \<and>
    closed s = (case worker s of Dropped (Inr c) \<Rightarrow> [c] | _ \<Rightarrow> []) \<and>
    (\<forall>r. worker s = Offering r \<and> caller s \<noteq> AtSelect \<longrightarrow> (\<exists>s'. connect_step mac s s' \<and> worker s' = Dropped r))"
proof -
  from connect_reachable_ok [OF assms] have ok: "attempt_ok s" .
  have "\<exists>s'. connect_step mac s s' \<and> worker s' = Dropped r"
    if offer: "worker s = Offering r" and gone: "caller s \<noteq> AtSelect" for r
  proof -
    from ok gone have "connect_done s" unfolding attempt_ok_def by simp
    from Drop [OF offer this] show ?thesis by (intro exI conjI) (assumption, simp)
  qed
  moreover have "\<forall>c. caller s = Returned (Inr c) \<longleftrightarrow> worker s = Handed (Inr c)"
    using ok unfolding attempt_ok_def by (cases "worker s") auto
  moreover have "closed s = (case worker s of Dropped (Inr c) \<Rightarrow> [c] | _ \<Rightarrow> [])"
    using ok unfolding attempt_ok_def by blast
  ultimately show ?thesis by blast
qed

text \<open>The scan returns the first advertisement of the configured address, also when the end of
  the scan, with or without an error, is noticed before the match is taken.\<close>

theorem scan_match_not_lost:
  "find_loop want None (map Result rs @ ScanOver e # es) =
     (case find (is_match want) rs of
        Some r \<Rightarrow> Got (found_discovery r)
      | None \<Rightarrow> Failed (case e of Some x \<Rightarrow> x | None \<Rightarrow> TransportError (ScanEnded want)))"
  by (simp add: find_loop_results split: option.split)

text \<open>C38: A connection is set up exactly when some service has both characteristics of a pair; they
  are taken from one service, and otherwise the device is disconnected.\<close>

theorem characteristics_from_one_service:
  "case newTinygoConnection (Inr services) of
     (Inr (w, n), dropped) \<Rightarrow> \<not> dropped \<and> (\<exists>chars u v. Inr chars \<in> set services \<and> (u, w) \<in> set chars \<and> (v, n) \<in> set chars \<and>
       ((ToLower u, ToLower v) = (rfcomm_write, rfcomm_notify) \<or> (ToLower u, ToLower v) = (nus_write, nus_notify)))
   | (Inl e, dropped) \<Rightarrow> dropped \<and> (\<nexists>chars. Inr chars \<in> set services \<and> has_pair chars)"
proof (cases "choose_pair services")
  case None
  then show ?thesis using choose_pair_None [of services] by (auto simp: newTinygoConnection_def)
next
  case (Some p)
  obtain w n where "p = (w, n)" by force
  moreover from choose_pair_Some [OF Some] obtain chars where
    "Inr chars \<in> set services" "service_pair chars = Some p" by blast
  ultimately show ?thesis
    using Some service_pair_Some [of chars w n] by (fastforce simp: newTinygoConnection_def)
qed

theorem connection_single_owner_witness:
  "\<exists>s. (connect_step ''AA'')\<^sup>*\<^sup>* (connect_start False) s \<and> closed s = [7 :: nat] \<and>
    caller s = Returned (Inl (TransportError (ConnectTimeout ''AA'')))"
proof -
  let ?s0 = "connect_start False :: nat connect_attempt"
  let ?s1 = "?s0\<lparr>connect_done := True\<rparr>"
  let ?s2 = "?s1\<lparr>caller := Returned (Inl (TransportError (ConnectTimeout ''AA'')))\<rparr>"
  let ?s3 = "?s2\<lparr>worker := Offering (Inr 7)\<rparr>"
  let ?s4 = "?s3\<lparr>worker := Dropped (Inr 7), closed := [7]\<rparr>"
  have "connect_step ''AA'' ?s0 ?s1" by (rule TimedOut)
  moreover have "connect_step ''AA'' ?s1 ?s2"
    using GaveUp [of ?s1 "''AA''"] by (simp add: connect_start_def)
  moreover have "connect_step ''AA'' ?s2 ?s3" by (rule Connected) (simp add: connect_start_def)
  moreover have "connect_step ''AA'' ?s3 ?s4"
    using Drop [of ?s3 "Inr 7" "''AA''"] by (simp add: connect_start_def)
  ultimately have "(connect_step ''AA'')\<^sup>*\<^sup>* ?s0 ?s4"
    by (meson converse_rtranclp_into_rtranclp r_into_rtranclp)
  from connection_single_owner [OF this] this show ?thesis
    by (intro exI [of _ ?s4]) simp
qed

end
