(* ===== verification/Provider_Run.thy ===== *)
theory Provider_Run
  imports Session Login Providers
begin

text \<open>
  \<open>Provider.Run\<close> of \<open>internal/ecoflow/provider.go\<close>: the login, one goroutine per device and the
  select that waits for them, as a transition system.  A goroutine runs \<open>runDevice\<close> of theory
  Session; its steps are the events of that loop, and what the loop writes up to its next choice
  becomes visible in the shared store at once.  The loops never read the store.
\<close>

section \<open>The state\<close>

text \<open>A goroutine has not begun, is in the loop of its device, has an error to report, has reported
  it, or is over.  In the loop it holds the events so far and the store it began with.\<close>

datatype goroutine = Starting | Live "event list" Store | Failing go_error | Cancelling | Finished

datatype select_point = AtSelect | Draining "go_error option" | RunReturned "go_error option"

record provider_state =
  run_user :: string
  goroutines :: "goroutine list"
  parent_done :: bool
  run_done :: bool                           \<comment> \<open>the derived context\<close>
  errCh :: "go_error list"
  run_point :: select_point
  run_store :: Store

definition auth_mode :: "ProviderAuthConfig \<Rightarrow> string" where
  "auth_mode auth = (if UserID auth = [] then ''cloud-bootstrap'' else ''user_id'')"

definition run_start :: "http \<Rightarrow> Config \<Rightarrow> bool \<Rightarrow> Store \<Rightarrow> provider_state" where
  "run_start client cfg done store =
     (let s = \<lparr>run_user = [], goroutines = [], parent_done = done, run_done = done, errCh = [],
              run_point = AtSelect, run_store = store\<rparr>
      in case ResolveUserID client [] (p_Auth (Provider cfg)) of
           Inl e \<Rightarrow> s\<lparr>run_point := RunReturned (Some e)\<rparr>
         | Inr userID \<Rightarrow> s\<lparr>run_user := userID, goroutines := map (\<lambda>_. Starting) (Devices cfg)\<rparr>)"

section \<open>Steps\<close>

text \<open>The result when the context is done: its cause, unless that is a cancellation.  The derived
  context has the cause of its parent, or \<open>Canceled\<close> when a failing device cancelled it.\<close>

definition done_result :: "go_error \<Rightarrow> go_error option" where
  "done_result cause = (if cause = Canceled then None else Some cause)"

text \<open>What a goroutine is after its loop has got so far; an error of \<open>runDevice\<close> is passed over when
  the context is done.\<close>

fun carry_on :: "bool \<Rightarrow> event list \<Rightarrow> Store \<Rightarrow> ending \<Rightarrow> goroutine" where
  "carry_on done es st Running = Live es st"
| "carry_on done es st (Ended None) = Finished"
| "carry_on done es st (Ended (Some e)) = (if done then Finished else Failing e)"

text \<open>The loop writes only the entry of its device, with a new time: that entry, when it has
  changed, goes to the shared store.\<close>

definition publish :: "Device \<Rightarrow> Store \<Rightarrow> Store \<Rightarrow> Store \<Rightarrow> Store" where
  "publish d before after store =
     (case Get after (d_Name d) of
        None \<Rightarrow> store
      | Some u \<Rightarrow> if Get before (d_Name d) = Some u then store
                  else Upsert store (d_Name d) (u_Description u) (Vars u) (UpdatedAt u))"

text \<open>The link and the clock of each device are the parameters \<open>env\<close> and \<open>w\<close>.\<close>

definition device_run ::
  "(nat \<Rightarrow> 'w env) \<Rightarrow> (nat \<Rightarrow> 'w) \<Rightarrow> Config \<Rightarrow> string \<Rightarrow> nat \<Rightarrow> event list \<Rightarrow> Store \<Rightarrow>
   (ending \<times> event list \<times> Store \<times> 'w) option" where
  "device_run env w cfg userID i es st = runDevice (env i) cfg (Devices cfg ! i) userID es st (w i)"

definition moved :: "nat \<Rightarrow> goroutine \<Rightarrow> Store \<Rightarrow> provider_state \<Rightarrow> provider_state" where
  "moved i g store s = s\<lparr>goroutines := (goroutines s)[i := g], run_store := store\<rparr>"

inductive run_step ::
  "(nat \<Rightarrow> 'w env) \<Rightarrow> (nat \<Rightarrow> 'w) \<Rightarrow> Config \<Rightarrow> go_error \<Rightarrow> provider_state \<Rightarrow> provider_state \<Rightarrow> bool"
  for env w cfg cause where
  Interrupted: "run_step env w cfg cause s (s\<lparr>parent_done := True, run_done := True\<rparr>)"
| Marked: "run_step env w cfg cause s (s\<lparr>run_store := MarkDevicesWaiting (Devices cfg) now (run_store s)\<rparr>)"
| Begins: "i < length (goroutines s) \<Longrightarrow> goroutines s ! i = Starting \<Longrightarrow>
    device_run env w cfg (run_user s) i [] (run_store s) = Some (r, es', st', w') \<Longrightarrow>
    run_step env w cfg cause s
      (moved i (carry_on (run_done s) [] (run_store s) r)
        (publish (Devices cfg ! i) (run_store s) st' (run_store s)) s)"
| GoesOn: "i < length (goroutines s) \<Longrightarrow> goroutines s ! i = Live es st \<Longrightarrow> e = CtxDone \<longrightarrow> run_done s \<Longrightarrow>
    device_run env w cfg (run_user s) i es st = Some (r0, es0, before, w0) \<Longrightarrow>
    device_run env w cfg (run_user s) i (es @ [e]) st = Some (r, es', after, w') \<Longrightarrow>
    run_step env w cfg cause s
      (moved i (carry_on (run_done s) (es @ [e]) st r) (publish (Devices cfg ! i) before after (run_store s)) s)"
| Reports: "i < length (goroutines s) \<Longrightarrow> goroutines s ! i = Failing e \<Longrightarrow>
    run_step env w cfg cause s (s\<lparr>goroutines := (goroutines s)[i := Cancelling],
      errCh := (if length (errCh s) < length (Devices cfg) then errCh s @ [e] else errCh s)\<rparr>)"
| Cancels: "i < length (goroutines s) \<Longrightarrow> goroutines s ! i = Cancelling \<Longrightarrow>
    run_step env w cfg cause s (s\<lparr>goroutines := (goroutines s)[i := Finished], run_done := True\<rparr>)"
| SeesDone: "run_point s = AtSelect \<Longrightarrow> run_done s \<Longrightarrow>
    run_step env w cfg cause s (s\<lparr>run_point := Draining (done_result (if parent_done s then cause else Canceled))\<rparr>)"
| SeesError: "run_point s = AtSelect \<Longrightarrow> errCh s = e # es \<Longrightarrow>
    run_step env w cfg cause s (s\<lparr>errCh := es, run_point := Draining (Some e)\<rparr>)"
| Drained: "run_point s = Draining r \<Longrightarrow> set (goroutines s) \<subseteq> {Finished} \<Longrightarrow>
    run_step env w cfg cause s (s\<lparr>run_point := RunReturned r\<rparr>)"

section \<open>Lemmas\<close>

definition shows_device :: "Config \<Rightarrow> string \<Rightarrow> Store \<Rightarrow> bool" where
  "shows_device cfg n st \<longleftrightarrow>
     (\<exists>d \<in> set (Devices cfg). d_Name d = n \<and> (entry_waits d st \<or> (\<exists>desc t. entry_lives d desc t st)))"

lemma shows_device_cong: "Get st' n = Get st n \<Longrightarrow> shows_device cfg n st' = shows_device cfg n st"
  unfolding shows_device_def entry_waits_def entry_lives_def by metis

text \<open>What the loop of a device does to its entry.\<close>

definition device_hyps :: "(nat \<Rightarrow> 'w env) \<Rightarrow> Config \<Rightarrow> bool" where
  "device_hyps env cfg \<longleftrightarrow> (\<forall>i. typed_lib (proto (env i))) \<and> 0 < PollSeconds (Provider cfg) \<and>
     PollSeconds (Provider cfg) \<le> 9223372036"

lemma device_run_result:
  assumes "device_hyps env cfg" "wf_store st" "i < length (Devices cfg)"
  obtains r es' st' w' where "device_run env w cfg userID i es st = Some (r, es', st', w')"
    "r \<in> {Running, Ended None}" "wf_store st'" "shows_device cfg (d_Name (Devices cfg ! i)) st'"
proof -
  from assms(1) have "typed_lib (proto (env i))" "0 < PollSeconds (Provider cfg)"
    "PollSeconds (Provider cfg) \<le> 9223372036" by (simp_all add: device_hyps_def)
  from runDevice_result [OF this assms(2), of "Devices cfg ! i" userID es "w i"] obtain r es' st' w' where
    "device_run env w cfg userID i es st = Some (r, es', st', w')" "r \<in> {Running, Ended None}" "wf_store st'"
    "entry_waits (Devices cfg ! i) st' \<or> (\<exists>desc t. entry_lives (Devices cfg ! i) desc t st')"
    unfolding device_run_def device_entry_def by blast
  moreover from this(4) have "shows_device cfg (d_Name (Devices cfg ! i)) st'"
    using nth_mem [OF assms(3)] unfolding shows_device_def by blast
  ultimately show thesis using that by blast
qed

lemma device_run_stops:
  assumes "device_hyps env cfg" "wf_store st"
  obtains es' st' w' where "device_run env w cfg userID i (es @ [CtxDone, CtxDone]) st = Some (Ended None, es', st', w')"
  using runDevice_stops [of "env i" cfg st "Devices cfg ! i" userID es "w i"] assms
  unfolding device_run_def device_hyps_def by blast

text \<open>The store: every entry is the one at the start or shows a device.\<close>

definition entries_ok :: "Config \<Rightarrow> Store \<Rightarrow> Store \<Rightarrow> bool" where
  "entries_ok cfg st0 st \<longleftrightarrow> wf_store st \<and> (\<forall>n. Get st n = Get st0 n \<or> shows_device cfg n st)"

lemma entries_publish:
  assumes "entries_ok cfg st0 st" "wf_store after" "shows_device cfg (d_Name d) after"
  shows "entries_ok cfg st0 (publish d before after st)"
proof (cases "Get after (d_Name d) = None \<or> Get before (d_Name d) = Get after (d_Name d)")
  case False
  then obtain u where u: "Get after (d_Name d) = Some u" "Get before (d_Name d) \<noteq> Some u" by auto
  let ?st = "Upsert st (d_Name d) (u_Description u) (Vars u) (UpdatedAt u)"
  have p: "publish d before after st = ?st" using u by (simp add: publish_def)
  have name: "u_Name u = d_Name d" and wf: "wf_map (Vars u)" using u(1) assms(2) Get_in by (fastforce simp: wf_store_def)+
  have same: "Get ?st (d_Name d) = Get after (d_Name d)" using u(1) name by simp
  have "Get ?st n = Get st0 n \<or> shows_device cfg n ?st" for n
  proof (cases "n = d_Name d")
    case True
    with shows_device_cong [OF same, of cfg] assms(3) show ?thesis by simp
  next
    case False
    then have "Get ?st n = Get st n" by simp
    with shows_device_cong [OF this, of cfg] assms(1) show ?thesis unfolding entries_ok_def by metis
  qed
  with assms(1) wf show ?thesis by (simp add: p entries_ok_def wf_Upsert)
qed (use assms(1) in \<open>auto simp: publish_def split: option.split\<close>)

lemma entries_marked:
  assumes "entries_ok cfg st0 st"
  shows "entries_ok cfg st0 (MarkDevicesWaiting (Devices cfg) now st)"
proof -
  let ?st = "MarkDevicesWaiting (Devices cfg) now st"
  have "Get ?st n = Get st0 n \<or> shows_device cfg n ?st" for n
  proof (cases "n \<in> d_Name ` set (Devices cfg)")
    case True
    then obtain d where d: "d \<in> set (Devices cfg)" "d_Name d = n" by blast
    from MarkDevicesWaiting_entry [OF d(1), of now st] obtain e u where "e \<in> set (Devices cfg)" "d_Name e = n"
      "Get ?st (d_Name e) = Some u" "Vars u = staleVars e [] []" using d(2) by auto
    then show ?thesis unfolding shows_device_def entry_waits_def by blast
  next
    case False
    then have "Get ?st n = Get st n" by (rule MarkDevicesWaiting_other)
    with shows_device_cong [OF this, of cfg] assms show ?thesis unfolding entries_ok_def by metis
  qed
  with assms show ?thesis by (simp add: entries_ok_def wf_MarkDevicesWaiting)
qed

text \<open>The invariant: no goroutine ever has an error, so the context is only done when its parent is,
  and the provider returns only then, or at once when the login fails.\<close>

fun goroutine_ok :: "goroutine \<Rightarrow> bool" where
  "goroutine_ok Starting = True"
| "goroutine_ok (Live es st) = wf_store st"
| "goroutine_ok (Failing e) = False"
| "goroutine_ok Cancelling = False"
| "goroutine_ok Finished = True"

definition run_ok :: "http \<Rightarrow> Config \<Rightarrow> go_error \<Rightarrow> Store \<Rightarrow> provider_state \<Rightarrow> bool" where
  "run_ok client cfg cause st0 s \<longleftrightarrow> entries_ok cfg st0 (run_store s) \<and>
     length (goroutines s) \<le> length (Devices cfg) \<and> (\<forall>g \<in> set (goroutines s). goroutine_ok g) \<and>
     errCh s = [] \<and> run_done s = parent_done s \<and>
     (\<forall>r. run_point s = Draining r \<longrightarrow> parent_done s \<and> r = done_result cause) \<and>
     (\<forall>r. run_point s = RunReturned r \<longrightarrow> set (goroutines s) \<subseteq> {Finished} \<and>
       (case ResolveUserID client [] (p_Auth (Provider cfg)) of
          Inl e \<Rightarrow> r = Some e
        | Inr _ \<Rightarrow> parent_done s \<and> r = done_result cause)) \<and>
     (\<forall>e. ResolveUserID client [] (p_Auth (Provider cfg)) = Inl e \<longrightarrow> run_point s = RunReturned (Some e))"

lemma live_unfinished: "i < length xs \<Longrightarrow> xs ! i \<noteq> Finished \<Longrightarrow> \<not> set xs \<subseteq> {Finished}"
  using nth_mem by blast

lemma not_returned:
  "run_ok client cfg cause st0 s \<Longrightarrow> i < length (goroutines s) \<Longrightarrow> goroutines s ! i \<noteq> Finished \<Longrightarrow>
   run_point s \<noteq> RunReturned r"
  using live_unfinished unfolding run_ok_def by blast

lemma moved_ok:
  assumes "run_ok client cfg cause st0 s" "i < length (goroutines s)" "goroutines s ! i \<noteq> Finished"
    "goroutine_ok g" "entries_ok cfg st0 store"
  shows "run_ok client cfg cause st0 (moved i g store s)"
proof -
  have "\<forall>h \<in> set ((goroutines s)[i := g]). goroutine_ok h"
    using assms(1,4) set_update_subset_insert [of "goroutines s" i g] unfolding run_ok_def by blast
  with assms(1,5) not_returned [OF assms(1-3)] show ?thesis by (simp add: run_ok_def moved_def)
qed

lemma run_step_ok:
  assumes "device_hyps env cfg"
  shows "run_step env w cfg cause s s' \<Longrightarrow> run_ok client cfg cause st0 s \<Longrightarrow> run_ok client cfg cause st0 s'"
proof (induction rule: run_step.induct)
  case (Begins i s r es' st' w')
  have i: "i < length (Devices cfg)" and st: "wf_store (run_store s)"
    using Begins by (simp_all add: run_ok_def entries_ok_def)
  from device_run_result [OF assms st i, of w "run_user s" "[]"] Begins(3) have
    r: "r \<in> {Running, Ended None}" "wf_store st'" "shows_device cfg (d_Name (Devices cfg ! i)) st'" by auto
  show ?case
  proof (rule moved_ok [OF Begins(4,1)])
    show "entries_ok cfg st0 (publish (Devices cfg ! i) (run_store s) st' (run_store s))"
      using Begins(4) r by (intro entries_publish) (simp_all add: run_ok_def)
  qed (use r(1) st Begins(2) in auto)
next
  case (GoesOn i s es st e r0 es0 before w0 r es' after w')
  have i: "i < length (Devices cfg)" using GoesOn by (simp add: run_ok_def)
  have "goroutine_ok (Live es st)" using GoesOn(1,2,6) nth_mem unfolding run_ok_def by metis
  then have st: "wf_store st" by simp
  from device_run_result [OF assms st i, of w "run_user s" "es @ [e]"] GoesOn(5) have
    r: "r \<in> {Running, Ended None}" "wf_store after" "shows_device cfg (d_Name (Devices cfg ! i)) after" by auto
  show ?case
  proof (rule moved_ok [OF GoesOn(6,1)])
    show "entries_ok cfg st0 (publish (Devices cfg ! i) before after (run_store s))"
      using GoesOn(6) r by (intro entries_publish) (simp_all add: run_ok_def)
  qed (use r(1) st GoesOn(2) in auto)
next
  case (Reports i s e)
  then have "goroutine_ok (Failing e)" unfolding run_ok_def by (metis nth_mem)
  then show ?case by simp
next
  case (Cancels i s)
  then have "goroutine_ok Cancelling" unfolding run_ok_def by (metis nth_mem)
  then show ?case by simp
qed (auto simp: run_ok_def entries_marked split: sum.splits)

lemma run_start_ok: "wf_store st \<Longrightarrow> run_ok client cfg cause st (run_start client cfg done st)"
  by (auto simp: run_ok_def entries_ok_def run_start_def Let_def split: sum.split)

lemma run_reachable_ok:
  assumes "device_hyps env cfg" "(run_step env w cfg cause)\<^sup>*\<^sup>* (run_start client cfg done st) s" "wf_store st"
  shows "run_ok client cfg cause st s"
  using assms(2,3) by (induction rule: rtranclp_induct) (auto intro: run_start_ok run_step_ok [OF assms(1)])

text \<open>How far a run is from its return once its context is done: a loop that has seen the context
  done twice is over.\<close>

fun left :: "goroutine \<Rightarrow> nat" where
  "left Starting = 3"
| "left (Live es st) = (if es \<noteq> [] \<and> last es = CtxDone then 1 else 2)"
| "left (Failing e) = 2"
| "left Cancelling = 1"
| "left Finished = 0"

fun select_left :: "select_point \<Rightarrow> nat" where
  "select_left AtSelect = 2" | "select_left (Draining r) = 1" | "select_left (RunReturned r) = 0"

definition run_left :: "provider_state \<Rightarrow> nat" where
  "run_left s = sum_list (map left (goroutines s)) + select_left (run_point s)"

lemma sum_list_update_less:
  assumes "i < length xs" "f y < f (xs ! i)"
  shows "sum_list (map f (xs[i := y])) < (sum_list (map f xs) :: nat)"
proof -
  have "xs = take i xs @ xs ! i # drop (Suc i) xs" using assms(1) by (rule id_take_nth_drop)
  then have "sum_list (map f xs) = sum_list (map f (take i xs)) + f (xs ! i) + sum_list (map f (drop (Suc i) xs))"
    by (metis add.assoc list.simps(9) map_append sum_list.Cons sum_list_append)
  with assms show ?thesis by (simp add: upd_conv_take_nth_drop)
qed

lemma moved_left:
  "i < length (goroutines s) \<Longrightarrow> left g < left (goroutines s ! i) \<Longrightarrow> run_left (moved i g st s) < run_left s"
  using sum_list_update_less [of i "goroutines s" left g] by (simp add: run_left_def moved_def)

text \<open>A goroutine that is not over can take a step.\<close>

lemma goroutine_moves_on:
  assumes "device_hyps env cfg" "run_ok client cfg cause st0 s" "run_done s" "i < length (goroutines s)"
    "goroutines s ! i \<noteq> Finished"
  shows "\<exists>s'. run_step env w cfg cause s s' \<and> run_left s' < run_left s"
proof -
  have i: "i < length (Devices cfg)" and st: "wf_store (run_store s)"
    and g: "goroutine_ok (goroutines s ! i)"
    using assms(2,4) by (simp_all add: run_ok_def entries_ok_def)
  show ?thesis
  proof (cases "goroutines s ! i")
    case Starting
    from device_run_result [OF assms(1) st i] obtain r es' st' w' where
      "device_run env w cfg (run_user s) i [] (run_store s) = Some (r, es', st', w')" "r \<in> {Running, Ended None}" .
    with Begins [OF assms(4) Starting this(1)] moved_left [OF assms(4)] Starting show ?thesis by fastforce
  next
    case (Live es st)
    with g have wf: "wf_store st" by simp
    from device_run_result [OF assms(1) wf i] obtain r0 es0 before w0 where
      b: "device_run env w cfg (run_user s) i es st = Some (r0, es0, before, w0)" .
    have over: "CtxDone = CtxDone \<longrightarrow> run_done s" using assms(3) by simp
    note step = GoesOn [OF assms(4) Live over b]
    show ?thesis
    proof (cases "es \<noteq> [] \<and> last es = CtxDone")
      case True
      then obtain pre where pre: "es = pre @ [CtxDone]" by (metis append_butlast_last_id)
      from device_run_stops [OF assms(1) wf] obtain es' after w' where
        "device_run env w cfg (run_user s) i (pre @ [CtxDone, CtxDone]) st = Some (Ended None, es', after, w')" .
      then have "device_run env w cfg (run_user s) i (es @ [CtxDone]) st = Some (Ended None, es', after, w')"
        by (simp add: pre)
      from step [OF this] moved_left [OF assms(4)] Live True show ?thesis by fastforce
    next
      case False
      from device_run_result [OF assms(1) wf i] obtain r es' after w' where
        "device_run env w cfg (run_user s) i (es @ [CtxDone]) st = Some (r, es', after, w')" "r \<in> {Running, Ended None}" .
      with step [OF this(1)] moved_left [OF assms(4)] Live False show ?thesis by fastforce
    qed
  qed (use g assms(5) in simp_all)
qed

lemma run_moves_on:
  assumes "device_hyps env cfg" "run_ok client cfg cause st0 s" "parent_done s" "\<forall>r. run_point s \<noteq> RunReturned r"
  shows "\<exists>s'. run_step env w cfg cause s s' \<and> run_left s' < run_left s"
proof (cases "set (goroutines s) \<subseteq> {Finished}")
  case True
  have over: "run_done s" using assms(2,3) by (simp add: run_ok_def)
  show ?thesis
  proof (cases "run_point s")
    case AtSelect
    show ?thesis
      by (rule exI, rule conjI, rule SeesDone [OF AtSelect over]) (simp add: run_left_def AtSelect)
  next
    case (Draining r)
    show ?thesis
      by (rule exI, rule conjI, rule Drained [OF Draining True]) (simp add: run_left_def Draining)
  qed (use assms in simp)
next
  case False
  then obtain i where "i < length (goroutines s)" "goroutines s ! i \<noteq> Finished"
    by (metis in_set_conv_nth insertI1 subsetI)
  with goroutine_moves_on [OF assms(1,2)] assms(2,3) show ?thesis by (simp add: run_ok_def)
qed

lemma run_step_done: "run_step env w cfg cause s s' \<Longrightarrow> parent_done s \<Longrightarrow> parent_done s'"
  by (induction rule: run_step.induct) (simp_all add: moved_def)

lemma run_returns:
  assumes "device_hyps env cfg" "run_ok client cfg cause st0 s" "parent_done s"
  shows "\<exists>s' r. (run_step env w cfg cause)\<^sup>*\<^sup>* s s' \<and> run_point s' = RunReturned r"
  using assms(2,3)
proof (induction "run_left s" arbitrary: s rule: less_induct)
  case less
  show ?case
  proof (cases "\<exists>r. run_point s = RunReturned r")
    case False
    with run_moves_on [OF assms(1) less.prems] obtain s1 where
      s1: "run_step env w cfg cause s s1" "run_left s1 < run_left s" by blast
    with less.hyps [of s1] run_step_ok [OF assms(1) s1(1) less.prems(1)] run_step_done [OF s1(1) less.prems(2)]
    obtain s' r where "(run_step env w cfg cause)\<^sup>*\<^sup>* s1 s'" "run_point s' = RunReturned r" by blast
    with s1(1) show ?thesis by (metis converse_rtranclp_into_rtranclp)
  qed blast
qed

text \<open>If \<open>runDevice\<close> could fail, its error could be lost: the device that reports it also cancels
  the context, and the select may take that choice.\<close>

lemma device_error_lost:
  assumes "goroutines s = [Failing e]" "run_point s = AtSelect" "\<not> parent_done s" "errCh s = []" "Devices cfg \<noteq> []"
  shows "\<exists>s'. (run_step env w cfg cause)\<^sup>*\<^sup>* s s' \<and> run_point s' = RunReturned None \<and> errCh s' = [e]"
proof -
  let ?s1 = "s\<lparr>goroutines := [Cancelling], errCh := [e]\<rparr>"
  let ?s2 = "?s1\<lparr>goroutines := [Finished], run_done := True\<rparr>"
  let ?s3 = "?s2\<lparr>run_point := Draining None\<rparr>"
  have "run_step env w cfg cause s ?s1" using Reports [of 0 s e env w cfg cause] assms by simp
  moreover have "run_step env w cfg cause ?s1 ?s2" using Cancels [of 0 ?s1 env w cfg cause] by simp
  moreover have "run_step env w cfg cause ?s2 ?s3"
    using SeesDone [of ?s2 env w cfg cause] assms by (simp add: done_result_def)
  moreover have "run_step env w cfg cause ?s3 (?s3\<lparr>run_point := RunReturned None\<rparr>)"
    using Drained [of ?s3 None env w cfg cause] by simp
  ultimately have "(run_step env w cfg cause)\<^sup>*\<^sup>* s (?s3\<lparr>run_point := RunReturned None\<rparr>)"
    by (meson converse_rtranclp_into_rtranclp r_into_rtranclp)
  then show ?thesis by (intro exI conjI, assumption) simp_all
qed

section \<open>Properties\<close>

text \<open>C24: In every state the provider can reach, whatever the devices, the links and the clocks do, with a
  configured poll interval between 1 and 9223372036 seconds: each entry of the store is as it was
  before or is that of a configured device of that name, waiting or live; no device has an error
  to report; and the provider has returned only with the error of the login, or when its context
  is done and every goroutine is over, with the cause of the context.\<close>

theorem provider_run_safe:
  assumes "\<forall>i. typed_lib (proto (env i))" "0 < PollSeconds (Provider cfg)" "PollSeconds (Provider cfg) \<le> 9223372036"
    "wf_store st" "(run_step env w cfg cause)\<^sup>*\<^sup>* (run_start client cfg done st) s"
  shows "wf_store (run_store s) \<and>
    (\<forall>n. Get (run_store s) n = Get st n \<or>
      (\<exists>d \<in> set (Devices cfg). d_Name d = n \<and>
        (entry_waits d (run_store s) \<or> (\<exists>desc t. entry_lives d desc t (run_store s))))) \<and>
    errCh s = [] \<and> (\<forall>e. Failing e \<notin> set (goroutines s)) \<and>
    (\<forall>r. run_point s = RunReturned r \<longrightarrow>
      (case ResolveUserID client [] (p_Auth (Provider cfg)) of
         Inl e \<Rightarrow> r = Some e
       | Inr _ \<Rightarrow> parent_done s \<and> set (goroutines s) \<subseteq> {Finished} \<and>
           r = (if cause = Canceled then None else Some cause)))"
proof -
  have "device_hyps env cfg" using assms(1-3) by (simp add: device_hyps_def)
  from run_reachable_ok [OF this assms(5,4)] have ok: "run_ok client cfg cause st s" .
  moreover have "Failing e \<notin> set (goroutines s)" for e using ok unfolding run_ok_def by (metis goroutine_ok.simps(3))
  ultimately show ?thesis
    by (auto simp: run_ok_def entries_ok_def shows_device_def done_result_def split: sum.splits)
qed

text \<open>C40: The provider returns: from every state it can reach in which the context is done, it can get to
  its return, by letting each device loop see that.\<close>

theorem provider_run_returns:
  assumes "\<forall>i. typed_lib (proto (env i))" "0 < PollSeconds (Provider cfg)" "PollSeconds (Provider cfg) \<le> 9223372036"
    "wf_store st" "(run_step env w cfg cause)\<^sup>*\<^sup>* (run_start client cfg done st) s" "parent_done s"
  shows "\<exists>s' r. (run_step env w cfg cause)\<^sup>*\<^sup>* s s' \<and> run_point s' = RunReturned r"
proof -
  have hyps: "device_hyps env cfg" using assms(1-3) by (simp add: device_hyps_def)
  from run_returns [OF hyps run_reachable_ok [OF hyps assms(5,4)] assms(6)] show ?thesis .
qed

section \<open>Witnesses\<close>

definition sample_provider :: Config where
  "sample_provider = sample_config\<lparr>Provider := (Provider sample_config)
     \<lparr>p_Auth := \<lparr>UserID = ''1234'', Email = [], p_Password = [], Region = []\<rparr>\<rparr>\<rparr>"

abbreviation sample_run :: "provider_state \<Rightarrow> provider_state \<Rightarrow> bool" where
  "sample_run \<equiv> (run_step (\<lambda>_. sample_env) (\<lambda>_. []) sample_provider Canceled)\<^sup>*\<^sup>*"

lemma sample_hyps: "device_hyps (\<lambda>_. sample_env) sample_provider"
  using sample_poll sample_env_typed by (simp add: device_hyps_def sample_provider_def)

lemma sample_begins:
  obtains s where "sample_run (run_start sample_http sample_provider False New) s" "Get (run_store s) ''delta2'' \<noteq> None"
    "\<forall>r. run_point s \<noteq> RunReturned r"
proof -
  let ?s = "run_start sample_http sample_provider False New"
  have devs: "Devices sample_provider = [device_defaults sample_device]"
    "d_Name (device_defaults sample_device) = ''delta2''"
    by (simp_all add: sample_provider_def sample_config_def device_defaults_def sample_device_def)
  have s: "goroutines ?s = [Starting]" "run_store ?s = New" "run_point ?s = AtSelect"
    using devs(1) by (simp_all add: run_start_def sample_provider_def ResolveUserID_def)
  have i: "0 < length (goroutines ?s)" "goroutines ?s ! 0 = Starting" "0 < length (Devices sample_provider)"
    using s devs by simp_all
  from device_run_result [OF sample_hyps wf_New i(3)] obtain r es' st' w' where
    r: "device_run (\<lambda>_. sample_env) (\<lambda>_. []) sample_provider (run_user ?s) 0 [] (run_store ?s) = Some (r, es', st', w')"
    "shows_device sample_provider (d_Name (Devices sample_provider ! 0)) st'"
    unfolding s(2) .
  from Begins [OF i(1,2) r(1)] have "sample_run ?s (moved 0 (carry_on (run_done ?s) [] (run_store ?s) r)
      (publish (Devices sample_provider ! 0) (run_store ?s) st' (run_store ?s)) ?s)" by (rule r_into_rtranclp)
  moreover have "Get st' ''delta2'' \<noteq> None"
    using r(2) devs by (auto simp: shows_device_def entry_waits_def entry_lives_def)
  ultimately show thesis
    using that s devs by (force simp: moved_def publish_def split: option.splits)
qed

theorem provider_run_safe_witness:
  "\<exists>s. sample_run (run_start sample_http sample_provider False New) s \<and>
    (\<exists>d. d_Name d = ''delta2'' \<and> (entry_waits d (run_store s) \<or> (\<exists>desc t. entry_lives d desc t (run_store s))))"
proof -
  obtain s where s: "sample_run (run_start sample_http sample_provider False New) s"
    "Get (run_store s) ''delta2'' \<noteq> None" by (rule sample_begins)
  have "\<forall>i. typed_lib (proto sample_env)" "0 < PollSeconds (Provider sample_provider)"
    "PollSeconds (Provider sample_provider) \<le> 9223372036"
    using sample_hyps by (simp_all add: device_hyps_def)
  from provider_run_safe [OF this wf_New s(1)] have
    "Get (run_store s) ''delta2'' = Get New ''delta2'' \<or> (\<exists>d \<in> set (Devices sample_provider). d_Name d = ''delta2'' \<and>
      (entry_waits d (run_store s) \<or> (\<exists>desc t. entry_lives d desc t (run_store s))))" by blast
  then have "\<exists>d \<in> set (Devices sample_provider). d_Name d = ''delta2'' \<and>
      (entry_waits d (run_store s) \<or> (\<exists>desc t. entry_lives d desc t (run_store s)))"
    using s(2) by (auto simp: Get_def New_def)
  with s(1) show ?thesis by blast
qed

theorem provider_run_returns_witness:
  "\<exists>s s' r. sample_run (run_start sample_http sample_provider False New) s \<and> Get (run_store s) ''delta2'' \<noteq> None \<and>
    sample_run s s' \<and> run_point s' = RunReturned r"
proof -
  obtain s where s: "sample_run (run_start sample_http sample_provider False New) s"
    "Get (run_store s) ''delta2'' \<noteq> None" by (rule sample_begins)
  let ?s = "s\<lparr>parent_done := True, run_done := True\<rparr>"
  from s(1) Interrupted have reached: "sample_run (run_start sample_http sample_provider False New) ?s"
    by (metis rtranclp.rtrancl_into_rtrancl)
  have "\<forall>i. typed_lib (proto sample_env)" "0 < PollSeconds (Provider sample_provider)"
    "PollSeconds (Provider sample_provider) \<le> 9223372036"
    using sample_hyps by (simp_all add: device_hyps_def)
  from provider_run_returns [OF this wf_New reached] obtain s' r where
    "sample_run ?s s'" "run_point s' = RunReturned r" by auto
  moreover have "Get (run_store ?s) ''delta2'' \<noteq> None" using s(2) by simp
  ultimately show ?thesis using reached by blast
qed

end
