(* ===== verification/Web.thy ===== *)
theory Web
  imports Manager Nut
begin

text \<open>
  \<open>internal/web/server.go\<close>, the server: authentication, routing and the handlers, on the state of
  the provider manager.  Serving a request is a step relation: the critical section of a call of
  the manager, the end of that call, the reading of the status and the reading of the store are
  separate steps, between which the manager, its runner and other requests go on.  The HTML
  template engine is a parameter, and a JSON answer is the value it encodes.
\<close>

section \<open>Requests and answers\<close>

record request =
  Method :: string
  URLPath :: string
  Authorization :: string             \<comment> \<open>empty when the header is missing\<close>

record daemonInfo =
  NUTListen :: string
  WebListen :: string

record deviceResponse =
  dr_Name :: string
  dr_Description :: string
  dr_UpdatedAt :: time
  AgeSeconds :: int
  dr_Vars :: "string gomap"

record statusResponse =
  sr_Daemon :: daemonInfo
  sr_Provider :: ProviderStatus
  sr_Devices :: "deviceResponse list"

record pageDevice =
  pd_Name :: string
  pd_Description :: string
  pd_UpdatedAt :: time
  pd_AgeSeconds :: int
  pd_Vars :: "(string \<times> string) list"

record pageData =
  Title :: string
  pg_Provider :: ProviderStatus
  pg_Daemon :: daemonInfo
  pg_Devices :: "pageDevice list"
  ControlURL :: string

datatype body = Html string | Json statusResponse | Logo | PlainText string | MovedTo string

record response =
  StatusCode :: int
  Challenge :: "string option"
  Body :: body

definition ok_response :: "body \<Rightarrow> response" where
  "ok_response b = \<lparr>StatusCode = 200, Challenge = None, Body = b\<rparr>"

section \<open>The age of an entry\<close>

text \<open>\<open>Time.Sub\<close> saturates, \<open>Duration.Round\<close> rounds half away from zero and saturates.\<close>

definition time_Sub :: "time \<Rightarrow> time \<Rightarrow> int" where
  "time_Sub t u = max (- (2 ^ 63)) (min (2 ^ 63 - 1) (t - u))"

definition wrap64 :: "int \<Rightarrow> int" where
  "wrap64 n = sint (word_of_int n :: 64 word)"

definition Round :: "int \<Rightarrow> int \<Rightarrow> int" where
  "Round d m =
     (if m \<le> 0 then d
      else
        let r = \<bar>d\<bar> mod m in
        if d < 0 then
          (if r + r < m then d + r
           else let d1 = wrap64 (d - m + r) in if d1 < d then d1 else - (2 ^ 63))
        else
          (if r + r < m then d - r
           else let d1 = wrap64 (d + m - r) in if d1 > d then d1 else 2 ^ 63 - 1))"

definition age_seconds :: "time \<Rightarrow> time \<Rightarrow> int" where
  "age_seconds now updated = trunc_div (Round (time_Sub now updated) Second) Second"

section \<open>The views of the store\<close>

definition daemon_info :: "Config \<Rightarrow> daemonInfo" where
  "daemon_info cfg = \<lparr>NUTListen = Listen cfg, WebListen = web_Listen (Web cfg)\<rparr>"

definition devices :: "time \<Rightarrow> Store \<Rightarrow> deviceResponse list" where
  "devices now store =
     map (\<lambda>u. \<lparr>dr_Name = u_Name u, dr_Description = u_Description u, dr_UpdatedAt = UpdatedAt u,
              AgeSeconds = age_seconds now (UpdatedAt u), dr_Vars = Vars u\<rparr>) (Snapshot store)"

text \<open>The status is read before the store; both are arguments.\<close>

definition web_snapshot :: "Config \<Rightarrow> ProviderStatus \<Rightarrow> time \<Rightarrow> Store \<Rightarrow> statusResponse" where
  "web_snapshot cfg st now store =
     \<lparr>sr_Daemon = daemon_info cfg, sr_Provider = st, sr_Devices = devices now store\<rparr>"

definition page_vars :: "UPS \<Rightarrow> (string \<times> string) list" where
  "page_vars u = map (\<lambda>key. (key, the (map_get (Vars u) key))) (sorted_keys (Vars u))"

definition pageDevices :: "time \<Rightarrow> Store \<Rightarrow> pageDevice list" where
  "pageDevices now store =
     map (\<lambda>u. \<lparr>pd_Name = u_Name u, pd_Description = u_Description u, pd_UpdatedAt = UpdatedAt u,
              pd_AgeSeconds = age_seconds now (UpdatedAt u), pd_Vars = page_vars u\<rparr>) (Snapshot store)"

definition controlTitle :: "string \<Rightarrow> string" where
  "controlTitle providerType =
     (if providerType = ''eco-ble'' then ''EcoFlow BLE Collector Control'' else ''Provider Control'')"

definition controlNote :: "string \<Rightarrow> string" where
  "controlNote providerType =
     (if providerType = ''eco-ble''
      then ''Disabling the BLE collector pauses this daemon'' @ [CHR 0x27] @ ''s BLE session so another local tool can connect. It does not change the device-side Bluetooth setting.''
      else ''Disabling the provider pauses data collection in this daemon.'')"

definition page_data :: "Config \<Rightarrow> ProviderStatus \<Rightarrow> time \<Rightarrow> Store \<Rightarrow> pageData" where
  "page_data cfg st now store =
     \<lparr>Title = controlTitle (Type (Provider cfg)), pg_Provider = st, pg_Daemon = daemon_info cfg,
      pg_Devices = pageDevices now store, ControlURL = controlNote (Type (Provider cfg))\<rparr>"

section \<open>Authentication\<close>

definition Cut :: "string \<Rightarrow> char \<Rightarrow> (string \<times> string) option" where
  "Cut s c = (if c \<in> set s then Some (takeWhile (\<lambda>d. d \<noteq> c) s, tl (dropWhile (\<lambda>d. d \<noteq> c) s)) else None)"

text \<open>\<open>Request.BasicAuth\<close>.\<close>

definition BasicAuth :: "request \<Rightarrow> (string \<times> string) option" where
  "BasicAuth r =
     (let auth = Authorization r in
      if length auth < 6 \<or> \<not> EqualFold (take 6 auth) ''Basic '' then None
      else Option.bind (DecodeString (drop 6 auth)) (\<lambda>c. Cut (string_of_bytes c) CHR '':''))"

definition unauthorized :: response where
  "unauthorized =
     \<lparr>StatusCode = 401, Challenge = Some ''Basic realm=\"ecoflow-ble-nutd\"'',
      Body = PlainText (''authentication required'' @ [newline])\<rparr>"

text \<open>Whether \<open>next\<close> is called; otherwise the answer is \<open>unauthorized\<close>.\<close>

definition protect :: "Config \<Rightarrow> request \<Rightarrow> bool" where
  "protect cfg r \<longleftrightarrow>
     (if Username (Auth cfg) = [] \<and> Password (Auth cfg) = [] then True
      else
        case BasicAuth r of
          None \<Rightarrow> False
        | Some (username, password) \<Rightarrow>
            \<not> (username \<noteq> Username (Auth cfg) \<or> password \<noteq> Password (Auth cfg)))"

section \<open>Routes\<close>

datatype endpoint = PageEndpoint | LogoEndpoint | StatusEndpoint | EnableEndpoint | DisableEndpoint

definition patterns :: "(string \<times> string \<times> endpoint) list" where
  "patterns =
     [(''GET'', ''/'', PageEndpoint), (''GET'', ''/assets/logo.svg'', LogoEndpoint),
      (''GET'', ''/favicon.svg'', LogoEndpoint), (''GET'', ''/api/status'', StatusEndpoint),
      (''POST'', ''/api/provider/enable'', EnableEndpoint), (''POST'', ''/api/provider/disable'', DisableEndpoint),
      (''POST'', ''/api/ble/enable'', EnableEndpoint), (''POST'', ''/api/ble/disable'', DisableEndpoint)]"

text \<open>\<open>http.ServeMux\<close>.  A path that is not clean is redirected to its clean form: no empty or \<open>.\<close>
  elements, and \<open>..\<close> taken up.\<close>

fun path_elements :: "string \<Rightarrow> string \<Rightarrow> string list" where
  "path_elements w [] = [rev w]"
| "path_elements w (c # cs) = (if c = CHR ''/'' then rev w # path_elements [] cs else path_elements (c # w) cs)"

fun clean_elements :: "string list \<Rightarrow> string list \<Rightarrow> string list" where
  "clean_elements done [] = rev done"
| "clean_elements done (e # es) =
     (if e = [] \<or> e = ''.'' then clean_elements done es
      else if e = ''..'' then clean_elements (tl done) es
      else clean_elements (e # done) es)"

definition cleanPath :: "string \<Rightarrow> string" where
  "cleanPath p =
     (let p = (if p = [] \<or> hd p \<noteq> CHR ''/'' then CHR ''/'' # p else p);
          es = clean_elements [] (path_elements [] p);
          np = (if es = [] then ''/'' else concat (map (\<lambda>e. CHR ''/'' # e) es))
      in if last p = CHR ''/'' \<and> np \<noteq> ''/'' then np @ ''/'' else np)"

text \<open>A \<open>GET\<close> pattern also takes \<open>HEAD\<close>; an exact path is more specific than a subtree, and the
  subtree of \<open>/\<close> has every path.  No match is the answer 405.\<close>

definition method_matches :: "string \<Rightarrow> string \<Rightarrow> bool" where
  "method_matches pat meth \<longleftrightarrow> meth = pat \<or> pat = ''GET'' \<and> meth = ''HEAD''"

datatype routed = To endpoint | RedirectTo string | NotAllowed

definition route :: "request \<Rightarrow> routed" where
  "route r =
     (if Method r \<noteq> ''CONNECT'' \<and> cleanPath (URLPath r) \<noteq> URLPath r then RedirectTo (cleanPath (URLPath r))
      else
        case find (\<lambda>(meth, path, e). method_matches meth (Method r) \<and> URLPath r = path) patterns of
          Some (_, _, e) \<Rightarrow> To e
        | None \<Rightarrow>
            (case find (\<lambda>(meth, path, e). method_matches meth (Method r) \<and> path = ''/'') patterns of
               Some (_, _, e) \<Rightarrow> To e
             | None \<Rightarrow> NotAllowed))"

section \<open>Handlers\<close>

text \<open>The standard library: the template engine writes some output and may fail with an error text,
  and redirects have a status code.\<close>

record weblib =
  Execute :: "pageData \<Rightarrow> string \<times> string option"
  redirect_status :: int

text \<open>Before anything is written an error of the template still sets the status code.\<close>

definition handlePage :: "weblib \<Rightarrow> Config \<Rightarrow> ProviderStatus \<Rightarrow> time \<Rightarrow> Store \<Rightarrow> response" where
  "handlePage lib cfg st now store =
     (case Execute lib (page_data cfg st now store) of
        (out, None) \<Rightarrow> ok_response (Html out)
      | (out, Some e) \<Rightarrow>
          if out = [] then \<lparr>StatusCode = 500, Challenge = None, Body = PlainText (e @ [newline])\<rparr>
          else ok_response (Html (out @ e @ [newline])))"

definition handleStatus :: "Config \<Rightarrow> ProviderStatus \<Rightarrow> time \<Rightarrow> Store \<Rightarrow> response" where
  "handleStatus cfg st now store = ok_response (Json (web_snapshot cfg st now store))"

text \<open>Where a request is: received, in a call of the manager (a call has its place in the list of
  calls, where it stays with the actions it still has to do), before the reading of the status,
  between the two readings, or answered.\<close>

datatype view_kind = AsJson | AsPage

datatype handling =
    Received request
  | InCall nat
  | Rendering view_kind
  | WithStatus view_kind ProviderStatus
  | Answered response

text \<open>After the critical section of a call; one that found nothing to do is over at once.\<close>

definition called :: "manager \<Rightarrow> manager \<Rightarrow> handling" where
  "called m m' = (if length (calls m') = length (calls m) then Rendering AsJson else InCall (length (calls m)))"

inductive request_step :: "weblib \<Rightarrow> Config \<Rightarrow> manager \<times> handling \<Rightarrow> manager \<times> handling \<Rightarrow> bool" for lib cfg where
  Refuse: "\<not> protect cfg r \<Longrightarrow> request_step lib cfg (m, Received r) (m, Answered unauthorized)"
| ServePage: "protect cfg r \<Longrightarrow> route r = To PageEndpoint \<Longrightarrow>
    request_step lib cfg (m, Received r) (m, Rendering AsPage)"
| ServeLogo: "protect cfg r \<Longrightarrow> route r = To LogoEndpoint \<Longrightarrow>
    request_step lib cfg (m, Received r) (m, Answered (ok_response Logo))"
| ServeStatus: "protect cfg r \<Longrightarrow> route r = To StatusEndpoint \<Longrightarrow>
    request_step lib cfg (m, Received r) (m, Rendering AsJson)"
| ServeEnable: "protect cfg r \<Longrightarrow> route r = To EnableEndpoint \<Longrightarrow>
    request_step lib cfg (m, Received r) (manager_Enable now m, called m (manager_Enable now m))"
| ServeDisable: "protect cfg r \<Longrightarrow> route r = To DisableEndpoint \<Longrightarrow>
    request_step lib cfg (m, Received r) (manager_Disable now m, called m (manager_Disable now m))"
| ServeRedirect: "protect cfg r \<Longrightarrow> route r = RedirectTo path \<Longrightarrow>
    request_step lib cfg (m, Received r)
      (m, Answered \<lparr>StatusCode = redirect_status lib, Challenge = None, Body = MovedTo path\<rparr>)"
| ServeNotAllowed: "protect cfg r \<Longrightarrow> route r = NotAllowed \<Longrightarrow>
    request_step lib cfg (m, Received r)
      (m, Answered \<lparr>StatusCode = 405, Challenge = None, Body = PlainText (''Method Not Allowed'' @ [newline])\<rparr>)"
| CallOver: "i < length (calls m) \<Longrightarrow> calls m ! i = [] \<Longrightarrow>
    request_step lib cfg (m, InCall i) (m, Rendering AsJson)"
| ReadStatus: "request_step lib cfg (m, Rendering k) (m, WithStatus k (status m))"
| ReadStore: "request_step lib cfg (m, WithStatus k st)
    (m, Answered (if k = AsPage then handlePage lib cfg st now (mstore m) else handleStatus cfg st now (mstore m)))"

text \<open>A request in its surroundings: the manager, its runner and any other calls go on.\<close>

inductive web_step :: "weblib \<Rightarrow> Config \<Rightarrow> manager \<times> handling \<Rightarrow> manager \<times> handling \<Rightarrow> bool" for lib cfg where
  Serve: "request_step lib cfg c c' \<Longrightarrow> web_step lib cfg c c'"
| Meanwhile: "manager_step (Devices cfg) m m' \<Longrightarrow> web_step lib cfg (m, h) (m', h)"

inductive_cases request_stepE: "request_step lib cfg (m, h) (m', h')"

section \<open>Running the server\<close>

text \<open>Whether the server listens, and what \<open>Run\<close> makes of the end of \<open>ListenAndServe\<close>.\<close>

datatype serve_end = ServerClosed | ServeFailed go_error | ServedNil

definition web_Run :: "Config \<Rightarrow> serve_end \<Rightarrow> go_error option" where
  "web_Run cfg served =
     (if \<not> Enable (Web cfg) then None
      else if web_Listen (Web cfg) = [] then None
      else case served of ServeFailed e \<Rightarrow> Some e | _ \<Rightarrow> None)"


section \<open>Lemmas\<close>

lemma string_of_bytes_of_string: "string_of_bytes (bytes_of_string s) = s"
proof -
  have "char_of (unat (of_char c :: byte)) = c" for c
  proof -
    have "unat (of_nat (of_char c) :: byte) = take_bit 8 (of_char c :: nat)" by (simp add: unsigned_of_nat)
    moreover have "(of_char c :: byte) = of_nat (of_char c)" by (simp only: of_nat_of_char)
    ultimately show ?thesis by (simp add: char_of_take_bit_eq)
  qed
  then show ?thesis by (induction s) (simp_all add: string_of_bytes_def bytes_of_string_def)
qed

lemma bytes_of_string_of_bytes: "bytes_of_string (string_of_bytes b) = b"
proof -
  have "of_char (char_of (unat w)) = w" for w :: byte
  proof -
    have "unat w < 256" using unsigned_less [of w, where 'a = nat] by simp
    then have "(of_char (char_of (unat w)) :: nat) = unat w" by (simp add: of_char_of)
    then have "(of_nat (of_char (char_of (unat w))) :: byte) = w" by simp
    then show ?thesis by (simp only: of_nat_of_char)
  qed
  then show ?thesis by (induction b) (simp_all add: string_of_bytes_def bytes_of_string_def)
qed

lemma Cut_Some: "Cut s c = Some (u, p) \<longleftrightarrow> s = u @ c # p \<and> c \<notin> set u"
proof
  show "Cut s c = Some (u, p) \<Longrightarrow> s = u @ c # p \<and> c \<notin> set u"
  proof (induction s arbitrary: u)
    case (Cons d s)
    show ?case
    proof (cases "d = c")
      case False
      with Cons.prems have "Cut s c = Some (tl u, p)" "u = d # tl u" by (auto simp: Cut_def split: if_splits)
      with Cons.IH [of "tl u"] False show ?thesis by (metis append_Cons set_ConsD)
    qed (use Cons.prems in \<open>auto simp: Cut_def\<close>)
  qed (simp add: Cut_def)
  show "s = u @ c # p \<and> c \<notin> set u \<Longrightarrow> Cut s c = Some (u, p)"
  proof (induction u arbitrary: s)
    case (Cons d u)
    then show ?case by (auto simp: Cut_def)
  qed (simp add: Cut_def)
qed

definition secured :: "Config \<Rightarrow> bool" where
  "secured cfg \<longleftrightarrow> Username (Auth cfg) \<noteq> [] \<or> Password (Auth cfg) \<noteq> []"

text \<open>The headers that carry a user name and a password: the scheme in any case, and the Base64 of
  the two with a colon between them.\<close>

definition basic_credentials :: "string \<Rightarrow> string \<Rightarrow> string \<Rightarrow> bool" where
  "basic_credentials header u p \<longleftrightarrow>
     (\<exists>scheme enc. header = scheme @ enc \<and> length scheme = 6 \<and> EqualFold scheme ''Basic '' \<and>
        DecodeString enc = Some (bytes_of_string (u @ CHR '':'' # p)))"

lemma BasicAuth_Some:
  "BasicAuth r = Some (u, p) \<longleftrightarrow> basic_credentials (Authorization r) u p \<and> CHR '':'' \<notin> set u"
proof
  assume "BasicAuth r = Some (u, p)"
  then obtain b where b: "\<not> length (Authorization r) < 6" "EqualFold (take 6 (Authorization r)) ''Basic ''"
    "DecodeString (drop 6 (Authorization r)) = Some b" "Cut (string_of_bytes b) CHR '':'' = Some (u, p)"
    by (auto simp: BasicAuth_def Let_def Option.bind_eq_Some_conv split: if_splits)
  from b(4) have "string_of_bytes b = u @ CHR '':'' # p" "CHR '':'' \<notin> set u" by (simp_all add: Cut_Some)
  moreover from this(1) have "b = bytes_of_string (u @ CHR '':'' # p)" by (metis bytes_of_string_of_bytes)
  ultimately show "basic_credentials (Authorization r) u p \<and> CHR '':'' \<notin> set u"
    using b(1-3) unfolding basic_credentials_def
    by (intro conjI exI [of _ "take 6 (Authorization r)"] exI [of _ "drop 6 (Authorization r)"]) simp_all
next
  assume a: "basic_credentials (Authorization r) u p \<and> CHR '':'' \<notin> set u"
  then obtain scheme enc where "Authorization r = scheme @ enc" "length scheme = 6" "EqualFold scheme ''Basic ''"
    "DecodeString enc = Some (bytes_of_string (u @ CHR '':'' # p))"
    unfolding basic_credentials_def by blast
  moreover have "Cut (u @ CHR '':'' # p) CHR '':'' = Some (u, p)" using a by (simp add: Cut_Some)
  ultimately show "BasicAuth r = Some (u, p)"
    by (simp add: BasicAuth_def Let_def string_of_bytes_of_string)
qed

lemma protect_iff:
  "protect cfg r \<longleftrightarrow> \<not> secured cfg \<or>
     basic_credentials (Authorization r) (Username (Auth cfg)) (Password (Auth cfg)) \<and>
     CHR '':'' \<notin> set (Username (Auth cfg))"
  unfolding BasicAuth_Some [symmetric] by (auto simp: protect_def secured_def split: option.split)

lemma route_cases:
  "route r = To EnableEndpoint \<Longrightarrow> Method r = ''POST'' \<and> URLPath r \<in> {''/api/provider/enable'', ''/api/ble/enable''}"
  "route r = To DisableEndpoint \<Longrightarrow> Method r = ''POST'' \<and> URLPath r \<in> {''/api/provider/disable'', ''/api/ble/disable''}"
  by (auto simp: route_def patterns_def method_matches_def split: if_splits)

lemma clean_controls:
  "cleanPath ''/api/provider/enable'' = ''/api/provider/enable''" "cleanPath ''/api/ble/enable'' = ''/api/ble/enable''"
  "cleanPath ''/api/provider/disable'' = ''/api/provider/disable''" "cleanPath ''/api/ble/disable'' = ''/api/ble/disable''"
  by code_simp+

lemma route_disable:
  "Method r = ''POST'' \<Longrightarrow> URLPath r \<in> {''/api/provider/disable'', ''/api/ble/disable''} \<Longrightarrow> route r = To DisableEndpoint"
  by (auto simp: route_def patterns_def method_matches_def clean_controls)

lemma request_step_ok:
  assumes "request_step lib cfg (m, h) (m', h')" "manager_ok (Devices cfg) m"
  shows "manager_ok (Devices cfg) m'"
  using assms by (elim request_stepE) (auto intro: enable_ok disable_ok)

lemma web_step_ok:
  assumes "web_step lib cfg (m, h) (m', h')" "manager_ok (Devices cfg) m"
  shows "manager_ok (Devices cfg) m'"
  using assms(1)
proof (cases rule: web_step.cases)
  case Serve
  then show ?thesis using assms(2) by (rule request_step_ok)
next
  case Meanwhile
  with assms(2) show ?thesis by (blast intro: manager_step_ok)
qed

text \<open>A run of steps that nobody uses to enable the provider again.\<close>

definition undisturbed :: "weblib \<Rightarrow> Config \<Rightarrow> manager \<times> handling \<Rightarrow> manager \<times> handling \<Rightarrow> bool" where
  "undisturbed lib cfg c c' \<longleftrightarrow>
     web_step lib cfg c c' \<and> (Enabled (status (fst c')) \<longrightarrow> Enabled (status (fst c)))"

text \<open>What holds on the way from a disabling request to its answer.\<close>

fun disabling :: "request \<Rightarrow> manager \<times> handling \<Rightarrow> bool" where
  "disabling r (m, Received r') \<longleftrightarrow> r' = r"
| "disabling r (m, InCall i) \<longleftrightarrow> \<not> Enabled (status m)"
| "disabling r (m, Rendering k) \<longleftrightarrow> k = AsJson \<and> \<not> Enabled (status m)"
| "disabling r (m, WithStatus k st) \<longleftrightarrow> k = AsJson \<and> \<not> Enabled st \<and> \<not> IsRunning st \<and> \<not> Enabled (status m)"
| "disabling r (m, Answered a) \<longleftrightarrow> (\<exists>s. a = ok_response (Json s) \<and> \<not> Enabled (sr_Provider s) \<and>
     \<not> IsRunning (sr_Provider s)) \<and> \<not> Enabled (status m)"

lemma disable_off: "\<not> Enabled (status (manager_Disable now m))"
  by (simp add: manager_Disable_def Let_def)

lemma not_running: "manager_ok ds m \<Longrightarrow> \<not> Enabled (status m) \<Longrightarrow> \<not> IsRunning (status m)"
  by (simp add: manager_ok_def)

lemma disabling_step:
  assumes "undisturbed lib cfg (m, h) (m', h')" "disabling r (m, h)" "protect cfg r" "route r = To DisableEndpoint"
    "manager_ok (Devices cfg) m"
  shows "disabling r (m', h')"
proof -
  from assms(1) have step: "web_step lib cfg (m, h) (m', h')"
    and off: "\<not> Enabled (status m) \<Longrightarrow> \<not> Enabled (status m')" by (auto simp: undisturbed_def)
  from step show ?thesis
  proof (cases rule: web_step.cases)
    case Serve
    then show ?thesis
      by (rule request_stepE)
        (use assms(2-5) not_running [OF assms(5)] disable_off in
          \<open>auto simp: called_def handleStatus_def web_snapshot_def\<close>)
  next
    case Meanwhile
    with assms(2) off show ?thesis by (cases h) auto
  qed
qed

lemma disabling_run:
  assumes "(undisturbed lib cfg)\<^sup>*\<^sup>* (m, Received r) (m', h')" "protect cfg r" "route r = To DisableEndpoint"
    "manager_ok (Devices cfg) m"
  shows "disabling r (m', h') \<and> manager_ok (Devices cfg) m'"
  using assms(1)
proof (induction "(m', h')" arbitrary: m' h' rule: rtranclp_induct)
  case (step c)
  obtain m1 h1 where c: "c = (m1, h1)" by force
  with step have "disabling r (m1, h1)" "manager_ok (Devices cfg) m1" by auto
  with step(2) c show ?case
    using disabling_step [of lib cfg m1 h1 m' h' r] assms(2,3) web_step_ok [of lib cfg m1 h1 m' h']
    by (simp add: undisturbed_def)
qed (use assms in simp)

lemma disable_answer:
  assumes "(undisturbed lib cfg)\<^sup>*\<^sup>* (m, Received r) (m', Answered a)" "manager_ok (Devices cfg) m" "protect cfg r"
    "Method r = ''POST''" "URLPath r \<in> {''/api/provider/disable'', ''/api/ble/disable''}"
  shows "(\<exists>s. a = ok_response (Json s) \<and> \<not> Enabled (sr_Provider s) \<and> \<not> IsRunning (sr_Provider s)) \<and>
    (\<forall>k. in_run m' k \<longrightarrow> k \<in> cancelled m' \<or> CancelRun k \<in> to_do m')"
proof -
  from disabling_run [OF assms(1,3) route_disable [OF assms(4,5)] assms(2)] have
    d: "disabling r (m', Answered a)" and ok: "manager_ok (Devices cfg) m'" by simp_all
  from d have off: "\<not> Enabled (status m')" by simp
  from ok have "in_run m' k \<Longrightarrow> IsRunning (status m') \<or> k \<in> cancelled m' \<or> CancelRun k \<in> to_do m'" for k
    by (simp add: manager_ok_def)
  with d not_running [OF ok off] show ?thesis by auto
qed

text \<open>A request is answered: its call ends by doing its actions, and the readings follow.\<close>

lemma call_ends:
  assumes "i < length (calls m)"
  shows "\<exists>m'. (undisturbed lib cfg)\<^sup>*\<^sup>* (m, InCall i) (m', InCall i) \<and> i < length (calls m') \<and> calls m' ! i = []"
  using assms
proof (induction "length (calls m ! i)" arbitrary: m)
  case 0
  then show ?case by (intro exI [of _ m]) simp
next
  case (Suc n)
  then obtain a as where call: "calls m ! i = a # as" by (cases "calls m ! i") auto
  define m1 where
    "m1 = do_action (Devices cfg) a (m\<lparr>calls := take i (calls m) @ as # drop (Suc i) (calls m)\<rparr>)"
  have "calls m = take i (calls m) @ (a # as) # drop (Suc i) (calls m)"
    using Suc.prems call by (metis id_take_nth_drop)
  from Act [OF this] have "manager_step (Devices cfg) m m1" by (simp add: manager_step_def m1_def)
  moreover have m1: "status m1 = status m" "i < length (calls m1)" "calls m1 ! i = as"
    using Suc.prems by (cases a; simp add: m1_def signalWake_def nth_append)+
  ultimately have "undisturbed lib cfg (m, InCall i) (m1, InCall i)"
    by (simp add: undisturbed_def Meanwhile)
  moreover have "\<exists>m'. (undisturbed lib cfg)\<^sup>*\<^sup>* (m1, InCall i) (m', InCall i) \<and> i < length (calls m') \<and> calls m' ! i = []"
    using Suc.hyps m1 call by simp
  ultimately show ?case by (meson converse_rtranclp_into_rtranclp)
qed

lemma answering:
  assumes "\<And>i. h = InCall i \<Longrightarrow> i < length (calls m)" "\<And>r. h \<noteq> Received r"
  shows "\<exists>m' a. (undisturbed lib cfg)\<^sup>*\<^sup>* (m, h) (m', Answered a)"
proof -
  have store: "\<exists>a. (undisturbed lib cfg)\<^sup>*\<^sup>* (m, WithStatus k st) (m, Answered a)" for m and k :: view_kind and st
    using Serve [OF ReadStore [of lib cfg m k st 0]] by (intro exI r_into_rtranclp) (simp add: undisturbed_def)
  have render: "\<exists>a. (undisturbed lib cfg)\<^sup>*\<^sup>* (m, Rendering k) (m, Answered a)" for m and k :: view_kind
  proof -
    have "undisturbed lib cfg (m, Rendering k) (m, WithStatus k (status m))"
      using ReadStatus by (simp add: undisturbed_def Serve)
    with store show ?thesis by (meson converse_rtranclp_into_rtranclp)
  qed
  show ?thesis
  proof (cases h)
    case (InCall i)
    with call_ends [of i m lib cfg] assms(1) obtain m' where
      "(undisturbed lib cfg)\<^sup>*\<^sup>* (m, InCall i) (m', InCall i)" "i < length (calls m')" "calls m' ! i = []" by blast
    moreover from this(2,3) have "undisturbed lib cfg (m', InCall i) (m', Rendering AsJson)"
      by (simp add: undisturbed_def Serve CallOver)
    moreover obtain a where "(undisturbed lib cfg)\<^sup>*\<^sup>* (m', Rendering AsJson) (m', Answered a)" using render by blast
    ultimately show ?thesis using InCall by (meson converse_rtranclp_into_rtranclp rtranclp_trans)
  qed (use assms(2) store render in blast)+
qed

lemma disable_answered:
  assumes "protect cfg r" "route r = To DisableEndpoint"
  shows "\<exists>m' a. (undisturbed lib cfg)\<^sup>*\<^sup>* (m, Received r) (m', Answered a)"
proof -
  let ?m = "manager_Disable 0 m"
  have "undisturbed lib cfg (m, Received r) (?m, called m ?m)"
    using ServeDisable [OF assms] disable_off [of 0 m] by (auto simp: undisturbed_def intro: Serve)
  moreover have "\<exists>m' a. (undisturbed lib cfg)\<^sup>*\<^sup>* (?m, called m ?m) (m', Answered a)"
    by (rule answering) (auto simp: called_def manager_Disable_def Let_def split: if_splits)
  ultimately show ?thesis by (meson converse_rtranclp_into_rtranclp)
qed

lemma Snapshot_mem: "Get s n = Some u \<Longrightarrow> u \<in> set (Snapshot s)"
  by (force simp: Snapshot_def Get_def image_iff)

lemma Get_name: "wf_store s \<Longrightarrow> Get s n = Some u \<Longrightarrow> u_Name u = n"
  using Get_in by (fastforce simp: wf_store_def)

section \<open>The age shown\<close>

lemma wrap64_id: "- (2 ^ 63) \<le> n \<Longrightarrow> n < 2 ^ 63 \<Longrightarrow> wrap64 n = n"
  unfolding wrap64_def sint_sbintrunc' by (simp add: signed_take_bit_int_eq_self_iff)

lemma trunc_div_of_multiple: "0 < s \<Longrightarrow> trunc_div (n * s) s = n"
  by (simp add: trunc_div_def abs_mult sgn_mult sgn_mult_abs abs_mult_sgn)

lemma Round_nearest:
  assumes "0 < s" "\<bar>d\<bar> \<le> 2 ^ 63 - 1 - s"
  shows "\<exists>n. Round d s = n * s \<and> 2 * \<bar>n * s - d\<bar> \<le> s"
proof -
  define q r where "q = \<bar>d\<bar> div s" and "r = \<bar>d\<bar> mod s"
  have qr: "\<bar>d\<bar> = q * s + r" "0 \<le> r" "r < s" using assms(1) by (simp_all add: q_def r_def)
  have dist: "(q + 1) * s = q * s + s" by (simp add: algebra_simps)
  show ?thesis
  proof (cases "d < 0")
    case neg: True
    show ?thesis
    proof (cases "r + r < s")
      case True
      with neg qr show ?thesis
        using assms(1) by (intro exI [of _ "- q"]) (simp add: Round_def Let_def r_def [symmetric])
    next
      case False
      have "wrap64 (d - s + r) = d - s + r" using assms qr by (intro wrap64_id) linarith+
      with neg False qr have "Round d s = d - s + r"
        using assms(1) by (simp add: Round_def Let_def r_def [symmetric])
      moreover have "d - s + r = - (q + 1) * s" using neg qr dist by (simp add: algebra_simps)
      ultimately show ?thesis using False qr neg by (intro exI [of _ "- (q + 1)"]) simp
    qed
  next
    case pos: False
    show ?thesis
    proof (cases "r + r < s")
      case True
      with pos qr show ?thesis
        using assms(1) by (intro exI [of _ q]) (simp add: Round_def Let_def r_def [symmetric])
    next
      case False
      have "wrap64 (d + s - r) = d + s - r" using assms qr by (intro wrap64_id) linarith+
      with pos False qr have "Round d s = d + s - r"
        using assms(1) by (simp add: Round_def Let_def r_def [symmetric])
      moreover have "d + s - r = (q + 1) * s" using pos qr dist by simp
      ultimately show ?thesis using False qr pos by (intro exI [of _ "q + 1"]) simp
    qed
  qed
qed

lemma age_nearest:
  assumes "\<bar>now - updated\<bar> \<le> 2 ^ 63 - 1 - Second"
  shows "2 * \<bar>age_seconds now updated * Second - (now - updated)\<bar> \<le> Second"
proof -
  have "time_Sub now updated = now - updated" using assms by (simp add: time_Sub_def Second_def)
  moreover obtain n where "Round (now - updated) Second = n * Second"
    "2 * \<bar>n * Second - (now - updated)\<bar> \<le> Second"
    using Round_nearest [OF _ assms] by (auto simp: Second_def)
  ultimately show ?thesis by (simp add: age_seconds_def trunc_div_of_multiple Second_def)
qed

lemma age_nonnegative:
  assumes "updated \<le> now" "now - updated \<le> 2 ^ 63 - 1 - Second"
  shows "0 \<le> age_seconds now updated"
  using age_nearest [of now updated] assms by (simp add: Second_def)

section \<open>Properties\<close>

text \<open>C20: With credentials configured a request is let through exactly when its \<open>Authorization\<close>
  header has the scheme \<open>Basic\<close>, in any case, and the Base64 of the configured user name, a colon
  and the configured password, and the user name holds no colon itself; every other request,
  whatever its header, is answered 401 and changes nothing.\<close>

theorem web_access:
  assumes "secured cfg" "request_step lib cfg (m, Received r) (m', h)"
  shows "(h \<noteq> Answered unauthorized \<longleftrightarrow>
      CHR '':'' \<notin> set (Username (Auth cfg)) \<and>
      (\<exists>scheme enc. Authorization r = scheme @ enc \<and> length scheme = 6 \<and> EqualFold scheme ''Basic '' \<and>
        DecodeString enc = Some (bytes_of_string (Username (Auth cfg) @ CHR '':'' # Password (Auth cfg))))) \<and>
    (h = Answered unauthorized \<longrightarrow> m' = m)"
proof -
  have "(h = Answered unauthorized \<longleftrightarrow> \<not> protect cfg r) \<and> (\<not> protect cfg r \<longrightarrow> m' = m)"
    using assms(2) by (rule request_stepE) (auto simp: unauthorized_def ok_response_def called_def split: if_splits)
  with assms(1) show ?thesis unfolding protect_iff basic_credentials_def by blast
qed

text \<open>C22: No step of serving a request breaks the invariant of the provider manager, and only an
  authorized \<open>POST\<close> to one of the four control paths changes its state.\<close>

theorem web_keeps_invariant:
  assumes "request_step lib cfg (m, h) (m', h')" "manager_ok (Devices cfg) m"
  shows "manager_ok (Devices cfg) m' \<and>
    (m' \<noteq> m \<longrightarrow> (\<exists>r. h = Received r \<and> protect cfg r \<and> Method r = ''POST'' \<and>
      URLPath r \<in> {''/api/provider/enable'', ''/api/ble/enable'', ''/api/provider/disable'', ''/api/ble/disable''}))"
proof -
  have "m' \<noteq> m \<longrightarrow> (\<exists>r. h = Received r \<and> protect cfg r \<and> (route r = To EnableEndpoint \<or> route r = To DisableEndpoint))"
    using assms(1) by (rule request_stepE) auto
  with request_step_ok [OF assms] route_cases show ?thesis by blast
qed

text \<open>C21: An authorized disabling request can always be answered, and whatever the manager, its
  runner and other requests do meanwhile, as long as none of them enables the provider: its
  answer shows the provider neither enabled nor running, and by then a run that is still going
  has been cancelled or is about to be by a call that is not over.\<close>

theorem web_disable:
  assumes "manager_ok (Devices cfg) m" "protect cfg r" "Method r = ''POST''"
    "URLPath r \<in> {''/api/provider/disable'', ''/api/ble/disable''}"
  shows "(\<exists>m' a. (undisturbed lib cfg)\<^sup>*\<^sup>* (m, Received r) (m', Answered a)) \<and>
    (\<forall>m' a. (undisturbed lib cfg)\<^sup>*\<^sup>* (m, Received r) (m', Answered a) \<longrightarrow>
      (\<exists>s. a = ok_response (Json s) \<and> \<not> Enabled (sr_Provider s) \<and> \<not> IsRunning (sr_Provider s)) \<and>
      (\<forall>k. in_run m' k \<longrightarrow> k \<in> cancelled m' \<or> CancelRun k \<in> to_do m'))"
  using disable_answered [OF assms(2) route_disable [OF assms(3,4)]] disable_answer [OF _ assms] by blast

section \<open>Witnesses\<close>

definition sample_lib :: weblib where
  "sample_lib = \<lparr>Execute = (\<lambda>_. ([], None)), redirect_status = 307\<rparr>"

definition sample_request :: "string \<Rightarrow> string \<Rightarrow> request" where
  "sample_request meth path =
     \<lparr>Method = meth, URLPath = path, Authorization = ''basic '' @ b64_encode (bytes_of_string ''admin:secret'')\<rparr>"

lemma sample_config_open: "protect sample_config r"
  by (simp add: protect_iff secured_def sample_config_def config_defaults_def sample_file_def zero_config_def Let_def)

text \<open>The header of \<open>sample_request\<close> has the credentials; one with another scheme is refused.\<close>

lemma sample_granted: "protect secured_config (sample_request meth path)"
proof -
  have "EqualFold ''basic '' ''Basic ''" by code_simp
  then show ?thesis
    by (simp add: protect_def BasicAuth_def Let_def sample_request_def secured_config_def
        DecodeString_encode string_of_bytes_of_string Cut_def)
qed

lemma other_scheme_refused:
  "\<not> protect secured_config ((sample_request meth path)\<lparr>Authorization := ''Bearer x''\<rparr>)"
  by (simp add: protect_def BasicAuth_def Let_def secured_config_def EqualFold_def upper_char_def)

theorem web_access_witness:
  "(\<exists>scheme enc. Authorization (sample_request ''GET'' ''/api/status'') = scheme @ enc \<and> length scheme = 6 \<and>
      EqualFold scheme ''Basic '' \<and> DecodeString enc = Some (bytes_of_string ''admin:secret'')) \<and>
   (\<exists>m'. request_step sample_lib secured_config
     (sample_active, Received ((sample_request ''GET'' ''/api/status'')\<lparr>Authorization := ''Bearer x''\<rparr>))
     (m', Answered unauthorized))"
proof -
  let ?r = "sample_request ''GET'' ''/api/status''"
  have "cleanPath ''/api/status'' = ''/api/status''" by code_simp
  then have "route ?r = To StatusEndpoint" by (simp add: sample_request_def route_def patterns_def method_matches_def)
  from ServeStatus [OF sample_granted this] have
    "request_step sample_lib secured_config (sample_active, Received ?r) (sample_active, Rendering AsJson)" .
  from web_access [OF _ this] have "\<exists>scheme enc. Authorization ?r = scheme @ enc \<and> length scheme = 6 \<and>
      EqualFold scheme ''Basic '' \<and> DecodeString enc = Some (bytes_of_string ''admin:secret'')"
    by (simp add: secured_def secured_config_def)
  with Refuse [OF other_scheme_refused] show ?thesis by blast
qed

theorem web_keeps_invariant_witness:
  "manager_ok (Devices sample_config) (manager_Enable 5 sample_disabled)"
proof -
  have "route (sample_request ''POST'' ''/api/ble/enable'') = To EnableEndpoint"
    by (simp add: sample_request_def route_def patterns_def method_matches_def clean_controls)
  from web_keeps_invariant [OF ServeEnable [OF sample_config_open this, of sample_lib sample_disabled 5]
      reachable_ok [OF sample_reachable [OF sample_disabled_reached]]]
  show ?thesis by blast
qed

theorem web_disable_witness:
  "\<exists>m' a. (undisturbed sample_lib sample_config)\<^sup>*\<^sup>*
      (sample_active, Received (sample_request ''POST'' ''/api/ble/disable'')) (m', Answered a) \<and>
    (\<exists>s. a = ok_response (Json s) \<and> \<not> Enabled (sr_Provider s) \<and> \<not> IsRunning (sr_Provider s)) \<and>
    (point m' = Active 0 \<longrightarrow> 0 \<in> cancelled m' \<or> CancelRun 0 \<in> to_do m')"
  using web_disable [OF reachable_ok [OF sample_reachable [OF sample_active_reached]] sample_config_open,
      of "sample_request ''POST'' ''/api/ble/disable''" sample_lib]
  by (fastforce simp: sample_request_def in_run_def)

end
