(* ===== verification/Web_Page.thy ===== *)
theory Web_Page
  imports Web
begin

text \<open>
  The page of \<open>internal/web/server.go\<close>: what the template shows, what its script shows after an
  answer of the server, and the script's handling of clicks, polls and answers.  A view is the
  text of the elements; the layout, the focus and the style are left out.  The template and the
  script write times in formats of their own.
\<close>

section \<open>Views\<close>

record device_view =
  dv_name :: string
  dv_meta :: string                          \<comment> \<open>up to the time\<close>
  dv_updated :: string                       \<comment> \<open>the time\<close>
  dv_rows :: "(string \<times> string) list"

record view =
  v_type :: string
  v_enabled :: string
  v_running :: string
  v_state :: string
  v_changed :: string
  v_error_hidden :: bool
  v_error :: string
  v_nut :: string
  v_web :: string
  v_devices :: "device_view list"

text \<open>The text of a boolean, and of an error; the texts of errors are a parameter.  An empty \<open>last_error\<close> is left out of the JSON and then reads as undefined.\<close>

definition bool_text :: "bool \<Rightarrow> string" where
  "bool_text b = (if b then ''true'' else ''false'')"

definition last_error :: "(go_error \<Rightarrow> string) \<Rightarrow> ProviderStatus \<Rightarrow> string" where
  "last_error text s = (case LastError s of None \<Rightarrow> [] | Some e \<Rightarrow> text e)"

abbreviation middle_dot :: string where "middle_dot \<equiv> '' '' @ [CHR 0xC2, CHR 0xB7] @ '' ''"

text \<open>The template, where \<open>fmt\<close> is \<open>Format "2006-01-02 15:04:05 MST"\<close>.\<close>

definition template_device :: "(time \<Rightarrow> string) \<Rightarrow> pageDevice \<Rightarrow> device_view" where
  "template_device fmt d =
     \<lparr>dv_name = pd_Name d,
      dv_meta = pd_Description d @ middle_dot @ ''updated '' @ Itoa (pd_AgeSeconds d) @ ''s ago at '',
      dv_updated = fmt (pd_UpdatedAt d),
      dv_rows = pd_Vars d\<rparr>"

definition statusPage :: "(go_error \<Rightarrow> string) \<Rightarrow> (time \<Rightarrow> string) \<Rightarrow> pageData \<Rightarrow> view" where
  "statusPage text fmt p =
     (let s = pg_Provider p in
      \<lparr>v_type = st_Type s, v_enabled = bool_text (Enabled s), v_running = bool_text (IsRunning s),
       v_state = State s, v_changed = fmt (st_UpdatedAt s),
       v_error_hidden = (last_error text s = []), v_error = last_error text s,
       v_nut = NUTListen (pg_Daemon p), v_web = WebListen (pg_Daemon p),
       v_devices = map (template_device fmt) (pg_Devices p)\<rparr>)"

text \<open>The script, where \<open>loc\<close> is \<open>formatTime\<close>, the time in the locale of the browser.\<close>

definition script_device :: "(time \<Rightarrow> string) \<Rightarrow> deviceResponse \<Rightarrow> device_view" where
  "script_device loc d =
     \<lparr>dv_name = dr_Name d,
      dv_meta = dr_Description d @ middle_dot @ ''updated '' @ Itoa (max 0 (AgeSeconds d)) @ ''s ago at '',
      dv_updated = loc (dr_UpdatedAt d),
      dv_rows = map (\<lambda>key. (key, the (map_get (dr_Vars d) key))) (sorted_keys (dr_Vars d))\<rparr>"

definition updateStatus :: "(go_error \<Rightarrow> string) \<Rightarrow> (time \<Rightarrow> string) \<Rightarrow> statusResponse \<Rightarrow> view" where
  "updateStatus text loc s =
     (let provider = sr_Provider s; err = last_error text provider in
      \<lparr>v_type = st_Type provider, v_enabled = bool_text (Enabled provider), v_running = bool_text (IsRunning provider),
       v_state = State provider, v_changed = loc (st_UpdatedAt provider),
       v_error_hidden = (err = []), v_error = (if err = [] then [] else err),
       v_nut = NUTListen (sr_Daemon s), v_web = WebListen (sr_Daemon s),
       v_devices = map (script_device loc) (sr_Devices s)\<rparr>)"

section \<open>Requests of the script\<close>

text \<open>The JSON of an answer: a status, a value without a valid \<open>provider\<close>, or \<open>null\<close>.\<close>

datatype json = StatusJson statusResponse | OtherJson | NullJson

text \<open>What \<open>fetch\<close> and \<open>response.json()\<close> can give: the abort of the ten-second timer, a network
  error, or a status code with a body that parses or not.\<close>

datatype fetched = Aborted | NetworkFailed | Response int "json option"

datatype received = Delivered statusResponse | Threw string

definition unconfirmed :: string where
  "unconfirmed = ''Status could not be confirmed. Check your connection and retry or reload the page.''"

definition requestStatus :: "fetched \<Rightarrow> received" where
  "requestStatus f =
     (case f of
        Aborted \<Rightarrow> Threw ''The request timed out. Status could not be confirmed; retry or reload the page.''
      | NetworkFailed \<Rightarrow> Threw unconfirmed
      | Response code parsed \<Rightarrow>
          if code < 200 \<or> 299 < code then
            (if code = 401 then Threw ''Authentication required. Reload the page to sign in, then try again.''
             else Threw (''The server could not complete the request (HTTP '' @ Itoa code @ ''). Try again.''))
          else
            case parsed of
              None \<Rightarrow> Threw unconfirmed
            | Some (StatusJson s) \<Rightarrow> Delivered s
            | Some OtherJson \<Rightarrow> Threw ''The server returned an invalid status. Reload the page to check the collector.''
            | Some NullJson \<Rightarrow> Threw unconfirmed)"

section \<open>The state of the script\<close>

record script =
  busy :: bool
  refreshing :: bool
  actionVersion :: nat
  refreshError :: bool
  message :: "string \<times> string"            \<comment> \<open>its text and kind\<close>
  disabled :: bool                           \<comment> \<open>the buttons\<close>
  shown :: view
  changing :: "string option"                \<comment> \<open>the control request under way\<close>
  polling :: "nat option"                    \<comment> \<open>the poll under way, with the version it started at\<close>

definition script_start :: "view \<Rightarrow> script" where
  "script_start v =
     \<lparr>busy = False, refreshing = False, actionVersion = 0, refreshError = False, message = ([], []),
      disabled = False, shown = v, changing = None, polling = None\<rparr>"

definition ellipsis :: string where "ellipsis = [CHR 0xE2, CHR 0x80, CHR 0xA6]"

definition changeCollector :: "string \<Rightarrow> script \<Rightarrow> script" where
  "changeCollector act s =
     (if busy s then s
      else s\<lparr>busy := True, actionVersion := actionVersion s + 1, refreshError := False, disabled := True,
             message := ((if act = ''enable'' then ''Enabling'' else ''Disabling'') @ ellipsis, ''pending''),
             changing := Some act\<rparr>)"

definition change_done :: "(statusResponse \<Rightarrow> view) \<Rightarrow> fetched \<Rightarrow> script \<Rightarrow> script" where
  "change_done update f s =
     (if changing s = None then s
      else
        let s = (case requestStatus f of
              Delivered st \<Rightarrow>
                s\<lparr>shown := update st,
                  message := (''Collector '' @ (if Enabled (sr_Provider st) then ''enabled.'' else ''disabled.''), ''success'')\<rparr>
            | Threw e \<Rightarrow> s\<lparr>message := (e, ''error'')\<rparr>)
        in s\<lparr>busy := False, disabled := False, changing := None\<rparr>)"

definition refreshStatus :: "bool \<Rightarrow> script \<Rightarrow> script" where
  "refreshStatus hidden s =
     (if busy s \<or> refreshing s \<or> hidden then s
      else s\<lparr>refreshing := True, polling := Some (actionVersion s)\<rparr>)"

definition refresh_done :: "(statusResponse \<Rightarrow> view) \<Rightarrow> fetched \<Rightarrow> script \<Rightarrow> script" where
  "refresh_done update f s =
     (case polling s of
        None \<Rightarrow> s
      | Some version \<Rightarrow>
          let s = (if version \<noteq> actionVersion s \<or> busy s then s
              else case requestStatus f of
                  Delivered st \<Rightarrow>
                    s\<lparr>shown := update st, refreshError := False,
                      message := (if refreshError s then (''Status updated.'', ''success'') else message s)\<rparr>
                | Threw e \<Rightarrow> s\<lparr>refreshError := True, message := (e @ '' Showing the last known status.'', ''error'')\<rparr>)
          in s\<lparr>refreshing := False, polling := None\<rparr>)"

text \<open>Clicks, the end of the control request, the timer or the page becoming visible, and the end
  of the poll.\<close>

datatype script_event = Click string | ChangeDone fetched | RefreshDue bool | RefreshDone fetched

fun script_step :: "(statusResponse \<Rightarrow> view) \<Rightarrow> script_event \<Rightarrow> script \<Rightarrow> script" where
  "script_step update (Click act) s = changeCollector act s"
| "script_step update (ChangeDone f) s = change_done update f s"
| "script_step update (RefreshDue hidden) s = refreshStatus hidden s"
| "script_step update (RefreshDone f) s = refresh_done update f s"

definition script_run :: "(statusResponse \<Rightarrow> view) \<Rightarrow> script_event list \<Rightarrow> script \<Rightarrow> script" where
  "script_run update es s = fold (script_step update) es s"

section \<open>Lemmas\<close>

definition script_ok :: "script \<Rightarrow> bool" where
  "script_ok s \<longleftrightarrow> (busy s \<longleftrightarrow> changing s \<noteq> None) \<and> (refreshing s \<longleftrightarrow> polling s \<noteq> None) \<and>
     (disabled s \<longleftrightarrow> busy s) \<and> (\<forall>v. polling s = Some v \<longrightarrow> v \<le> actionVersion s)"

named_theorems script_defs \<open>the handlers of the script\<close>

lemmas [script_defs] = changeCollector_def change_done_def refreshStatus_def refresh_done_def Let_def

lemma script_step_ok: "script_ok s \<Longrightarrow> script_ok (script_step update e s)"
  by (cases e) (auto simp: script_ok_def script_defs split: option.splits received.splits)

lemma script_run_ok: "script_ok s \<Longrightarrow> script_ok (script_run update es s)"
  by (induction es arbitrary: s) (simp_all add: script_run_def script_step_ok)

lemma script_start_ok: "script_ok (script_start v)"
  by (simp add: script_ok_def script_start_def)

definition ends_poll :: "script_event \<Rightarrow> bool" where
  "ends_poll e \<longleftrightarrow> (\<exists>f. e = RefreshDone f)"

lemma script_step_poll:
  "\<not> ends_poll e \<Longrightarrow> script_ok s \<Longrightarrow> polling s = Some v \<Longrightarrow>
   polling (script_step update e s) = Some v \<and> actionVersion s \<le> actionVersion (script_step update e s)"
  by (cases e) (auto simp: ends_poll_def script_ok_def script_defs split: received.splits)

lemma script_run_poll:
  "list_all (\<lambda>e. \<not> ends_poll e) es \<Longrightarrow> script_ok s \<Longrightarrow> polling s = Some v \<Longrightarrow>
   polling (script_run update es s) = Some v \<and> actionVersion s \<le> actionVersion (script_run update es s)"
proof (induction es arbitrary: s)
  case (Cons e es)
  with script_step_poll [of e s v update] script_step_ok [of s update e]
  have "polling (script_run update es (script_step update e s)) = Some v \<and>
      actionVersion (script_step update e s) \<le> actionVersion (script_run update es (script_step update e s))"
    by simp
  with Cons.prems script_step_poll [of e s v update] show ?case by (simp add: script_run_def)
qed (simp add: script_run_def)

section \<open>Properties\<close>

text \<open>The views without their times.\<close>

definition untimed :: "view \<Rightarrow> view" where
  "untimed v = v\<lparr>v_changed := [], v_devices := map (\<lambda>d. d\<lparr>dv_updated := []\<rparr>) (v_devices v)\<rparr>"

text \<open>C23: The page the server renders and the page the script builds from the JSON status, of the
  same readings at the same time and with no entry from the future, show the same but for the way
  times are written: both show the time of the last change of the status and the times of the
  entries, the page in the template's format, the script in the browser's.\<close>

theorem page_agrees_with_script:
  assumes "\<forall>u \<in> set (Snapshot store). UpdatedAt u \<le> now \<and> now - UpdatedAt u \<le> 2 ^ 63 - 1 - Second"
    "page = statusPage text fmt (page_data cfg st now store)"
    "built = updateStatus text loc (web_snapshot cfg st now store)"
  shows "untimed page = untimed built \<and>
    v_changed page = fmt (st_UpdatedAt st) \<and> v_changed built = loc (st_UpdatedAt st) \<and>
    map dv_updated (v_devices page) = map (\<lambda>u. fmt (UpdatedAt u)) (Snapshot store) \<and>
    map dv_updated (v_devices built) = map (\<lambda>u. loc (UpdatedAt u)) (Snapshot store)"
proof -
  have "0 \<le> age_seconds now (UpdatedAt u)" if "u \<in> set (Snapshot store)" for u
    using assms(1) that age_nonnegative by blast
  then show ?thesis
    unfolding assms(2,3)
    by (simp add: untimed_def statusPage_def updateStatus_def page_data_def web_snapshot_def pageDevices_def devices_def
        template_device_def script_device_def page_vars_def Let_def)
qed

text \<open>An entry from the future is shown with a negative age by the page, with the age 0 by the
  script.\<close>

lemma future_entry_differs:
  "dv_meta (template_device fmt
     \<lparr>pd_Name = n, pd_Description = [], pd_UpdatedAt = t, pd_AgeSeconds = - 3, pd_Vars = []\<rparr>) =
   middle_dot @ ''updated -3s ago at '' \<and>
   dv_meta (script_device loc
     \<lparr>dr_Name = n, dr_Description = [], dr_UpdatedAt = t, AgeSeconds = - 3, dr_Vars = []\<rparr>) =
   middle_dot @ ''updated 0s ago at ''"
proof -
  have "Itoa (- 3) = ''-3''" "Itoa 0 = ''0''" by code_simp+
  then show ?thesis by (simp add: template_device_def script_device_def)
qed

text \<open>C19: A poll that started before a control request never overwrites what that request shows: once
  a click has been accepted while a poll is under way, the end of that poll, whatever it
  brings and whatever happened in between, changes neither the page nor the message, and only
  makes room for the next poll.\<close>

theorem poll_never_overwrites:
  assumes "s = script_run update es (script_start v)" "polling s = Some k" "\<not> busy s"
    "list_all (\<lambda>e. \<not> ends_poll e) es'" "s' = script_run update (Click act # es') s"
  shows "script_step update (RefreshDone f) s' = s'\<lparr>refreshing := False, polling := None\<rparr>"
proof -
  have ok: "script_ok s" using assms(1) script_run_ok script_start_ok by blast
  let ?c = "changeCollector act s"
  have c: "script_ok ?c" "polling ?c = Some k" "k < actionVersion ?c"
    using ok script_step_ok [OF ok, of update "Click act"] assms(2,3)
    by (auto simp: changeCollector_def script_ok_def)
  from script_run_poll [OF assms(4) c(1,2), of update] c(3) have
    "polling s' = Some k" "k < actionVersion s'"
    using assms(5) by (simp_all add: script_run_def)
  then show ?thesis by (simp add: refresh_done_def Let_def)
qed

section \<open>Witnesses\<close>

abbreviation sample_update :: "statusResponse \<Rightarrow> view" where
  "sample_update \<equiv> updateStatus (\<lambda>_. ''failed'') (\<lambda>_. ''now'')"

theorem page_agrees_with_script_witness:
  "untimed (statusPage (\<lambda>_. ''failed'') (\<lambda>_. ''2026-01-02'') (page_data sample_config (status sample_start) (10 * Second) sample_store)) =
   untimed (updateStatus (\<lambda>_. ''failed'') (\<lambda>_. ''2.1.2026'')
     (web_snapshot sample_config (status sample_start) (10 * Second) sample_store))"
proof -
  have "Names sample_store = [''delta2'']"
    by (simp add: sample_store_def Names_def Upsert_def New_def map_set_def sorted_keys_def)
  then have "\<forall>u \<in> set (Snapshot sample_store). UpdatedAt u \<le> 10 * Second \<and>
      10 * Second - UpdatedAt u \<le> 2 ^ 63 - 1 - Second"
    by (simp add: Snapshot_Names sample_entry Second_def)
  from page_agrees_with_script [OF this refl refl] show ?thesis by blast
qed

theorem poll_never_overwrites_witness:
  "\<exists>v. script_run sample_update
      [RefreshDue False, Click ''disable'', RefreshDone (Response 200 (Some (StatusJson (web_snapshot sample_config (status sample_active) 0 (mstore sample_active)))))]
      (script_start v) =
    (script_run sample_update [RefreshDue False, Click ''disable''] (script_start v))\<lparr>refreshing := False, polling := None\<rparr>"
proof -
  define v where "v = sample_update (web_snapshot sample_config (status sample_start) 0 (mstore sample_start))"
  define s where "s = script_run sample_update [RefreshDue False] (script_start v)"
  have "polling s = Some 0" "\<not> busy s"
    by (simp_all add: s_def script_run_def script_start_def refreshStatus_def)
  with poll_never_overwrites [OF s_def, of 0 "[]" "script_run sample_update [Click ''disable''] s" "''disable''"
      "Response 200 (Some (StatusJson (web_snapshot sample_config (status sample_active) 0 (mstore sample_active))))"]
  show ?thesis by (auto simp: s_def script_run_def)
qed

end
