(* ===== verification/Daemon.thy ===== *)
theory Daemon
  imports Web_Page Provider_Run Transport
begin

text \<open>
  \<open>cmd/ecoflow-ble-nutd/main.go\<close>: the daemon loads its configuration, creates the store and the
  provider manager, and runs the manager, the web server and the NUT server side by side.  The
  state is that of the manager, which holds the store, and the web requests being served; a NUT
  client only reads the store.
\<close>

section \<open>The daemon\<close>

definition main_start ::
  "(string \<Rightarrow> go_error + bytes) \<Rightarrow> decoder \<Rightarrow> decoder \<Rightarrow> string \<Rightarrow> time \<Rightarrow> go_error + Config \<times> manager" where
  "main_start ReadFile yaml json path now =
     (case Load ReadFile yaml json path of
        Inl e \<Rightarrow> Inl e
      | Inr cfg \<Rightarrow> Inr (cfg, NewProviderManager cfg now New))"

text \<open>A step of the manager or its runner, a new request to the web server, a step of serving one of
  them, and the end of the web server, which stops the daemon's context when it failed.\<close>

inductive daemon_step ::
  "weblib \<Rightarrow> Config \<Rightarrow> manager \<times> handling list \<Rightarrow> manager \<times> handling list \<Rightarrow> bool" for lib cfg where
  ManagerStep: "manager_step (Devices cfg) m m' \<Longrightarrow> daemon_step lib cfg (m, hs) (m', hs)"
| NewRequest: "daemon_step lib cfg (m, hs) (m, hs @ [Received r])"
| RequestStep: "i < length hs \<Longrightarrow> request_step lib cfg (m, hs ! i) (m', h') \<Longrightarrow>
    daemon_step lib cfg (m, hs) (m', hs[i := h'])"
| WebStopped: "web_Run cfg served = Some e \<Longrightarrow> daemon_step lib cfg (m, hs) (m\<lparr>ctxDone := True\<rparr>, hs)"

text \<open>The exit status: a configuration that does not load, or what \<open>Run\<close> of the NUT server
  returned.\<close>

definition exit_status :: "go_error option \<Rightarrow> int" where
  "exit_status e = (if e = None then 0 else 1)"

section \<open>Lemmas\<close>

text \<open>What a request sees of the daemon is a run of \<open>web_step\<close>: whatever the others do is something the
  manager can do.\<close>

lemma request_step_manager:
  "request_step lib cfg (m, h) (m', h') \<Longrightarrow> m' = m \<or> manager_step (Devices cfg) m m'"
  by (erule request_stepE) (auto simp: manager_step_def intro: CallEnable CallDisable)

lemma daemon_step_manager:
  "daemon_step lib cfg (m, hs) (m', hs') \<Longrightarrow> m' = m \<or> manager_step (Devices cfg) m m'"
  by (cases rule: daemon_step.cases)
    (auto simp: manager_step_def intro: Interrupt dest: request_step_manager)

lemma daemon_request:
  assumes "daemon_step lib cfg (m, hs) (m', hs')" "j < length hs"
  shows "j < length hs' \<and> (web_step lib cfg)\<^sup>=\<^sup>= (m, hs ! j) (m', hs' ! j)"
proof (cases "hs' ! j = hs ! j")
  case True
  have "length hs \<le> length hs'" using assms(1) by (cases rule: daemon_step.cases) simp_all
  with daemon_step_manager [OF assms(1)] assms(2) True show ?thesis by (auto intro: Meanwhile)
next
  case False
  with assms show ?thesis
    by (cases rule: daemon_step.cases) (auto simp: nth_append nth_list_update intro: Serve split: if_splits)
qed

lemma daemon_step_ok:
  "daemon_step lib cfg (m, hs) (m', hs') \<Longrightarrow> manager_ok (Devices cfg) m \<Longrightarrow> manager_ok (Devices cfg) m'"
  using daemon_step_manager manager_step_ok by blast

lemma daemon_ok:
  assumes "main_start ReadFile yaml json path now = Inr (cfg, m0)"
    "(daemon_step lib cfg)\<^sup>*\<^sup>* (m0, []) (m, hs)"
  shows "manager_ok (Devices cfg) m"
  using assms(2)
proof (induction "(m, hs)" arbitrary: m hs rule: rtranclp_induct)
  case base
  then show ?case using assms(1) by (auto simp: main_start_def wf_New intro: manager_ok_initial split: sum.splits)
next
  case (step c)
  obtain m1 hs1 where "c = (m1, hs1)" by force
  with step daemon_step_ok show ?case by blast
qed

text \<open>What the three readers of the store show of one variable.\<close>

lemma nut_shows:
  assumes "Get st n = Some u"
  shows "get_command st [''GET'', ''VAR'', n, k] =
    (case map_get (Vars u) k of None \<Rightarrow> err ''VAR-NOT-SUPPORTED'' | Some v \<Rightarrow> var_line u k v)"
  using assms by (simp add: get_command_def upper_char_def split: option.split)

lemma web_shows:
  "Get st n = Some u \<Longrightarrow> \<exists>d \<in> set (devices now st). dr_Name d = u_Name u \<and> dr_Vars d = Vars u"
  using Snapshot_mem [of st n u] by (force simp: devices_def)

lemma page_shows:
  "Get st n = Some u \<Longrightarrow> \<exists>d \<in> set (pageDevices now st). pd_Name d = u_Name u \<and>
    (\<forall>k v. (k, v) \<in> set (pd_Vars d) \<longleftrightarrow> map_get (Vars u) k = Some v)"
  using Snapshot_mem [of st n u] by (force simp: pageDevices_def page_vars_def image_iff)

text \<open>The request of the script for a control action, and its reading of the answer.\<close>

definition control_request :: "string \<Rightarrow> string \<Rightarrow> request" where
  "control_request act auth = \<lparr>Method = ''POST'', URLPath = ''/api/ble/'' @ act, Authorization = auth\<rparr>"

definition fetched_answer :: "response \<Rightarrow> fetched" where
  "fetched_answer a =
     Response (StatusCode a)
       (case Body a of Json s \<Rightarrow> Some (StatusJson s) | _ \<Rightarrow> None)"

end
