(* ===== verification/Pipeline.thy ===== *)
theory Pipeline
  imports Session Nut
begin

text \<open>
  From the device to the NUT client: an abstract session that works on packets, and the lemmas
  that the session of theory Session, which works on notifications, implements it whatever the
  fragmentation.  The abstract session is defined as long as nothing has to be sent and nothing
  fails.
\<close>

section \<open>The session over packets\<close>

record digest =
  dg_handler :: PacketHandler
  dg_telemetry :: Telemetry
  dg_fresh :: bool

definition digest_packet :: "target \<Rightarrow> proto_lib \<Rightarrow> DeviceDescriptor \<Rightarrow> digest \<Rightarrow> Packet \<Rightarrow> digest option" where
  "digest_packet tgt lib desc g p =
     (if SupportsTime desc \<and> isTimeRequest p \<or> isAuthReply p then None
      else
        case HandlePacket tgt lib (dg_handler g) p of
          Some (Inr (t, outbound, handled), h) \<Rightarrow>
            (if handled \<and> outbound \<noteq> [] then None
             else
               case t of
                 Some t \<Rightarrow>
                   Some (if \<not> handled \<or> Empty t then g\<lparr>dg_handler := h\<rparr>
                     else \<lparr>dg_handler = h, dg_telemetry = Merge (dg_telemetry g) t, dg_fresh = True\<rparr>)
               | None \<Rightarrow> Some (g\<lparr>dg_handler := h\<rparr>))
        | _ \<Rightarrow> None)"

fun digest_packets :: "target \<Rightarrow> proto_lib \<Rightarrow> DeviceDescriptor \<Rightarrow> digest \<Rightarrow> Packet list \<Rightarrow> digest option" where
  "digest_packets tgt lib desc g [] = Some g"
| "digest_packets tgt lib desc g (p # ps) =
     Option.bind (digest_packet tgt lib desc g p) (\<lambda>g. digest_packets tgt lib desc g ps)"

text \<open>What the abstract session sees of a session.\<close>

definition digest_of :: "session \<Rightarrow> digest" where
  "digest_of s = \<lparr>dg_handler = sess_handler s, dg_telemetry = latestTelemetry s, dg_fresh = (\<not> isStale s)\<rparr>"

section \<open>The session implements it\<close>

lemma digest_packets_append:
  "digest_packets tgt lib desc g (ps @ qs) =
     Option.bind (digest_packets tgt lib desc g ps) (\<lambda>g. digest_packets tgt lib desc g qs)"
  by (induction ps arbitrary: g) simp_all

lemma take_telemetry_digest:
  "take_telemetry env device desc t (s, w) = (s', w') \<Longrightarrow>
   sess_handler s' = sess_handler s \<and> latestTelemetry s' = Merge (latestTelemetry s) t \<and> \<not> isStale s' \<and>
   sess_assembler s' = sess_assembler s"
  by (auto simp: take_telemetry_def Let_def split: prod.splits)

lemma handle_packet_digest:
  assumes "digest_packet (platform env) (proto env) desc (digest_of s) p = Some g"
  shows "\<exists>s' w'. handle_packet env device desc p (s, w) = Some (None, s', w') \<and> digest_of s' = g \<and>
    sess_assembler s' = sess_assembler s"
proof -
  from assms obtain t outbound handled h where
    r: "HandlePacket (platform env) (proto env) (sess_handler s) p = Some (Inr (t, outbound, handled), h)"
      "handled \<longrightarrow> outbound = []"
    and g: "g = (case t of Some t \<Rightarrow> if \<not> handled \<or> Empty t then (digest_of s)\<lparr>dg_handler := h\<rparr>
        else \<lparr>dg_handler = h, dg_telemetry = Merge (latestTelemetry s) t, dg_fresh = True\<rparr>
      | None \<Rightarrow> (digest_of s)\<lparr>dg_handler := h\<rparr>)"
    by (auto simp: digest_packet_def digest_of_def split: if_splits option.splits prod.splits sum.splits)
  show ?thesis
  proof (cases "handled \<and> (\<exists>x. t = Some x \<and> \<not> Empty x)")
    case True
    then obtain x where x: "t = Some x" "\<not> Empty x" "handled" by blast
    obtain s' w' where tt: "take_telemetry env device desc x (s\<lparr>sess_handler := h\<rparr>, w) = (s', w')" by fastforce
    from take_telemetry_digest [OF this] r x g tt show ?thesis
      by (simp add: handle_packet_def with_session_def proceed_def digest_of_def)
  next
    case False
    with r g show ?thesis
      by (cases t; cases handled) (auto simp: handle_packet_def with_session_def proceed_def digest_of_def)
  qed
qed

lemma process_payload_digest:
  assumes "ParsePacket b (XORPayload desc) = Some (Inr p)"
    "digest_packet (platform env) (proto env) desc (digest_of s) p = Some g"
  shows "\<exists>s' w'. process_payload env device desc b (s, w) = Some (None, s', w') \<and> digest_of s' = g \<and>
    sess_assembler s' = sess_assembler s"
proof -
  from assms(2) have "\<not> (SupportsTime desc \<and> isTimeRequest p)" "\<not> isAuthReply p"
    by (auto simp: digest_packet_def split: if_splits)
  with handle_packet_digest [OF assms(2), of device w] assms(1) show ?thesis
    by (auto simp: process_payload_def processPacket_def answer_time_def proceed_def)
qed

lemma process_payloads_digest:
  assumes "map (\<lambda>b. ParsePacket b (XORPayload desc)) bs = map (\<lambda>p. Some (Inr p)) ps"
    "digest_packets (platform env) (proto env) desc (digest_of s) ps = Some g"
  shows "\<exists>s' w'. process_payloads env device desc bs (s, w) = Some (None, s', w') \<and> digest_of s' = g \<and>
    sess_assembler s' = sess_assembler s"
  using assms
proof (induction bs arbitrary: ps s w)
  case (Cons b bs)
  then obtain p ps' where p: "ps = p # ps'" "ParsePacket b (XORPayload desc) = Some (Inr p)"
    "map (\<lambda>b. ParsePacket b (XORPayload desc)) bs = map (\<lambda>p. Some (Inr p)) ps'" by auto
  with Cons.prems(2) obtain g1 where g1: "digest_packet (platform env) (proto env) desc (digest_of s) p = Some g1"
    "digest_packets (platform env) (proto env) desc g1 ps' = Some g"
    by (auto simp: Option.bind_eq_Some_conv)
  from process_payload_digest [OF p(2) g1(1), of device w] obtain s1 w1 where
    s1: "process_payload env device desc b (s, w) = Some (None, s1, w1)" "digest_of s1 = g1"
      "sess_assembler s1 = sess_assembler s" by blast
  from Cons.IH [OF p(3), of s1 w1] g1(2) s1 show ?case by (auto simp: proceed_def)
qed simp

lemma receive_digest:
  assumes "Reassemble (sess_assembler s) c = Some (Inr bs, a)"
    "map (\<lambda>b. ParsePacket b (XORPayload desc)) bs = map (\<lambda>p. Some (Inr p)) ps"
    "digest_packets (platform env) (proto env) desc (digest_of s) ps = Some g"
  shows "\<exists>s' w'. receive env device desc c (s, w) = Some (None, s', w') \<and> digest_of s' = g \<and> sess_assembler s' = a"
proof -
  obtain now w1 where now: "Now env w = (now, w1)" by force
  let ?s = "s\<lparr>lastPacket := nanos now, sess_assembler := a\<rparr>"
  have "digest_of ?s = digest_of s" by (simp add: digest_of_def)
  with process_payloads_digest [OF assms(2), of env ?s g device w1] assms(1,3) now show ?thesis
    by (simp add: receive_def)
qed

lemma session_loop_digest:
  assumes "run_notifications Reassemble (sess_assembler s) cs = Some (Inr bs, a)"
    "map (\<lambda>b. ParsePacket b (XORPayload desc)) bs = map (\<lambda>p. Some (Inr p)) ps"
    "digest_packets (platform env) (proto env) desc (digest_of s) ps = Some g"
  shows "\<exists>s' w'. session_loop env device desc p t (map Chunk cs) (s, w) = Some (Running, [], s', w') \<and>
    digest_of s' = g \<and> sess_assembler s' = a"
  using assms
proof (induction cs arbitrary: s w bs ps)
  case (Cons c cs)
  from Cons.prems(1) obtain bs1 a1 bs2 where
    r: "Reassemble (sess_assembler s) c = Some (Inr bs1, a1)" "bs = bs1 @ bs2"
      "run_notifications Reassemble a1 cs = Some (Inr bs2, a)"
    by (auto split: option.splits prod.splits sum.splits)
  with Cons.prems(2) obtain ps1 ps2 where
    ps: "ps = ps1 @ ps2" "map (\<lambda>b. ParsePacket b (XORPayload desc)) bs1 = map (\<lambda>p. Some (Inr p)) ps1"
      "map (\<lambda>b. ParsePacket b (XORPayload desc)) bs2 = map (\<lambda>p. Some (Inr p)) ps2"
    by (auto simp: append_eq_map_conv map_eq_append_conv)
  with Cons.prems(3) obtain g1 where
    g1: "digest_packets (platform env) (proto env) desc (digest_of s) ps1 = Some g1"
      "digest_packets (platform env) (proto env) desc g1 ps2 = Some g"
    by (auto simp: digest_packets_append Option.bind_eq_Some_conv)
  from receive_digest [OF r(1) ps(2) g1(1), of device w] obtain s1 w1 where
    s1: "receive env device desc c (s, w) = Some (None, s1, w1)" "digest_of s1 = g1" "sess_assembler s1 = a1" by blast
  from Cons.IH [of s1 bs2 ps2 w1] r(3) ps(3) g1(2) s1 show ?case
    by (auto simp: session_step_def)
qed simp

end
