(* ===== verification/Spec2Isabelle.thy ===== *)
theory Spec2Isabelle
  imports Prelude Crc Packet Aes Encryption Scanner Frame Assembler Gostr Store Config Device_Types
    Decode_V2 Decode_V3 Proto_Tables Time_Sync Md5 Session_Key Telemetry_Vars Session_Auth Session
    Nut Providers Manager Login Transport Provider_Run Web Web_Page Daemon Pipeline
begin

text \<open>
  A model of \<^verbatim>\<open>ecoflow-ble-nutd\<close>, a daemon that connects to EcoFlow power stations over Bluetooth,
  decodes their telemetry and serves it to NUT clients and on a status page.  Paths are
  relative to \<^verbatim>\<open>src/internal\<close>.

  \<^bold>\<open>How the program works.\<close>  \<^verbatim>\<open>main.go\<close> loads the configuration and creates the store and the provider
  manager; manager, web server and NUT server then run side by side.  The manager runs a
  provider again and again while it is enabled; the \<^verbatim>\<open>eco-ble\<close> provider resolves a user ID and
  runs one loop per device, which scans, connects, shakes hands, and turns notifications into
  frames, packets and telemetry that it publishes to the store.  The servers read the store.

  \<^bold>\<open>Conventions\<close> (Prelude, Gostr).  A byte is an 8-bit word, a string a list of bytes; \<^verbatim>\<open>int\<close> is \<open>int\<close>
  with the wrap-around written out where a value can reach it (durations, ages).  An index or
  slice expression is an \<open>option\<close> whose \<open>None\<close> is the panic; an error return is the \<open>Inl\<close> of a sum
  or an \<open>option\<close> over \<open>go_error\<close>.  A Go map is an association list with distinct keys.

  \<^bold>\<open>Theories and code.\<close>
  \<^item> Crc (\<^verbatim>\<open>ecoflow/crc.go\<close>), Packet (\<^verbatim>\<open>packet.go\<close>): checksums, the inner packet and its codec.
  \<^item> Aes, Encryption, Scanner, Frame, Assembler (\<^verbatim>\<open>frame.go\<close>): PKCS#7 and the two encryption
    strategies over FIPS-197, the resynchronising scan loops, the three frame assemblers and
    the handshake assembler.  Scanner states the contract of a scan loop as a locale; Frame
    interprets it for each loop body.
  \<^item> Device_Types (\<^verbatim>\<open>types.go\<close>, \<^verbatim>\<open>advertisement.go\<close>): telemetry, profiles, descriptors.
  \<^item> Decode_V2, Decode_V3, Proto_Tables (\<^verbatim>\<open>decode_v2.go\<close>, \<^verbatim>\<open>decode_v3.go\<close>, \<^verbatim>\<open>proto.go\<close> and the message
    tables of \<^verbatim>\<open>pb\<close>): the packet handlers.  Time_Sync (\<^verbatim>\<open>time.go\<close>): the clock answers.
  \<^item> Md5, Session_Key (\<^verbatim>\<open>session_key.go\<close>), Session_Auth (\<^verbatim>\<open>provider.go\<close>, the handshake), Telemetry_Vars
    (the published variables), Session (\<^verbatim>\<open>runSession\<close>, \<^verbatim>\<open>runDevice\<close>), Provider_Run (\<^verbatim>\<open>Provider.Run\<close>),
    Login (\<^verbatim>\<open>auth.go\<close>), Transport (\<^verbatim>\<open>transport_tinygo.go\<close>).
  \<^item> Store (\<^verbatim>\<open>state/state.go\<close>), Config (\<^verbatim>\<open>config/config.go\<close>), Providers (\<^verbatim>\<open>provider\<close>), Manager
    (\<^verbatim>\<open>runtime/provider_manager.go\<close>), Nut (\<^verbatim>\<open>nut/server.go\<close>), Web and Web_Page (\<^verbatim>\<open>web/server.go\<close>: the
    server, and the template with its script), Daemon (\<^verbatim>\<open>main.go\<close>).
  \<^item> Pipeline: the abstract session over packets, which the session over notifications implements.

  \<^bold>\<open>Concurrency.\<close>  Manager, Provider_Run, the connection attempt of Transport, the serving of a web
  request and Daemon are step relations whose steps are critical sections, channel operations,
  context ends, readings of the shared state and the choices of a select; their invariants hold
  in every reachable state.  A control request of the web server is several steps: the section
  of \<^verbatim>\<open>Enable\<close> or \<^verbatim>\<open>Disable\<close>, the actions that call leaves behind, the reading of the status and
  the reading of the store, with the manager, its runner and other requests in between; Daemon
  has any number of requests at once, and each sees of the others only what the manager's
  relation allows.  A session is a function of the list of choices its selects make (\<open>event\<close>),
  with the link, the clock and the curve as operations on a world; a list that is used up is a
  session that still waits.  In Provider_Run the loops of the devices are interleaved event by
  event: what \<^verbatim>\<open>runDevice\<close> writes for one event becomes visible in the shared store at once.  The
  script of the page is a function of the list of its events.  No loop has fuel: a loop over a
  buffer, a list of choices or a list of frames terminates by the length of it.

  \<^bold>\<open>What the theorems show.\<close>  Frames: packets within the size a peer accepts arrive whole and in
  order under any fragmentation, the result depends on the concatenation only, no input panics
  or grows the buffer beyond its bound, and damaged packets are rejected.  Decoders: no packet
  panics a handler, and each telemetry field comes from the packet it should.  Sessions: the
  handshake and the device loop are safe and end with their context, the published entry is the
  live or the waiting state of the merged telemetry, a tick puts a silent device to waiting, and
  what a device sends, however fragmented, is what a NUT client reads.  The device loop is only
  safe for a poll interval of at most 9223372036 seconds; a longer one, which \<^verbatim>\<open>Load\<close> accepts,
  overflows the duration and panics (\<open>huge_poll_panics\<close>), so the bound is a hypothesis there.
  Manager: the status, the cancellation and the wake-ups are right in every reachable state, and
  shutdown ends.  Provider: only the entries of configured devices change, no device ever has an
  error to report, and the return comes with the context.  Servers: the web server lets a
  request through exactly with its credentials, a protected NUT command is not granted before
  the configured password, the views of the store agree up to the formats of times, and a poll
  never overwrites a control action.  Store and configuration: the store is the map of last
  publications, a loaded configuration is valid.

  \<^bold>\<open>Parameters.\<close>  The Bluetooth library, the HTTP client, the protobuf runtime, YAML and JSON decoding,
  the template engine, the elliptic curve, the formats of times and the file system are
  arguments.  Their named hypotheses are \<open>curve_laws\<close> (Session_Key: the points reached from the
  base by scalars between 0 and its order lie on the curve, and multiplying by two such
  scalars commutes) and \<open>typed_lib\<close> (Decode_V3), each with an instance in a witness; the instance of
  \<open>curve_laws\<close> is an elliptic curve of prime order with its point at infinity.

  \<^bold>\<open>Not modelled.\<close>  Log calls; sockets, the HTTP server itself and the encoding of its answers; the
  accessors of the generated protobuf code; the style and layout of the page; the two Bluetooth
  adapter files, which only enable a device of the library.
\<close>

section \<open>Properties that span components\<close>

text \<open>C1: From the device to the NUT client: when a device encodes packets with the session's
  encryption and the link cuts the stream in any way, a session that processes the
  notifications ends in the state of the abstract session that processes the packets, and as
  soon as one of them carried telemetry, a NUT client reads exactly the live variables of the
  merged telemetry.\<close>

theorem telemetry_served:
  assumes "session_ok device desc st0 s" "pending (sess_assembler s) = []" "typed_lib (proto env)"
    "\<forall>p \<in> set ps. ordinary (sess_assembler s) p"
    "\<forall>p \<in> set ps. Encode (sess_assembler s) p = Some (Inr (frame p))" "concat cs = concat (map frame ps)"
    "digest_packets (platform env) (proto env) desc (digest_of s) (map (received (XORPayload desc)) ps) = Some g"
  shows "\<exists>s' w'. session_loop env device desc poll stale (map Chunk cs) (s, w) = Some (Running, [], s', w') \<and>
    digest_of s' = g \<and>
    (dg_fresh g \<longrightarrow> (\<forall>k. get_command (sess_store s') [''GET'', ''VAR'', d_Name device, k] =
      (case map_get (liveVars device desc (dg_telemetry g)) k of
         None \<Rightarrow> err ''VAR-NOT-SUPPORTED''
       | Some v \<Rightarrow> line_of [''VAR'', d_Name device, k, quote v])))"
proof -
  have "wf_assembler (sess_assembler s)" using assms(1) by (simp add: session_ok_def)
  with assms(2,4) have d: "\<forall>p \<in> set ps. deliverable (sess_assembler s) p"
    using ordinary_deliverable by blast
  from assembler.packets_received [OF assms(2) d assms(5,6), of "XORPayload desc"] obtain raws where
    "run_notifications Reassemble (sess_assembler s) cs = Some (Inr raws, sess_assembler s)"
    "map (\<lambda>b. ParsePacket b (XORPayload desc)) raws = map (\<lambda>p. Some (Inr (received (XORPayload desc) p))) ps" by blast
  then obtain s' w' where s': "session_loop env device desc poll stale (map Chunk cs) (s, w) = Some (Running, [], s', w')"
    "digest_of s' = g"
    using session_loop_digest [where ps = "map (received (XORPayload desc)) ps"] assms(7) by (fastforce simp: comp_def)
  from session_loop_ok [of device desc st0 "(s, w)" env poll stale "map Chunk cs"] assms(1,3) s'(1)
  have ok: "session_ok device desc st0 s'" by auto
  have "Get (sess_store s') (d_Name device) = Some u \<Longrightarrow> u_Name u = d_Name device" for u
    using ok by (auto simp: session_ok_def intro: Get_name)
  then have "get_command (sess_store s') [''GET'', ''VAR'', d_Name device, k] =
      (case map_get (liveVars device desc (dg_telemetry g)) k of
         None \<Rightarrow> err ''VAR-NOT-SUPPORTED''
       | Some v \<Rightarrow> line_of [''VAR'', d_Name device, k, quote v])" if "dg_fresh g" for k
    using ok that s'(2)
    by (fastforce simp: session_ok_def digest_of_def entry_lives_def nut_shows var_line_def split: option.split)
  with s' show ?thesis by blast
qed

text \<open>C10: From a configuration that loads, in every state the daemon can reach, all readers of the
  store agree: for each entry and each variable the NUT server answers \<open>GET VAR\<close> with the
  value, the JSON status has an entry of that name with the same variables, and the page a row
  with the value.\<close>

theorem daemon_views_agree:
  assumes "main_start ReadFile yaml json path start = Inr (cfg, m0)" "(daemon_step lib cfg)\<^sup>*\<^sup>* (m0, []) (m, hs)"
    "Get (mstore m) n = Some u"
  shows "u_Name u = n \<and>
    (\<exists>d \<in> set (sr_Devices (web_snapshot cfg st now (mstore m))). dr_Name d = n \<and> dr_Vars d = Vars u) \<and>
    (\<exists>d \<in> set (pg_Devices (page_data cfg st now (mstore m))). pd_Name d = n \<and>
      (\<forall>k v. (k, v) \<in> set (pd_Vars d) \<longleftrightarrow> map_get (Vars u) k = Some v)) \<and>
    (\<forall>k. get_command (mstore m) [''GET'', ''VAR'', n, k] =
      (case map_get (Vars u) k of None \<Rightarrow> err ''VAR-NOT-SUPPORTED'' | Some v \<Rightarrow> var_line u k v))"
proof -
  from daemon_ok [OF assms(1,2)] have "wf_store (mstore m)" by (simp add: manager_ok_def)
  from Get_name [OF this assms(3)] show ?thesis
    using web_shows [OF assms(3), of now] page_shows [OF assms(3), of now] nut_shows [OF assms(3)]
    by (simp add: web_snapshot_def page_data_def)
qed

text \<open>C5: What a session knows is what a NUT client reads: after any events, the answer to
  \<open>GET VAR <name> ups.status\<close> is the status of the session's merged telemetry while it is
  fresh, and \<open>WAIT\<close> once it is stale.\<close>

theorem status_served:
  assumes "typed_lib (proto env)" "session_ok device desc st0 s"
    "session_loop env device desc p t es (s, w) = Some (r, es', s', w')"
  shows "get_command (sess_store s') [''GET'', ''VAR'', d_Name device, ''ups.status''] =
    line_of [''VAR'', d_Name device, ''ups.status'',
      quote (if isStale s' then ''WAIT'' else live_status device (latestTelemetry s'))]"
proof -
  from session_loop_ok [of device desc st0 "(s, w)" env p t es] assms have ok: "session_ok device desc st0 s'" by auto
  then obtain u where u: "Get (sess_store s') (d_Name device) = Some u"
    "map_get (Vars u) ''ups.status'' = Some (if isStale s' then ''WAIT'' else live_status device (latestTelemetry s'))"
    by (auto simp: session_ok_def entry_waits_def entry_lives_def staleVars_def identityVars_status liveVars_get
        telemetry_keys_def split: if_splits)
  moreover have "u_Name u = d_Name device" using ok u(1) by (auto simp: session_ok_def intro: Get_name)
  ultimately show ?thesis by (simp add: nut_shows var_line_def)
qed

text \<open>The \<open>Disable\<close> button does what it says: when the script's request is authorized, and whatever
  the manager, its runner and other requests do meanwhile, as long as none of them enables the
  provider: once the answer is there the script reports the collector disabled, the page shows
  it neither enabled nor running, and the buttons are free again.\<close>

theorem disable_click:
  assumes "manager_ok (Devices cfg) m" "protect cfg (control_request ''disable'' auth)" "\<not> busy s"
    "(undisturbed lib cfg)\<^sup>*\<^sup>* (m, Received (control_request ''disable'' auth)) (m', Answered a)"
    "s' = change_done (updateStatus text loc) (fetched_answer a) (changeCollector ''disable'' s)"
  shows "message s' = (''Collector disabled.'', ''success'') \<and> v_enabled (shown s') = ''false'' \<and>
    v_running (shown s') = ''false'' \<and> \<not> busy s' \<and> \<not> disabled s'"
proof -
  have "Method (control_request ''disable'' auth) = ''POST''"
    "URLPath (control_request ''disable'' auth) \<in> {''/api/provider/disable'', ''/api/ble/disable''}"
    by (simp_all add: control_request_def)
  from disable_answer [OF assms(4,1,2) this] obtain st where
    "a = ok_response (Json st)" "\<not> Enabled (sr_Provider st)" "\<not> IsRunning (sr_Provider st)" by blast
  with assms(3,5) show ?thesis
    by (simp add: ok_response_def fetched_answer_def requestStatus_def change_done_def changeCollector_def
        updateStatus_def bool_text_def Let_def)
qed

section \<open>Witnesses\<close>

definition sample_report :: Packet where
  "sample_report = zero_bms_packet\<lparr>Version := 0x02\<rparr>"

theorem telemetry_served_witness:
  "\<exists>t s' w'. session_loop sample_env sample_device sample_descriptor 15 60
      (map Chunk [wire (sess_assembler sample_session) sample_report]) (sample_session, []) = Some (Running, [], s', w') \<and>
    get_command (sess_store s') [''GET'', ''VAR'', ''delta2'', ''ups.status''] =
      line_of [''VAR'', ''delta2'', ''ups.status'', quote (live_status sample_device t)]"
proof -
  let ?a = "sess_assembler sample_session"
  let ?q = "received (XORPayload sample_descriptor) sample_report"
  have q: "Src ?q = 0x03" "CmdSet ?q = 0x20" "CmdID ?q = 0x32" "length (Payload ?q) = 69"
    by (simp_all add: received_def received_payload_def sample_report_def zero_bms_packet_def zero_packet_def Let_def)
  obtain b where b: "v2_HandlePacket host64 (newV2Handler ProfileDelta2) ?q =
      (Inr (Some (snapshot host64 ((newV2Handler ProfileDelta2)\<lparr>bms := Some b\<rparr>)), [], True),
       (newV2Handler ProfileDelta2)\<lparr>bms := Some b\<rparr>)"
    using v2_bms_packet [OF q(1-3), of host64 "newV2Handler ProfileDelta2"] q(4) by auto
  have "int_bits host64 = 64" by (simp add: host64_def)
  from v2_handled_reports [OF this b] have "\<not> Empty (snapshot host64 ((newV2Handler ProfileDelta2)\<lparr>bms := Some b\<rparr>))" by auto
  with b q(1) obtain g where g: "digest_packets (platform sample_env) (proto sample_env) sample_descriptor
      (digest_of sample_session) (map (received (XORPayload sample_descriptor)) [sample_report]) = Some g" "dg_fresh g"
    by (auto simp: digest_packet_def digest_of_def sample_session_def sample_env_def isAuthReply_def isTimeRequest_def)
  have ord: "ordinary ?a sample_report"
    by (simp add: ordinary_def sample_report_def zero_bms_packet_def zero_packet_def)
  have a: "pending ?a = []" "wf_assembler ?a" by (simp_all add: sample_session_def)
  have "Encode ?a sample_report = Some (Inr (wire ?a sample_report))"
    by (rule assembler.encode_wire [OF a(1) ordinary_deliverable [OF ord a(2,1)]])
  with telemetry_served [OF sample_session_ok a(1) sample_env_typed, of "[sample_report]" "wire ?a"
      "[wire ?a sample_report]" g 15 60 "[]"] ord g
  obtain s' w' where "session_loop sample_env sample_device sample_descriptor 15 60
      (map Chunk [wire ?a sample_report]) (sample_session, []) = Some (Running, [], s', w')"
    "get_command (sess_store s') [''GET'', ''VAR'', d_Name sample_device, ''ups.status''] =
      (case map_get (liveVars sample_device sample_descriptor (dg_telemetry g)) ''ups.status'' of
         None \<Rightarrow> err ''VAR-NOT-SUPPORTED''
       | Some v \<Rightarrow> line_of [''VAR'', d_Name sample_device, ''ups.status'', quote v])" by auto
  then show ?thesis
    by (auto simp: liveVars_get telemetry_keys_def sample_device_def)
qed

theorem daemon_views_agree_witness:
  "\<exists>cfg m0 u. main_start (\<lambda>_. Inr []) (\<lambda>_ _. (None, sample_file)) (\<lambda>_ c. (None, c)) ''f'' 0 = Inr (cfg, m0) \<and>
     Get (mstore m0) ''delta2'' = Some u \<and>
     get_command (mstore m0) [''GET'', ''VAR'', ''delta2'', ''ups.status''] = var_line u ''ups.status'' ''WAIT''"
proof -
  let ?m = "NewProviderManager sample_config 0 New"
  have start: "main_start (\<lambda>_. Inr []) (\<lambda>_ _. (None, sample_file)) (\<lambda>_ c. (None, c)) ''f'' 0 = Inr (sample_config, ?m)"
    by (simp add: main_start_def sample_loads)
  have "device_defaults sample_device \<in> set (Devices sample_config)" "d_Name (device_defaults sample_device) = ''delta2''"
    by (simp_all add: sample_config_def device_defaults_def sample_device_def)
  with MarkDevicesWaiting_all [of "Devices sample_config" 0 New] obtain u where
    u: "Get (mstore ?m) ''delta2'' = Some u" "map_get (Vars u) ''ups.status'' = Some ''WAIT''"
    by (auto simp: all_waiting_def NewProviderManager_def)
  from daemon_views_agree [OF start rtranclp.rtrancl_refl u(1)] u start show ?thesis by simp
qed

theorem status_served_witness:
  "get_command (sess_store sample_session) [''GET'', ''VAR'', ''delta2'', ''ups.status''] =
     line_of [''VAR'', ''delta2'', ''ups.status'', quote ''WAIT'']"
proof -
  have "session_loop sample_env sample_device sample_descriptor 15 60 [] (sample_session, []) =
      Some (Running, [], sample_session, [])" by simp
  from status_served [OF sample_env_typed sample_session_ok this] show ?thesis
    by (simp add: sample_session_def sample_device_def)
qed

theorem disable_click_witness:
  "\<exists>m' a. (undisturbed sample_lib sample_config)\<^sup>*\<^sup>*
      (sample_active, Received (control_request ''disable'' [])) (m', Answered a) \<and>
    message (change_done sample_update (fetched_answer a) (changeCollector ''disable'' (script_start
      (sample_update (web_snapshot sample_config (status sample_start) 0 (mstore sample_start)))))) =
    (''Collector disabled.'', ''success'')"
proof -
  have "route (control_request ''disable'' []) = To DisableEndpoint"
    by (intro route_disable) (simp_all add: control_request_def)
  from disable_answered [OF sample_config_open this, of sample_lib sample_active] obtain m' a where
    path: "(undisturbed sample_lib sample_config)\<^sup>*\<^sup>* (sample_active, Received (control_request ''disable'' []))
      (m', Answered a)" by blast
  have "\<not> busy (script_start v)" for v by (simp add: script_start_def)
  from disable_click [OF reachable_ok [OF sample_reachable [OF sample_active_reached]] sample_config_open this path refl] path
  show ?thesis by blast
qed

end
